(* ===== verification/Prelude.thy ===== *)
theory Prelude
  imports
    Complex_Main
    "HOL-Library.Word"
    "HOL-Library.DAList"
    "HOL-Library.List_Lexorder"
    "HOL-Library.Multiset"
begin

text \<open>
  Shared material of the development: machine integers, Rust's hash map, Rust's stable
  \<open>sort_by\<close>, and the two interfaces that the component theories build on (a comparator for
  sorting, and a state machine with an invariant).

  Machine integers are words: \<open>u64\<close> arithmetic wraps, as it does in the release profile of the
  workspace (its manifest sets no \<open>overflow-checks\<close>). Counts of elements held in memory
  (\<open>usize\<close>) are \<open>nat\<close>; millisecond timestamps (\<open>i64\<close>) are \<open>int\<close>. The
  scores and weights of type \<open>f64\<close> are reals: rounding and the values \<open>NaN\<close> and infinity
  are not represented.

  \<open>std::collections::HashMap\<close> is an association list with distinct keys (the library type
  \<open>alist\<close>). Rust leaves the iteration order of a hash map unspecified; here it is the order
  of the list, and statements that could depend on it are made for every such list.
\<close>

section \<open>Types and collections of facts\<close>

type_synonym u8 = "8 word"
type_synonym u16 = "16 word"
type_synonym u32 = "32 word"
type_synonym u64 = "64 word"
type_synonym usize = nat
type_synonym i64 = int
type_synonym f64 = real
type_synonym bytes = "u8 list"

named_theorems hm_simps "rewrite rules for hash maps"
named_theorems word_counters "facts on counters kept in machine words"

section \<open>Hash maps\<close>

type_synonym ('k, 'v) hashmap = "('k, 'v) alist"

abbreviation hm_new :: "('k, 'v) hashmap" where
  "hm_new \<equiv> DAList.empty"

abbreviation hm_get :: "('k, 'v) hashmap \<Rightarrow> 'k \<Rightarrow> 'v option" where
  "hm_get \<equiv> DAList.lookup"

abbreviation hm_insert :: "'k \<Rightarrow> 'v \<Rightarrow> ('k, 'v) hashmap \<Rightarrow> ('k, 'v) hashmap" where
  "hm_insert \<equiv> DAList.update"

abbreviation hm_remove :: "'k \<Rightarrow> ('k, 'v) hashmap \<Rightarrow> ('k, 'v) hashmap" where
  "hm_remove \<equiv> DAList.delete"

abbreviation hm_iter :: "('k, 'v) hashmap \<Rightarrow> ('k \<times> 'v) list" where
  "hm_iter \<equiv> DAList.impl_of"

definition hm_contains :: "('k, 'v) hashmap \<Rightarrow> 'k \<Rightarrow> bool" where
  "hm_contains m k = (hm_get m k \<noteq> None)"

definition hm_len :: "('k, 'v) hashmap \<Rightarrow> usize" where
  "hm_len m = length (hm_iter m)"

definition hm_keys :: "('k, 'v) hashmap \<Rightarrow> 'k list" where
  "hm_keys m = map fst (hm_iter m)"

definition hm_values :: "('k, 'v) hashmap \<Rightarrow> 'v list" where
  "hm_values m = map snd (hm_iter m)"

definition hm_retain :: "('k \<Rightarrow> 'v \<Rightarrow> bool) \<Rightarrow> ('k, 'v) hashmap \<Rightarrow> ('k, 'v) hashmap" where
  "hm_retain P m = DAList.filter (\<lambda>(k, v). P k v) m"

definition hm_values_mut :: "('v \<Rightarrow> 'v) \<Rightarrow> ('k, 'v) hashmap \<Rightarrow> ('k, 'v) hashmap" where
  "hm_values_mut f m = DAList.map f m"

section \<open>Decimal rendering of unsigned integers\<close>

fun decimal :: "nat \<Rightarrow> string" where
  "decimal n =
     (let d = [char_of (48 + n mod 10)] in if n < 10 then d else decimal (n div 10) @ d)"

declare decimal.simps [simp del]

section \<open>Stable sorting by a comparator\<close>

text \<open>
  \<open>slice::sort_by\<close> is a stable sort. The comparator enters as \<open>le a b\<close>, true when the
  comparison of \<open>a\<close> with \<open>b\<close> is not \<open>Greater\<close>.
\<close>

fun insert_by :: "('a \<Rightarrow> 'a \<Rightarrow> bool) \<Rightarrow> 'a \<Rightarrow> 'a list \<Rightarrow> 'a list" where
  "insert_by le x [] = [x]"
| "insert_by le x (y # ys) = (if le x y then x # y # ys else y # insert_by le x ys)"

definition sort_by :: "('a \<Rightarrow> 'a \<Rightarrow> bool) \<Rightarrow> 'a list \<Rightarrow> 'a list" where
  "sort_by le xs = foldr (insert_by le) xs []"

fun position :: "('a \<Rightarrow> bool) \<Rightarrow> 'a list \<Rightarrow> usize option" where
  "position P [] = None"
| "position P (x # xs) = (if P x then Some 0 else map_option Suc (position P xs))"

text \<open>\<^verbatim>\<open>Vec::remove\<close>.\<close>

definition remove_at :: "nat \<Rightarrow> 'a list \<Rightarrow> 'a list" where
  "remove_at i xs = take i xs @ drop (Suc i) xs"

section \<open>Laws of hash maps\<close>

lemma hm_iter_new [simp, hm_simps]: "hm_iter hm_new = []"
  by transfer simp

lemma hm_iter_insert [hm_simps]: "hm_iter (hm_insert k v m) = AList.update k v (hm_iter m)"
  by transfer simp

lemma hm_iter_remove [hm_simps]: "hm_iter (hm_remove k m) = AList.delete k (hm_iter m)"
  by transfer simp

lemma hm_iter_retain [hm_simps]:
  "hm_iter (hm_retain P m) = filter (\<lambda>(k, v). P k v) (hm_iter m)"
  unfolding hm_retain_def by transfer simp

lemma hm_iter_values_mut [hm_simps]:
  "hm_iter (hm_values_mut f m) = map (\<lambda>(k, v). (k, f v)) (hm_iter m)"
  unfolding hm_values_mut_def by transfer (auto simp: map_prod_def)

lemma hm_get_iter: "hm_get m k = map_of (hm_iter m) k"
  by transfer simp

lemma hm_in_iter: "(k, v) \<in> set (hm_iter m) \<longleftrightarrow> hm_get m k = Some v"
  by (simp add: hm_get_iter)

lemma hm_contains_iter: "hm_contains m k \<longleftrightarrow> k \<in> set (hm_keys m)"
  by (auto simp: hm_contains_def hm_keys_def hm_get_iter map_of_eq_None_iff)

lemma hm_contains_new [simp]: "\<not> hm_contains hm_new k"
  by (simp add: hm_contains_def)

lemma hm_contains_insert [simp]:
  "hm_contains (hm_insert k v m) k' \<longleftrightarrow> k = k' \<or> hm_contains m k'"
  by (simp add: hm_contains_def lookup_update)

lemma hm_keys_distinct [simp]: "distinct (hm_keys m)"
  by (simp add: hm_keys_def)

lemma set_hm_keys: "set (hm_keys m) = dom (hm_get m)"
  by (auto simp: hm_contains_iter [symmetric] hm_contains_def)

lemma set_hm_values: "set (hm_values m) = ran (hm_get m)"
  by (auto simp: hm_values_def ran_def image_iff hm_in_iter [symmetric]) force+

lemma hm_len_new [simp]: "hm_len hm_new = 0"
  by (simp add: hm_len_def)

lemma hm_len_card: "hm_len m = card (dom (hm_get m))"
  by (metis distinct_card hm_keys_def hm_keys_distinct hm_len_def length_map set_hm_keys)

lemma finite_dom_hm_get [simp]: "finite (dom (hm_get m))"
  by (metis List.finite_set set_hm_keys)

lemma dom_hm_insert [simp]: "dom (hm_get (hm_insert k v m)) = insert k (dom (hm_get m))"
  by (auto simp: lookup_update split: if_splits)

lemma hm_len_insert:
  "hm_len (hm_insert k v m) = (if hm_contains m k then hm_len m else Suc (hm_len m))"
  by (auto simp: hm_len_card card_insert_if hm_contains_def)

lemma hm_len_insert_fresh: "\<not> hm_contains m k \<Longrightarrow> hm_len (hm_insert k v m) = Suc (hm_len m)"
  by (simp add: hm_len_insert)

lemma hm_remove_absent:
  assumes "\<not> hm_contains m k"
  shows "hm_remove k m = m"
proof -
  have "k \<notin> fst ` set (hm_iter m)" using assms by (auto simp: hm_contains_iter hm_keys_def)
  then have "hm_iter (hm_remove k m) = hm_iter m" by (simp add: hm_iter_remove delete_idem)
  then show ?thesis by (simp add: impl_of_inject)
qed

lemma hm_len_remove:
  "hm_len (hm_remove k m) = (if hm_contains m k then hm_len m - 1 else hm_len m)"
proof -
  have "dom (hm_get (hm_remove k m)) = dom (hm_get m) - {k}" by (auto simp: lookup_delete)
  then show ?thesis by (simp add: hm_len_card hm_contains_def domIff card_Diff_singleton_if)
qed

lemma map_of_filter_distinct:
  "distinct (map fst xs) \<Longrightarrow>
   map_of (filter (\<lambda>(k, v). P k v) xs) k =
     (case map_of xs k of None \<Rightarrow> None | Some v \<Rightarrow> if P k v then Some v else None)"
  by (induction xs) (auto split: option.splits simp: map_of_eq_None_iff)

lemma hm_get_retain:
  "hm_get (hm_retain P m) k =
     (case hm_get m k of None \<Rightarrow> None | Some v \<Rightarrow> if P k v then Some v else None)"
  by (simp add: hm_get_iter hm_iter_retain map_of_filter_distinct)

lemma hm_get_values_mut: "hm_get (hm_values_mut f m) k = map_option f (hm_get m k)"
  by (simp add: hm_get_iter hm_iter_values_mut map_of_map)

lemma hm_len_retain_le: "hm_len (hm_retain P m) \<le> hm_len m"
  by (simp add: hm_len_def hm_iter_retain)

lemma hm_len_values_mut [simp]: "hm_len (hm_values_mut f m) = hm_len m"
  by (simp add: hm_len_def hm_iter_values_mut)

lemma hm_values_values_mut: "hm_values (hm_values_mut f m) = map f (hm_values m)"
  by (simp add: hm_values_def hm_iter_values_mut case_prod_beta)

lemma distinct_hm_iter [simp]: "distinct (hm_iter m)"
  by (metis distinct_map impl_of_distinct)

lemma mset_hm_iter_cong: "hm_get m1 = hm_get m2 \<Longrightarrow> mset (hm_iter m1) = mset (hm_iter m2)"
  by (subst set_eq_iff_mset_eq_distinct [symmetric]) (auto simp: hm_in_iter)

lemma mset_hm_values_cong: "hm_get m1 = hm_get m2 \<Longrightarrow> mset (hm_values m1) = mset (hm_values m2)"
  by (metis hm_values_def mset_hm_iter_cong mset_map)

section \<open>The comparator interface\<close>

lemma mset_insert_by [simp]: "mset (insert_by le x xs) = add_mset x (mset xs)"
  by (induction xs) auto

lemma set_insert_by [simp]: "set (insert_by le x xs) = insert x (set xs)"
  by (induction xs) auto

lemma sort_by_Nil [simp]: "sort_by le [] = []"
  by (simp add: sort_by_def)

lemma sort_by_Cons: "sort_by le (x # xs) = insert_by le x (sort_by le xs)"
  by (simp add: sort_by_def)

lemma mset_sort_by [simp]: "mset (sort_by le xs) = mset xs"
  by (induction xs) (auto simp: sort_by_Cons)

lemma set_sort_by [simp]: "set (sort_by le xs) = set xs"
  by (metis mset_sort_by set_mset_mset)

lemma length_sort_by [simp]: "length (sort_by le xs) = length xs"
  by (metis mset_sort_by size_mset)

locale comparator =
  fixes le :: "'a \<Rightarrow> 'a \<Rightarrow> bool"
  assumes le_total: "le a b \<or> le b a"
    and le_trans: "le a b \<Longrightarrow> le b c \<Longrightarrow> le a c"
begin

lemma insert_by_sorted: "sorted_wrt le xs \<Longrightarrow> sorted_wrt le (insert_by le x xs)"
  by (induction xs) (auto dest: le_trans intro: le_total [THEN disjE])

lemma sort_by_sorted: "sorted_wrt le (sort_by le xs)"
  by (induction xs) (auto simp: sort_by_Cons insert_by_sorted)

lemma sorted_wrt_unique:
  assumes "sorted_wrt le xs" "sorted_wrt le ys" "mset xs = mset ys"
    and "\<And>a b. a \<in> set xs \<Longrightarrow> b \<in> set xs \<Longrightarrow> le a b \<Longrightarrow> le b a \<Longrightarrow> a = b"
  shows "xs = ys"
  using assms
proof (induction xs arbitrary: ys)
  case Nil
  then show ?case by simp
next
  case (Cons x xs)
  then obtain y ys' where ys: "ys = y # ys'" by (cases ys) auto
  have "set ys = set (x # xs)" using Cons.prems(3) by (metis set_mset_mset)
  with ys Cons.prems have "le x y" "le y x" "y \<in> set (x # xs)"
    using le_total [of x x] by fastforce+
  with Cons.prems(4) have "x = y" by simp
  with Cons ys show ?case by auto
qed

lemma sort_by_unique:
  assumes "mset xs = mset ys"
    and "\<And>a b. a \<in> set xs \<Longrightarrow> b \<in> set xs \<Longrightarrow> le a b \<Longrightarrow> le b a \<Longrightarrow> a = b"
  shows "sort_by le xs = sort_by le ys"
  using assms by (intro sorted_wrt_unique) (auto simp: sort_by_sorted)

end

section \<open>The state machine interface\<close>

text \<open>
  A component that changes its state one operation at a time is a step function over events.
  The invariant that every step keeps holds after every run.
\<close>

locale machine =
  fixes step :: "'s \<Rightarrow> 'e \<Rightarrow> 's"
    and inv :: "'s \<Rightarrow> bool"
  assumes step_inv: "inv s \<Longrightarrow> inv (step s e)"
begin

lemma run_inv: "inv s \<Longrightarrow> inv (foldl step s es)"
  by (induction es arbitrary: s) (auto intro: step_inv)

end

text \<open>A machine whose steps never decrease a rank.\<close>

locale ranked_machine = machine step inv
  for step :: "'s \<Rightarrow> 'e \<Rightarrow> 's" and inv :: "'s \<Rightarrow> bool" +
  fixes rank :: "'s \<Rightarrow> 'r::preorder"
  assumes step_rank: "inv s \<Longrightarrow> rank s \<le> rank (step s e)"
begin

lemma run_rank: "inv s \<Longrightarrow> rank s \<le> rank (foldl step s es)"
  by (induction es arbitrary: s) (auto intro: step_inv step_rank order_trans)

end

section \<open>The quorum interfaces\<close>

text \<open>
  Sizes of read and write quorums over \<open>n\<close> nodes that force every write quorum to meet every
  read quorum, and the Byzantine form in which two quorums share more than \<open>f\<close> nodes.
\<close>

locale rw_quorum =
  fixes n r w :: nat
  assumes overlap: "n < r + w"
begin

lemma quorums_meet:
  assumes "finite V" "card V = n" "A \<subseteq> V" "B \<subseteq> V" "r \<le> card A" "w \<le> card B"
  shows "A \<inter> B \<noteq> {}"
proof
  assume "A \<inter> B = {}"
  with assms have "card A + card B = card (A \<union> B)"
    by (metis card_Un_disjoint rev_finite_subset)
  also have "\<dots> \<le> n"
    using assms by (metis Un_least card_mono)
  finally show False using assms overlap by linarith
qed

end

locale bft_quorum =
  fixes n q f :: nat
  assumes bft_overlap: "n + f < 2 * q"
begin

lemma quorums_share_more_than_f:
  assumes "finite V" "card V = n" "A \<subseteq> V" "B \<subseteq> V" "q \<le> card A" "q \<le> card B"
  shows "f < card (A \<inter> B)"
proof -
  have "card A + card B = card (A \<union> B) + card (A \<inter> B)"
    using assms by (metis card_Un_Int rev_finite_subset)
  moreover have "card (A \<union> B) \<le> n"
    using assms by (metis Un_least card_mono)
  ultimately show ?thesis using assms bft_overlap by linarith
qed

lemma quorums_share_honest:
  assumes "finite V" "card V = n" "A \<subseteq> V" "B \<subseteq> V" "q \<le> card A" "q \<le> card B"
    and "finite F" "card F \<le> f"
  shows "\<exists>h. h \<in> A \<and> h \<in> B \<and> h \<notin> F"
proof (rule ccontr)
  assume "\<not> ?thesis"
  then have "A \<inter> B \<subseteq> F" by blast
  with assms(7) have "card (A \<inter> B) \<le> card F" by (rule card_mono)
  with quorums_share_more_than_f [OF assms(1-6)] assms(8) show False by linarith
qed

end

text \<open>Two sets of a given size overlap in no more elements than they have to.\<close>

lemma least_overlap:
  assumes "finite V" and "q \<le> card V"
  obtains A B where "A \<subseteq> V" "B \<subseteq> V" "card A = q" "card B = q" "card (A \<inter> B) = 2 * q - card V"
proof -
  obtain A where A: "A \<subseteq> V" "card A = q" "finite A"
    using obtain_subset_with_card_n [OF assms(2)] by blast
  have rest: "card (V - A) = card V - q" using A assms by (simp add: card_Diff_subset)
  show thesis
  proof (cases "q \<le> card V - q")
    case True
    then obtain B where "B \<subseteq> V - A" "card B = q" using obtain_subset_with_card_n rest by metis
    moreover from this have "A \<inter> B = {}" by blast
    ultimately show thesis using A True that [of A B] by (auto simp: Diff_subset [THEN subset_trans])
  next
    case False
    have "2 * q - card V \<le> card A" using A(2) assms(2) by simp
    then obtain C where C: "C \<subseteq> A" "card C = 2 * q - card V" "finite C"
      by (rule obtain_subset_with_card_n)
    have "card ((V - A) \<union> C) = q"
      using A C rest False assms by (subst card_Un_disjoint) auto
    moreover have "A \<inter> ((V - A) \<union> C) = C" using C(1) by blast
    ultimately show thesis using A C that [of A "(V - A) \<union> C"] by auto
  qed
qed

sublocale bft_quorum \<subseteq> rw_quorum n q q
  by unfold_locales (use bft_overlap in linarith)

section \<open>Positions in lists\<close>

lemma position_eq_None: "position P xs = None \<longleftrightarrow> (\<forall>x \<in> set xs. \<not> P x)"
  by (induction xs) auto

lemma position_eq_Some:
  "position P xs = Some i \<longleftrightarrow> i < length xs \<and> P (xs ! i) \<and> (\<forall>j < i. \<not> P (xs ! j))"
proof (induction xs arbitrary: i)
  case Nil
  then show ?case by simp
next
  case (Cons x xs)
  then show ?case by (cases i) (auto simp: nth_Cons' less_Suc_eq_0_disj)
qed

lemma remove_at_mset: "i < length xs \<Longrightarrow> mset (remove_at i xs) + {#xs ! i#} = mset xs"
  unfolding remove_at_def by (metis Cons_nth_drop_Suc append_take_drop_id mset.simps(2) mset_append union_mset_add_mset_right add.right_neutral)

section \<open>Counters in machine words\<close>

lemma unat_inc_no_wrap [word_counters]:
  "w \<noteq> - 1 \<Longrightarrow> unat ((w :: 'a :: len word) + 1) = Suc (unat w)"
  by (metis add.commute add_eq_0_iff unatSuc)

lemma word_less_inc [word_counters]: "w < (v :: 'a :: len word) \<Longrightarrow> unat (w + 1) = Suc (unat w)"
  by (metis unat_inc_no_wrap word_order.extremum_strict)

lemma word_less_Suc_iff:
  "w \<noteq> - 1 \<Longrightarrow> (v :: 'a :: len word) < w + 1 \<longleftrightarrow> v \<le> w"
  by (simp add: word_less_nat_alt word_le_nat_alt unat_inc_no_wrap less_Suc_eq_le)

lemma unat_sum_list_no_wrap:
  "sum_list (map unat ws) < 2 ^ LENGTH('a) \<Longrightarrow>
   unat (sum_list (ws :: 'a :: len word list)) = sum_list (map unat ws)"
proof (induction ws)
  case (Cons w ws)
  then show ?case by (simp add: unat_word_ariths)
qed simp

section \<open>Sums of reals over lists\<close>

lemma sum_list_map_divide: "(\<Sum>x\<leftarrow>xs. f x / (t :: real)) = (\<Sum>x\<leftarrow>xs. f x) / t"
  by (induction xs) (auto simp: add_divide_distrib)

lemma sum_list_map_real: "(\<Sum>x\<leftarrow>xs. real (f x)) = real (\<Sum>x\<leftarrow>xs. f x)"
  by (induction xs) auto

lemma real_unat_pos: "(w :: 'a :: len word) \<noteq> 0 \<Longrightarrow> 0 < real (unat w)"
  by (metis of_nat_0_less_iff unat_gt_0)

section \<open>Steps that can fail\<close>

definition try_then :: "('e + 'a) \<times> 's \<Rightarrow> ('a \<Rightarrow> 's \<Rightarrow> ('e + 'b) \<times> 's) \<Rightarrow> ('e + 'b) \<times> 's" where
  "try_then r k = (case r of (Inl e, s) \<Rightarrow> (Inl e, s) | (Inr a, s) \<Rightarrow> k a s)"

lemma try_then_simps [simp]:
  "try_then (Inl e, s) k = (Inl e, s)" "try_then (Inr a, s) k = k a s"
  by (simp_all add: try_then_def)

lemma try_then_Inr: "try_then r k = (Inr b, t) \<longleftrightarrow> (\<exists>a s. r = (Inr a, s) \<and> k a s = (Inr b, t))"
  by (auto simp: try_then_def split: prod.splits sum.splits)

end
