(* ===== verification/Core_Types.thy ===== *)
theory Core_Types
  imports Prelude
begin

text \<open>
  The parts of the crate \<open>platform-core\<close> that the other components rely on: hotkeys
  (\<open>core/src/types.rs\<close>), key pairs, signed messages and hashing (\<open>core/src/crypto.rs\<close>),
  the error type (\<open>core/src/error.rs\<close>) and the production constants
  (\<open>core/src/constants.rs\<close>).

  The functions of third-party crates that the code calls are the fields of the record
  \<open>platform\<close>, which every definition that needs one of them takes as an argument: the
  sr25519 primitives of \<open>sp_core\<close>, SHA-256 of \<open>sha2\<close>, \<open>bincode\<close> and \<open>hex\<close>.
  \<open>bincode\<close> works on the serde data model, in which a struct is the sequence of its fields:
  it writes neither the name of the struct nor the names of the fields. The type \<open>serde\<close> is
  that data model, cut down to what the code serialises.
\<close>

section \<open>Third-party functions\<close>

datatype serde =
    SU16 u16
  | SU64 u64
  | SUsize usize
  | SF64 f64
  | SStr string
  | SBytes bytes
  | SNone
  | SSome serde
  | SSeq "serde list"
  | STuple "serde list"

record platform =
  sr_from_seed :: "bytes \<Rightarrow> bytes"
  sr_to_raw :: "bytes \<Rightarrow> bytes"
  sr_public :: "bytes \<Rightarrow> bytes"
  sr_sign :: "bytes \<Rightarrow> bytes \<Rightarrow> bytes"
  sr_verify :: "bytes \<Rightarrow> bytes \<Rightarrow> bytes \<Rightarrow> bool"
  sha256 :: "bytes \<Rightarrow> bytes"
  bincode :: "serde \<Rightarrow> string + bytes"
  hex_encode :: "bytes \<Rightarrow> string"
  hex_decode :: "string \<Rightarrow> bytes option"

text \<open>
  The documented behaviour of sr25519 that the code relies on: a signature is 64 bytes long and
  verifies against the public key of the pair that made it.
\<close>

definition signing_correct :: "platform \<Rightarrow> bool" where
  "signing_correct P \<longleftrightarrow>
     (\<forall>k m. length (sr_sign P k m) = 64 \<and> sr_verify P (sr_sign P k m) m (sr_public P k))"

section \<open>Errors\<close>

datatype MiniChainError =
    Crypto string
  | Serialization string
  | Network string
  | Consensus string
  | Wasm string
  | Storage string
  | InvalidSignature
  | Unauthorized string
  | NotFound string
  | InvalidState string
  | Timeout string
  | Internal string
  | RateLimited string
  | TypeMismatch string

fun MiniChainError_to_string :: "MiniChainError \<Rightarrow> string" where
  "MiniChainError_to_string (Crypto s) = ''Cryptographic error: '' @ s"
| "MiniChainError_to_string (Serialization s) = ''Serialization error: '' @ s"
| "MiniChainError_to_string (Network s) = ''Network error: '' @ s"
| "MiniChainError_to_string (Consensus s) = ''Consensus error: '' @ s"
| "MiniChainError_to_string (Wasm s) = ''WASM runtime error: '' @ s"
| "MiniChainError_to_string (Storage s) = ''Storage error: '' @ s"
| "MiniChainError_to_string InvalidSignature = ''Invalid signature''"
| "MiniChainError_to_string (Unauthorized s) = ''Unauthorized: '' @ s"
| "MiniChainError_to_string (NotFound s) = ''Not found: '' @ s"
| "MiniChainError_to_string (InvalidState s) = ''Invalid state: '' @ s"
| "MiniChainError_to_string (Timeout s) = ''Timeout: '' @ s"
| "MiniChainError_to_string (Internal s) = ''Internal error: '' @ s"
| "MiniChainError_to_string (RateLimited s) = ''Rate limited: '' @ s"
| "MiniChainError_to_string (TypeMismatch s) = ''Type mismatch: '' @ s"

section \<open>Hotkeys\<close>

datatype Hotkey = Hotkey (hotkey_bytes: bytes)

instantiation Hotkey :: linorder
begin

definition less_eq_Hotkey :: "Hotkey \<Rightarrow> Hotkey \<Rightarrow> bool" where
  "less_eq_Hotkey a b \<longleftrightarrow> hotkey_bytes a \<le> hotkey_bytes b"

definition less_Hotkey :: "Hotkey \<Rightarrow> Hotkey \<Rightarrow> bool" where
  "less_Hotkey a b \<longleftrightarrow> hotkey_bytes a < hotkey_bytes b"

instance
  by standard (auto simp: less_eq_Hotkey_def less_Hotkey_def Hotkey.expand)

end

definition from_bytes :: "bytes \<Rightarrow> Hotkey option" where
  "from_bytes bs = (if length bs = 32 then Some (Hotkey bs) else None)"

definition to_hex :: "platform \<Rightarrow> Hotkey \<Rightarrow> string" where
  "to_hex P h = hex_encode P (hotkey_bytes h)"

definition from_hex :: "platform \<Rightarrow> string \<Rightarrow> Hotkey option" where
  "from_hex P s = Option.bind (hex_decode P s) from_bytes"

definition Hotkey_debug :: "platform \<Rightarrow> Hotkey \<Rightarrow> string" where
  "Hotkey_debug P h = ''Hotkey('' @ take 8 (to_hex P h) @ ''...)''"

type_synonym ChallengeId = nat \<comment> \<open>a UUID, 128 bits\<close>

section \<open>Key pairs and signed messages\<close>

record Keypair =
  pair :: bytes \<comment> \<open>the opaque \<open>sr25519::Pair\<close>\<close>
  mini_seed :: "bytes option"

definition from_seed :: "platform \<Rightarrow> bytes \<Rightarrow> Keypair" where
  "from_seed P s = \<lparr>pair = sr_from_seed P s, mini_seed = Some s\<rparr>"

definition hotkey :: "platform \<Rightarrow> Keypair \<Rightarrow> Hotkey" where
  "hotkey P k = Hotkey (sr_public P (pair k))"

definition seed :: "platform \<Rightarrow> Keypair \<Rightarrow> bytes" where
  "seed P k =
     (case mini_seed k of
        Some s \<Rightarrow> s
      | None \<Rightarrow>
          let raw = sr_to_raw P (pair k)
          in if length raw \<ge> 32 then take 32 raw else replicate 32 0)"

record SignedMessage =
  sm_message :: bytes
  sm_signature :: bytes
  sm_signer :: Hotkey

definition sign :: "platform \<Rightarrow> Keypair \<Rightarrow> bytes \<Rightarrow> SignedMessage" where
  "sign P k message =
     \<lparr>sm_message = message, sm_signature = sr_sign P (pair k) message, sm_signer = hotkey P k\<rparr>"

definition sign_data :: "platform \<Rightarrow> Keypair \<Rightarrow> serde \<Rightarrow> MiniChainError + SignedMessage" where
  "sign_data P k data =
     (case bincode P data of
        Inl e \<Rightarrow> Inl (Serialization e)
      | Inr message \<Rightarrow> Inr (sign P k message))"

definition sign_bytes :: "platform \<Rightarrow> Keypair \<Rightarrow> bytes \<Rightarrow> MiniChainError + bytes" where
  "sign_bytes P k data = Inr (sr_sign P (pair k) data)"

definition verify :: "platform \<Rightarrow> SignedMessage \<Rightarrow> MiniChainError + bool" where
  "verify P m =
     (if length (sm_signature m) \<noteq> 64
      then Inl (Crypto ''Invalid signature length (expected 64 bytes)'')
      else Inr (sr_verify P (sm_signature m) (sm_message m) (hotkey_bytes (sm_signer m))))"

definition hash :: "platform \<Rightarrow> bytes \<Rightarrow> bytes" where
  "hash P data = sha256 P data"

definition hash_hex :: "platform \<Rightarrow> bytes \<Rightarrow> string" where
  "hash_hex P data = hex_encode P (hash P data)"

definition hash_data :: "platform \<Rightarrow> serde \<Rightarrow> MiniChainError + bytes" where
  "hash_data P data =
     (case bincode P data of
        Inl e \<Rightarrow> Inl (Serialization e)
      | Inr bs \<Rightarrow> Inr (hash P bs))"

definition zero_hash :: bytes where
  "zero_hash = replicate 32 0"

section \<open>Production constants\<close>

definition is_version_compatible :: "u32 \<Rightarrow> u32 \<Rightarrow> u32 \<Rightarrow> bool" where
  "is_version_compatible major minor patch = (if major \<noteq> 0 then False else minor \<ge> 1)"

definition SUDO_KEY_BYTES :: bytes where
  "SUDO_KEY_BYTES =
     [0xda, 0x22, 0x04, 0x09, 0x67, 0x8d, 0xf5, 0xf0, 0x60, 0x74, 0xa6, 0x71, 0xab, 0xdc, 0x1f, 0x19,
      0xbc, 0x2b, 0xa1, 0x51, 0x72, 0x9f, 0xdb, 0x9a, 0x8e, 0x4b, 0xe2, 0x84, 0xe6, 0x0c, 0x94, 0x01]"

definition production_sudo_key :: Hotkey where
  "production_sudo_key = Hotkey SUDO_KEY_BYTES"

definition is_production_sudo :: "Hotkey \<Rightarrow> bool" where
  "is_production_sudo h \<longleftrightarrow> hotkey_bytes h = SUDO_KEY_BYTES"

section \<open>Signatures made here verify here\<close>

text \<open>
  The signature check that all components share: \<open>signed_by P h m s\<close> says that
  \<open>SignedMessage::verify\<close> accepts \<open>s\<close> as a signature of \<open>h\<close> on the message \<open>m\<close>.
\<close>

definition signed_by :: "platform \<Rightarrow> Hotkey \<Rightarrow> bytes \<Rightarrow> bytes \<Rightarrow> bool" where
  "signed_by P h m s \<longleftrightarrow>
     verify P \<lparr>sm_message = m, sm_signature = s, sm_signer = h\<rparr> = Inr True"

lemma signed_by_own:
  "signing_correct P \<Longrightarrow> signed_by P (hotkey P k) m (sr_sign P (pair k) m)"
  by (simp add: signed_by_def verify_def signing_correct_def hotkey_def)

lemma signed_by_length: "signed_by P h m s \<Longrightarrow> length s = 64"
  by (auto simp: signed_by_def verify_def split: if_splits)

lemma from_bytes_eq_Some: "from_bytes bs = Some h \<longleftrightarrow> length bs = 32 \<and> h = Hotkey bs"
  by (auto simp: from_bytes_def)

lemma from_hex_to_hex:
  "hex_decode P (hex_encode P (hotkey_bytes h)) = Some (hotkey_bytes h) \<Longrightarrow>
   from_hex P (to_hex P h) = (if length (hotkey_bytes h) = 32 then Some h else None)"
  by (cases h) (simp add: from_hex_def to_hex_def from_bytes_def)

section \<open>A sample platform\<close>

text \<open>
  A concrete choice of the third-party functions that has the documented behaviour, for the
  witnesses: the public key is the secret key, a signature is the key and the message cut to 64
  bytes, and hashing and serialisation are simple byte functions.
\<close>

definition sample_sign :: "bytes \<Rightarrow> bytes \<Rightarrow> bytes" where
  "sample_sign k m = take 64 (k @ m @ replicate 64 0)"

fun sample_encode :: "serde \<Rightarrow> bytes" where
  "sample_encode (SU16 w) = [1, ucast w]"
| "sample_encode (SU64 w) = [2, ucast w]"
| "sample_encode (SUsize n) = [3, of_nat n]"
| "sample_encode (SF64 x) = [4]"
| "sample_encode (SStr s) = 5 # map of_char s"
| "sample_encode (SBytes bs) = 6 # bs"
| "sample_encode SNone = [7]"
| "sample_encode (SSome v) = 8 # sample_encode v"
| "sample_encode (SSeq vs) = 9 # concat (map sample_encode vs)"
| "sample_encode (STuple vs) = concat (map sample_encode vs)"

definition sample_platform :: platform where
  "sample_platform =
     \<lparr>sr_from_seed = (\<lambda>s. s), sr_to_raw = (\<lambda>k. k), sr_public = (\<lambda>k. k), sr_sign = sample_sign,
      sr_verify = (\<lambda>s m p. s = sample_sign p m), sha256 = (\<lambda>bs. take 32 (bs @ replicate 32 0)),
      bincode = (\<lambda>v. Inr (sample_encode v)), hex_encode = map (\<lambda>b. char_of (unat b)),
      hex_decode = (\<lambda>s. Some (map of_char s))\<rparr>"

lemma length_sample_sign: "length (sample_sign k m) = 64"
  unfolding sample_sign_def by simp

lemma sample_platform_correct: "signing_correct sample_platform"
  by (simp add: signing_correct_def sample_platform_def length_sample_sign)

lemmas sample_simps = sample_platform_def sample_sign_def

definition sample_key :: "u8 \<Rightarrow> Keypair" where
  "sample_key i = \<lparr>pair = [i], mini_seed = None\<rparr>"

lemma hotkey_sample_key [simp]: "hotkey sample_platform (sample_key i) = Hotkey [i]"
  by (simp add: hotkey_def sample_platform_def sample_key_def)

end
