(* ===== verification/Validator.thy ===== *)
theory Validator
  imports Core_Types
begin

text \<open>
  Validator management (\<open>p2p-consensus/src/validator.rs\<close>): the validator set with its
  registration, heartbeat and staleness operations, the size of a quorum, leader election by
  round robin over the validators in order of stake, and stake-weighted voting. The clock
  (\<open>chrono::Utc::now\<close>) is the argument \<open>now\<close>; the locks of the code are not modelled, each
  operation is one atomic step.
\<close>

section \<open>Data\<close>

datatype ValidatorError =
    NotFound string
  | InsufficientStake u64 u64 \<comment> \<open>required, actual\<close>
  | InvalidSignature
  | AlreadyRegistered
  | NotAuthorized string

fun ValidatorError_to_string :: "ValidatorError \<Rightarrow> string" where
  "ValidatorError_to_string (ValidatorError.NotFound s) = ''Validator not found: '' @ s"
| "ValidatorError_to_string (InsufficientStake required actual) =
     ''Insufficient stake: required '' @ decimal (unat required) @ '', has '' @ decimal (unat actual)"
| "ValidatorError_to_string ValidatorError.InvalidSignature = ''Invalid signature from validator''"
| "ValidatorError_to_string AlreadyRegistered = ''Validator already registered''"
| "ValidatorError_to_string (NotAuthorized s) = ''Not authorized: '' @ s"

record ValidatorRecord =
  vr_hotkey :: Hotkey
  vr_stake :: u64
  vr_peer_id :: "string option"
  vr_addresses :: "string list"
  vr_last_seen :: i64
  vr_state_hash :: bytes
  vr_last_sequence :: u64
  vr_is_active :: bool
  vr_protocol_version :: string

record ValidatorSet =
  vs_validators :: "(Hotkey, ValidatorRecord) hashmap"
  vs_min_stake :: u64
  vs_local_keypair :: Keypair
  vs_stale_threshold_ms :: i64
  vs_verified_stakes :: "(Hotkey, u64) hashmap"

section \<open>Validator records\<close>

definition ValidatorRecord_new :: "i64 \<Rightarrow> Hotkey \<Rightarrow> u64 \<Rightarrow> ValidatorRecord" where
  "ValidatorRecord_new now h stake =
     \<lparr>vr_hotkey = h, vr_stake = stake, vr_peer_id = None, vr_addresses = [], vr_last_seen = now,
      vr_state_hash = zero_hash, vr_last_sequence = 0, vr_is_active = True,
      vr_protocol_version = ''''\<rparr>"

definition record_update_from_heartbeat ::
  "i64 \<Rightarrow> ValidatorRecord \<Rightarrow> bytes \<Rightarrow> u64 \<Rightarrow> u64 \<Rightarrow> ValidatorRecord" where
  "record_update_from_heartbeat now v state_hash sequence stake =
     v\<lparr>vr_state_hash := state_hash, vr_last_sequence := sequence, vr_stake := stake,
       vr_last_seen := now, vr_is_active := True\<rparr>"

definition is_stale :: "i64 \<Rightarrow> ValidatorRecord \<Rightarrow> i64 \<Rightarrow> bool" where
  "is_stale now v threshold_ms \<longleftrightarrow> now - vr_last_seen v > threshold_ms"

section \<open>The validator set\<close>

definition ValidatorSet_new :: "Keypair \<Rightarrow> u64 \<Rightarrow> ValidatorSet" where
  "ValidatorSet_new k min_stake =
     \<lparr>vs_validators = hm_new, vs_min_stake = min_stake, vs_local_keypair = k,
      vs_stale_threshold_ms = 90000, vs_verified_stakes = hm_new\<rparr>"

definition set_verified_stake :: "ValidatorSet \<Rightarrow> Hotkey \<Rightarrow> u64 \<Rightarrow> ValidatorSet" where
  "set_verified_stake vs h stake =
     vs\<lparr>vs_verified_stakes := hm_insert h stake (vs_verified_stakes vs)\<rparr>"

definition get_verified_stake :: "ValidatorSet \<Rightarrow> Hotkey \<Rightarrow> u64 option" where
  "get_verified_stake vs h = hm_get (vs_verified_stakes vs) h"

definition clear_verified_stakes :: "ValidatorSet \<Rightarrow> ValidatorSet" where
  "clear_verified_stakes vs = vs\<lparr>vs_verified_stakes := hm_new\<rparr>"

definition local_hotkey :: "platform \<Rightarrow> ValidatorSet \<Rightarrow> Hotkey" where
  "local_hotkey P vs = hotkey P (vs_local_keypair vs)"

definition register_validator ::
  "ValidatorSet \<Rightarrow> ValidatorRecord \<Rightarrow> (ValidatorError + unit) \<times> ValidatorSet" where
  "register_validator vs r =
     (if vr_stake r < vs_min_stake vs
      then (Inl (InsufficientStake (vs_min_stake vs) (vr_stake r)), vs)
      else
        (case hm_get (vs_validators vs) (vr_hotkey r) of
           Some existing \<Rightarrow>
             let updated = existing
                   \<lparr>vr_stake := vr_stake r,
                    vr_peer_id := (case vr_peer_id r of None \<Rightarrow> vr_peer_id existing | Some p \<Rightarrow> Some p),
                    vr_addresses := (if vr_addresses r = [] then vr_addresses existing else vr_addresses r),
                    vr_last_seen := vr_last_seen r,
                    vr_is_active := True\<rparr>
             in (Inr (), vs\<lparr>vs_validators := hm_insert (vr_hotkey r) updated (vs_validators vs)\<rparr>)
         | None \<Rightarrow>
             (Inr (), vs\<lparr>vs_validators := hm_insert (vr_hotkey r) r (vs_validators vs)\<rparr>)))"

definition remove_validator :: "ValidatorSet \<Rightarrow> Hotkey \<Rightarrow> ValidatorSet" where
  "remove_validator vs h = vs\<lparr>vs_validators := hm_remove h (vs_validators vs)\<rparr>"

definition get_validator :: "ValidatorSet \<Rightarrow> Hotkey \<Rightarrow> ValidatorRecord option" where
  "get_validator vs h = hm_get (vs_validators vs) h"

definition is_validator :: "ValidatorSet \<Rightarrow> Hotkey \<Rightarrow> bool" where
  "is_validator vs h = hm_contains (vs_validators vs) h"

definition counts_as_active :: "i64 \<Rightarrow> ValidatorSet \<Rightarrow> ValidatorRecord \<Rightarrow> bool" where
  "counts_as_active now vs v \<longleftrightarrow> vr_is_active v \<and> \<not> is_stale now v (vs_stale_threshold_ms vs)"

definition active_validators :: "i64 \<Rightarrow> ValidatorSet \<Rightarrow> ValidatorRecord list" where
  "active_validators now vs = filter (counts_as_active now vs) (hm_values (vs_validators vs))"

definition active_count :: "i64 \<Rightarrow> ValidatorSet \<Rightarrow> usize" where
  "active_count now vs = length (filter (counts_as_active now vs) (hm_values (vs_validators vs)))"

definition total_active_stake :: "i64 \<Rightarrow> ValidatorSet \<Rightarrow> u64" where
  "total_active_stake now vs =
     sum_list (map vr_stake (filter (counts_as_active now vs) (hm_values (vs_validators vs))))"

definition update_from_heartbeat ::
  "platform \<Rightarrow> i64 \<Rightarrow> ValidatorSet \<Rightarrow> Hotkey \<Rightarrow> bytes \<Rightarrow> u64 \<Rightarrow> u64 \<Rightarrow>
   (ValidatorError + unit) \<times> ValidatorSet" where
  "update_from_heartbeat P now vs h state_hash sequence reported_stake =
     (let stake_to_use =
            (case hm_get (vs_verified_stakes vs) h of
               Some verified_stake \<Rightarrow> verified_stake
             | None \<Rightarrow> reported_stake)
      in case hm_get (vs_validators vs) h of
           Some validator \<Rightarrow>
             (Inr (),
              vs\<lparr>vs_validators :=
                   hm_insert h (record_update_from_heartbeat now validator state_hash sequence stake_to_use)
                     (vs_validators vs)\<rparr>)
         | None \<Rightarrow>
             if stake_to_use \<ge> vs_min_stake vs
             then register_validator vs
                    (record_update_from_heartbeat now (ValidatorRecord_new now h stake_to_use)
                       state_hash sequence stake_to_use)
             else (Inl (ValidatorError.NotFound (to_hex P h)), vs))"

definition mark_stale_validators :: "i64 \<Rightarrow> ValidatorSet \<Rightarrow> ValidatorSet" where
  "mark_stale_validators now vs =
     vs\<lparr>vs_validators :=
          hm_values_mut
            (\<lambda>v. if is_stale now v (vs_stale_threshold_ms vs) \<and> vr_is_active v
                  then v\<lparr>vr_is_active := False\<rparr> else v)
            (vs_validators vs)\<rparr>"

text \<open>The comparator of the sort: greater stake first, then the smaller hotkey.\<close>

definition stake_le :: "ValidatorRecord \<Rightarrow> ValidatorRecord \<Rightarrow> bool" where
  "stake_le a b \<longleftrightarrow>
     vr_stake b < vr_stake a \<or> vr_stake a = vr_stake b \<and> vr_hotkey a \<le> vr_hotkey b"

definition validators_by_stake :: "i64 \<Rightarrow> ValidatorSet \<Rightarrow> ValidatorRecord list" where
  "validators_by_stake now vs =
     sort_by stake_le (filter (counts_as_active now vs) (hm_values (vs_validators vs)))"

text \<open>The arithmetic of \<open>fault_tolerance\<close> and \<open>quorum_size\<close>, as functions of the count.\<close>

definition fault_tolerance_of :: "usize \<Rightarrow> usize" where
  "fault_tolerance_of n = (if n = 0 then 0 else (n - 1) div 3)"

definition quorum_size_of :: "usize \<Rightarrow> usize" where
  "quorum_size_of n = 2 * fault_tolerance_of n + 1"

definition fault_tolerance :: "i64 \<Rightarrow> ValidatorSet \<Rightarrow> usize" where
  "fault_tolerance now vs = fault_tolerance_of (active_count now vs)"

definition quorum_size :: "i64 \<Rightarrow> ValidatorSet \<Rightarrow> usize" where
  "quorum_size now vs = quorum_size_of (active_count now vs)"

definition verify_signature ::
  "platform \<Rightarrow> ValidatorSet \<Rightarrow> Hotkey \<Rightarrow> bytes \<Rightarrow> bytes \<Rightarrow> ValidatorError + bool" where
  "verify_signature P vs h message signature =
     (if \<not> is_validator vs h then Inl (ValidatorError.NotFound (to_hex P h))
      else
        (case verify P \<lparr>sm_message = message, sm_signature = signature, sm_signer = h\<rparr> of
           Inr valid \<Rightarrow> Inr valid
         | Inl _ \<Rightarrow> Inl ValidatorError.InvalidSignature))"

section \<open>Leader election\<close>

definition leader_for_view :: "i64 \<Rightarrow> ValidatorSet \<Rightarrow> u64 \<Rightarrow> Hotkey option" where
  "leader_for_view now vs view =
     (let validators = validators_by_stake now vs
      in if validators = [] then None
         else Some (vr_hotkey (validators ! (unat view mod length validators))))"

definition is_leader :: "i64 \<Rightarrow> ValidatorSet \<Rightarrow> Hotkey \<Rightarrow> u64 \<Rightarrow> bool" where
  "is_leader now vs h view =
     (case leader_for_view now vs view of Some leader \<Rightarrow> leader = h | None \<Rightarrow> False)"

definition am_i_leader :: "platform \<Rightarrow> i64 \<Rightarrow> ValidatorSet \<Rightarrow> u64 \<Rightarrow> bool" where
  "am_i_leader P now vs view = is_leader now vs (local_hotkey P vs) view"

definition next_leader_view :: "platform \<Rightarrow> i64 \<Rightarrow> ValidatorSet \<Rightarrow> u64 \<Rightarrow> u64 option" where
  "next_leader_view P now vs current_view =
     (let validators = validators_by_stake now vs
      in case position (\<lambda>v. vr_hotkey v = local_hotkey P vs) validators of
           None \<Rightarrow> None
         | Some our_position \<Rightarrow>
             let validator_count = length validators;
                 current_position = unat current_view mod validator_count
             in if our_position \<ge> current_position
                then Some (current_view + of_nat (our_position - current_position))
                else Some (current_view + of_nat (validator_count - current_position + our_position)))"

section \<open>Stake-weighted voting\<close>

definition voting_power :: "i64 \<Rightarrow> ValidatorSet \<Rightarrow> Hotkey \<Rightarrow> f64" where
  "voting_power now vs h =
     (let total_stake = total_active_stake now vs
      in if total_stake = 0 then 0
         else case get_validator vs h of
                Some v \<Rightarrow> if vr_is_active v then real (unat (vr_stake v)) / real (unat total_stake) else 0
              | None \<Rightarrow> 0)"

definition total_voting_power :: "i64 \<Rightarrow> ValidatorSet \<Rightarrow> Hotkey list \<Rightarrow> f64" where
  "total_voting_power now vs hotkeys =
     (let total_stake = total_active_stake now vs
      in if total_stake = 0 then 0
         else
           let voters_stake =
                 sum_list (map vr_stake (filter vr_is_active (List.map_filter (get_validator vs) hotkeys)))
           in real (unat voters_stake) / real (unat total_stake))"

definition meets_threshold :: "i64 \<Rightarrow> ValidatorSet \<Rightarrow> Hotkey list \<Rightarrow> f64 \<Rightarrow> bool" where
  "meets_threshold now vs voters threshold \<longleftrightarrow> total_voting_power now vs voters \<ge> threshold"

definition meets_quorum :: "i64 \<Rightarrow> ValidatorSet \<Rightarrow> usize \<Rightarrow> bool" where
  "meets_quorum now vs voter_count \<longleftrightarrow> voter_count \<ge> quorum_size now vs"

section \<open>The validator set as a state machine\<close>

datatype vset_event =
    SetVerified Hotkey u64
  | ClearVerified
  | Register ValidatorRecord
  | Remove Hotkey
  | Beat Hotkey bytes u64 u64
  | MarkStale

fun vset_step :: "platform \<Rightarrow> ValidatorSet \<Rightarrow> i64 \<times> vset_event \<Rightarrow> ValidatorSet" where
  "vset_step P vs (now, SetVerified h s) = set_verified_stake vs h s"
| "vset_step P vs (now, ClearVerified) = clear_verified_stakes vs"
| "vset_step P vs (now, Register r) = snd (register_validator vs r)"
| "vset_step P vs (now, Remove h) = remove_validator vs h"
| "vset_step P vs (now, Beat h sh sq st) = snd (update_from_heartbeat P now vs h sh sq st)"
| "vset_step P vs (now, MarkStale) = mark_stale_validators now vs"

text \<open>Every record is stored under its own hotkey.\<close>

definition wf_vset :: "ValidatorSet \<Rightarrow> bool" where
  "wf_vset vs \<longleftrightarrow> (\<forall>(h, v) \<in> set (hm_iter (vs_validators vs)). vr_hotkey v = h)"

section \<open>The order of leaders\<close>

interpretation by_stake: comparator stake_le
  by unfold_locales (auto simp: stake_le_def)

lemmas active_defs = active_validators_def active_count_def total_active_stake_def
  validators_by_stake_def counts_as_active_def

lemma wf_vset_get: "wf_vset vs \<Longrightarrow> hm_get (vs_validators vs) h = Some v \<Longrightarrow> vr_hotkey v = h"
  by (auto simp: wf_vset_def hm_in_iter [symmetric])

lemma wf_vset_iff:
  "wf_vset vs \<longleftrightarrow> (\<forall>h v. hm_get (vs_validators vs) h = Some v \<longrightarrow> vr_hotkey v = h)"
  by (auto simp: wf_vset_def simp flip: hm_in_iter)

lemma wf_vset_hotkeys:
  "wf_vset vs \<Longrightarrow> map vr_hotkey (hm_values (vs_validators vs)) = hm_keys (vs_validators vs)"
  unfolding wf_vset_def hm_values_def hm_keys_def by (auto intro!: map_cong)

lemma wf_vset_distinct:
  "wf_vset vs \<Longrightarrow> distinct (map vr_hotkey (filter P (hm_values (vs_validators vs))))"
  by (metis distinct_map_filter hm_keys_distinct wf_vset_hotkeys)

lemma distinct_hotkey_eq:
  "distinct (map vr_hotkey xs) \<Longrightarrow> a \<in> set xs \<Longrightarrow> b \<in> set xs \<Longrightarrow>
   vr_hotkey a = vr_hotkey b \<Longrightarrow> a = b"
  by (auto simp: distinct_map dest: inj_onD)

lemma length_validators_by_stake: "length (validators_by_stake now vs) = active_count now vs"
  by (simp add: active_defs)

lemma set_validators_by_stake:
  "set (validators_by_stake now vs) = {v \<in> ran (hm_get (vs_validators vs)). counts_as_active now vs v}"
  by (auto simp: validators_by_stake_def set_hm_values)

lemma validators_by_stake_distinct:
  "wf_vset vs \<Longrightarrow> distinct (map vr_hotkey (validators_by_stake now vs))"
  using wf_vset_distinct [of vs "counts_as_active now vs"]
  by (metis mset_map mset_sort_by mset_eq_imp_distinct_iff validators_by_stake_def)

lemma counts_as_active_threshold:
  "vs_stale_threshold_ms vs1 = vs_stale_threshold_ms vs2 \<Longrightarrow>
   counts_as_active now vs1 = counts_as_active now vs2"
  by (simp add: counts_as_active_def fun_eq_iff)

lemma validators_by_stake_cong:
  assumes "wf_vset vs1" "hm_get (vs_validators vs1) = hm_get (vs_validators vs2)"
    and "vs_stale_threshold_ms vs1 = vs_stale_threshold_ms vs2"
  shows "validators_by_stake now vs1 = validators_by_stake now vs2"
  unfolding validators_by_stake_def counts_as_active_threshold [OF assms(3)]
proof (rule by_stake.sort_by_unique)
  show "mset (filter (counts_as_active now vs2) (hm_values (vs_validators vs1))) =
        mset (filter (counts_as_active now vs2) (hm_values (vs_validators vs2)))"
    using mset_hm_values_cong [OF assms(2)] by (simp add: mset_filter)
next
  fix a b
  assume "a \<in> set (filter (counts_as_active now vs2) (hm_values (vs_validators vs1)))"
    and "b \<in> set (filter (counts_as_active now vs2) (hm_values (vs_validators vs1)))"
    and "stake_le a b" "stake_le b a"
  moreover have "vr_hotkey a = vr_hotkey b"
    using \<open>stake_le a b\<close> \<open>stake_le b a\<close> by (auto simp: stake_le_def)
  ultimately show "a = b"
    using wf_vset_distinct [OF assms(1)] by (metis distinct_hotkey_eq)
qed

lemma leader_for_view_eq:
  "leader_for_view now vs view = Some h \<longleftrightarrow>
     0 < active_count now vs \<and>
     vr_hotkey (validators_by_stake now vs ! (unat view mod active_count now vs)) = h"
  by (auto simp: leader_for_view_def Let_def length_validators_by_stake [symmetric])

lemma leader_position:
  assumes "wf_vset vs" "v \<in> set (validators_by_stake now vs)"
  obtains i where "i < active_count now vs"
    and "\<And>view. leader_for_view now vs view = Some (vr_hotkey v) \<longleftrightarrow> unat view mod active_count now vs = i"
proof -
  let ?l = "validators_by_stake now vs"
  obtain i where i: "i < length ?l" "?l ! i = v"
    using assms(2) by (auto simp: in_set_conv_nth)
  have "vr_hotkey (?l ! j) = vr_hotkey v \<longleftrightarrow> j = i" if "j < length ?l" for j
    using that i validators_by_stake_distinct [OF assms(1), of now]
    by (metis length_map nth_eq_iff_index_eq nth_map)
  with i show ?thesis
    by (intro that [of i]) (auto simp: leader_for_view_eq length_validators_by_stake)
qed

lemma mod_window_inj:
  "k < n \<Longrightarrow> l < n \<Longrightarrow> (a + k) mod n = (a + l) mod n \<Longrightarrow> k = (l :: nat)"
proof (induction k l rule: linorder_wlog)
  case (le k l)
  then have "n dvd (a + l) - (a + k)"
    by (metis add_le_cancel_left mod_eq_dvd_iff_nat)
  with le show ?case
    using nat_dvd_not_less [of "l - k" n] by fastforce
qed simp

lemma mod_window_unique:
  fixes a n i :: nat
  assumes "i < n"
  shows "\<exists>!k. k < n \<and> (a + k) mod n = i"
proof (rule ex_ex1I)
  show "\<exists>k. k < n \<and> (a + k) mod n = i"
  proof (intro exI conjI)
    show "(i + (n - a mod n)) mod n < n" using assms by simp
    show "(a + (i + (n - a mod n)) mod n) mod n = i"
    proof -
      have "a mod n \<le> n" using assms by simp
      then have "a mod n + (i + (n - a mod n)) = i + n" by simp
      moreover have "(a + (i + (n - a mod n)) mod n) mod n = (a mod n + (i + (n - a mod n))) mod n"
        by (simp only: mod_add_left_eq mod_add_right_eq)
      ultimately show ?thesis using assms by simp
    qed
  qed
next
  fix k l
  assume "k < n \<and> (a + k) mod n = i" "l < n \<and> (a + l) mod n = i"
  then show "k = l"
    using mod_window_inj by blast
qed

lemma unat_add_of_nat:
  "unat (w :: 'a :: len word) + k < 2 ^ LENGTH('a) \<Longrightarrow> unat (w + of_nat k) = unat w + k"
  by (simp add: unat_word_ariths unat_of_nat mod_simps)

section \<open>Quorum sizes\<close>

lemma quorum_size_of_pos: "0 < quorum_size_of n"
  by (simp add: quorum_size_of_def)

lemma quorum_size_of_le: "0 < n \<Longrightarrow> quorum_size_of n \<le> n"
  by (simp add: quorum_size_of_def fault_tolerance_of_def)

lemma bft_overlap_iff:
  "0 < n \<Longrightarrow> n + fault_tolerance_of n < 2 * quorum_size_of n \<longleftrightarrow> n mod 3 = 1"
  by (simp add: quorum_size_of_def fault_tolerance_of_def) presburger

interpretation pbft: bft_quorum "3 * f + 1" "quorum_size_of (3 * f + 1)" "fault_tolerance_of (3 * f + 1)" for f
  by unfold_locales (simp add: quorum_size_of_def fault_tolerance_of_def)

lemma fault_tolerance_of_3f1 [simp]: "fault_tolerance_of (3 * f + 1) = f"
  by (simp add: fault_tolerance_of_def)

section \<open>Every operation keeps records under their hotkey\<close>

lemma wf_vset_new: "wf_vset (ValidatorSet_new k m)"
  by (simp add: wf_vset_def ValidatorSet_new_def)

lemma wf_register: "wf_vset vs \<Longrightarrow> wf_vset (snd (register_validator vs r))"
  by (auto simp: register_validator_def Let_def lookup_update wf_vset_iff split: option.split)

lemma wf_remove: "wf_vset vs \<Longrightarrow> wf_vset (remove_validator vs h)"
  by (auto simp: remove_validator_def wf_vset_iff)

lemma wf_heartbeat: "wf_vset vs \<Longrightarrow> wf_vset (snd (update_from_heartbeat P now vs h sh sq st))"
proof (cases "hm_get (vs_validators vs) h")
  case None
  assume "wf_vset vs"
  with None show ?thesis
    by (simp add: update_from_heartbeat_def Let_def wf_register)
next
  case (Some v)
  assume "wf_vset vs"
  with Some show ?thesis
    by (auto simp: update_from_heartbeat_def Let_def lookup_update record_update_from_heartbeat_def
        wf_vset_iff)
qed

lemma wf_mark_stale: "wf_vset vs \<Longrightarrow> wf_vset (mark_stale_validators now vs)"
  by (auto simp: mark_stale_validators_def hm_get_values_mut wf_vset_iff)

lemma wf_verified: "wf_vset (set_verified_stake vs h s) = wf_vset vs"
  "wf_vset (clear_verified_stakes vs) = wf_vset vs"
  by (simp_all add: wf_vset_def set_verified_stake_def clear_verified_stakes_def)

interpretation vset: machine "vset_step P" wf_vset for P
proof unfold_locales
  fix vs :: ValidatorSet and e :: "i64 \<times> vset_event"
  assume "wf_vset vs"
  then show "wf_vset (vset_step P vs e)"
    by (cases "(P, vs, e)" rule: vset_step.cases)
      (auto simp: wf_register wf_remove wf_heartbeat wf_mark_stale wf_verified)
qed

lemma wf_vset_register_keys:
  "vr_hotkey r \<noteq> h \<Longrightarrow>
   hm_get (vs_validators (snd (register_validator vs r))) h = hm_get (vs_validators vs) h"
  by (auto simp: register_validator_def Let_def split: option.splits)

section \<open>The next view of a leader\<close>

lemma mod_shift_forward:
  fixes c i n :: nat
  assumes "i < n"
  defines "d \<equiv> (if c mod n \<le> i then i - c mod n else n - c mod n + i)"
  shows "d < n" "(c + d) mod n = i"
proof -
  have "c mod n < n" using assms by simp
  then show "d < n" unfolding d_def using assms(1) by (auto split: if_splits)
  have "(c + d) mod n = (c mod n + d) mod n" by (simp add: mod_simps)
  also have "c mod n + d = (if c mod n \<le> i then i else n + i)"
    unfolding d_def using \<open>c mod n < n\<close> by simp
  also have "\<dots> mod n = i"
    using assms(1) by simp
  finally show "(c + d) mod n = i" .
qed

lemma next_leader_view_eq:
  assumes "wf_vset vs" and "next_leader_view P now vs current = Some w"
    and "unat current + active_count now vs \<le> 2 ^ 64"
  obtains i d where "i < active_count now vs" "d < active_count now vs"
    and "(unat current + d) mod active_count now vs = i" "w = current + of_nat d"
    and "unat w = unat current + d"
    and "\<And>u. leader_for_view now vs u = Some (local_hotkey P vs) \<longleftrightarrow> unat u mod active_count now vs = i"
proof -
  let ?l = "validators_by_stake now vs" and ?n = "active_count now vs"
  obtain i where i: "position (\<lambda>v. vr_hotkey v = local_hotkey P vs) ?l = Some i"
    using assms(2) by (auto simp: next_leader_view_def Let_def split: option.splits)
  then have il: "i < ?n" "vr_hotkey (?l ! i) = local_hotkey P vs"
    by (auto simp: position_eq_Some length_validators_by_stake)
  define d where "d = (if unat current mod ?n \<le> i then i - unat current mod ?n
    else ?n - unat current mod ?n + i)"
  have d: "d < ?n" "(unat current + d) mod ?n = i"
    using mod_shift_forward [OF il(1)] unfolding d_def by blast+
  have w: "w = current + of_nat d"
    using assms(2) i by (auto simp: next_leader_view_def Let_def d_def length_validators_by_stake
        split: if_splits)
  have "vr_hotkey (?l ! j) = local_hotkey P vs \<longleftrightarrow> j = i" if "j < ?n" for j
    using that il validators_by_stake_distinct [OF assms(1), of now]
    by (metis length_map length_validators_by_stake nth_eq_iff_index_eq nth_map)
  then have "leader_for_view now vs u = Some (local_hotkey P vs) \<longleftrightarrow> unat u mod ?n = i" for u
    using il(1) by (auto simp: leader_for_view_eq)
  moreover have "unat w = unat current + d"
    using assms(3) d(1) by (simp add: w unat_add_of_nat)
  ultimately show ?thesis using that il(1) d w by blast
qed

section \<open>Heartbeats and staleness\<close>

definition heartbeat_stake :: "ValidatorSet \<Rightarrow> Hotkey \<Rightarrow> u64 \<Rightarrow> u64" where
  "heartbeat_stake vs h reported =
     (case get_verified_stake vs h of Some s \<Rightarrow> s | None \<Rightarrow> reported)"

lemma register_validator_new:
  "vs_min_stake vs \<le> vr_stake r \<Longrightarrow> hm_get (vs_validators vs) (vr_hotkey r) = None \<Longrightarrow>
   register_validator vs r =
     (Inr (), vs\<lparr>vs_validators := hm_insert (vr_hotkey r) r (vs_validators vs)\<rparr>)"
  by (simp add: register_validator_def)

lemma heartbeat_cases:
  "update_from_heartbeat P now vs h sh sq st =
     (if \<not> is_validator vs h \<and> heartbeat_stake vs h st < vs_min_stake vs
      then (Inl (ValidatorError.NotFound (to_hex P h)), vs)
      else
        (Inr (),
         vs\<lparr>vs_validators := hm_insert h
              (record_update_from_heartbeat now
                 (case get_validator vs h of Some v \<Rightarrow> v
                  | None \<Rightarrow> ValidatorRecord_new now h (heartbeat_stake vs h st))
                 sh sq (heartbeat_stake vs h st))
              (vs_validators vs)\<rparr>))"
  by (auto simp: update_from_heartbeat_def heartbeat_stake_def get_verified_stake_def get_validator_def
      is_validator_def hm_contains_def Let_def register_validator_new record_update_from_heartbeat_def
      ValidatorRecord_new_def split: option.splits)

lemma counts_as_active_mark_stale:
  "counts_as_active now (mark_stale_validators now vs) = counts_as_active now vs"
  by (simp add: counts_as_active_def fun_eq_iff mark_stale_validators_def)

lemma filter_mark_stale:
  "filter (counts_as_active now vs) (hm_values (vs_validators (mark_stale_validators now vs))) =
   filter (counts_as_active now vs) (hm_values (vs_validators vs))"
proof -
  have "filter (counts_as_active now vs)
          (map (\<lambda>v. if is_stale now v (vs_stale_threshold_ms vs) \<and> vr_is_active v
                     then v\<lparr>vr_is_active := False\<rparr> else v) xs) =
        filter (counts_as_active now vs) xs" for xs
    by (induction xs) (auto simp: counts_as_active_def)
  then show ?thesis
    by (simp add: mark_stale_validators_def hm_values_values_mut)
qed

section \<open>Voting power of active validators\<close>

lemma get_active_validator:
  "wf_vset vs \<Longrightarrow> v \<in> set (active_validators now vs) \<Longrightarrow> get_validator vs (vr_hotkey v) = Some v"
  by (auto simp: active_validators_def set_hm_values ran_def get_validator_def dest: wf_vset_get)

lemma voting_power_active:
  "wf_vset vs \<Longrightarrow> total_active_stake now vs \<noteq> 0 \<Longrightarrow> v \<in> set (active_validators now vs) \<Longrightarrow>
   voting_power now vs (vr_hotkey v) = real (unat (vr_stake v)) / real (unat (total_active_stake now vs))"
  by (frule (1) get_active_validator)
    (simp add: voting_power_def active_validators_def counts_as_active_def)

lemma unat_total_active_stake:
  "sum_list (map (unat \<circ> vr_stake) (active_validators now vs)) < 2 ^ 64 \<Longrightarrow>
   unat (total_active_stake now vs) = sum_list (map (unat \<circ> vr_stake) (active_validators now vs))"
  by (simp add: active_validators_def total_active_stake_def unat_sum_list_no_wrap)

section \<open>Properties\<close>

definition sample_vset :: "i64 \<Rightarrow> (u8 \<times> u64) list \<Rightarrow> ValidatorSet" where
  "sample_vset now vs =
     foldl (\<lambda>s (i, stake). snd (register_validator s (ValidatorRecord_new now (Hotkey [i]) stake)))
       (ValidatorSet_new (sample_key 1) 100) vs"

lemmas sample_vset_simps = sample_vset_def register_validator_def ValidatorSet_new_def
  ValidatorRecord_new_def hm_simps hm_get_iter hm_values_def active_defs is_stale_def

text \<open>
  All nodes that hold the same validator records elect the same leader for every view,
  whatever the order in which their hash maps enumerate the records.
\<close>

theorem leader_agreement:
  assumes "wf_vset vs1"
    and "hm_get (vs_validators vs1) = hm_get (vs_validators vs2)"
    and "vs_stale_threshold_ms vs1 = vs_stale_threshold_ms vs2"
  shows "leader_for_view now vs1 view = leader_for_view now vs2 view"
  by (simp add: leader_for_view_def validators_by_stake_cong [OF assms])

theorem leader_agreement_witness:
  "leader_for_view 5 (sample_vset 0 [(1, 100), (2, 200), (3, 200)]) 1 =
   leader_for_view 5 (sample_vset 0 [(3, 200), (2, 200), (1, 100)]) 1 \<and>
   leader_for_view 5 (sample_vset 0 [(1, 100), (2, 200), (3, 200)]) 1 = Some (Hotkey [3])"
proof (rule conjI)
  show "leader_for_view 5 (sample_vset 0 [(1, 100), (2, 200), (3, 200)]) 1 =
        leader_for_view 5 (sample_vset 0 [(3, 200), (2, 200), (1, 100)]) 1"
    by (rule leader_agreement)
      (auto simp: sample_vset_simps wf_vset_def fun_eq_iff)
  show "leader_for_view 5 (sample_vset 0 [(1, 100), (2, 200), (3, 200)]) 1 = Some (Hotkey [3])"
    by (simp add: sample_vset_simps leader_for_view_def sort_by_def stake_le_def less_eq_Hotkey_def)
qed

text \<open>
  C9. Leadership rotates fairly: in any window of as many consecutive views as there are active
  validators (that does not run past the last \<open>u64\<close> view), each active validator is the leader
  exactly once.
\<close>

theorem leader_rotation:
  assumes "wf_vset vs" and "get_validator vs h = Some v" and "counts_as_active now vs v"
    and "unat view + active_count now vs \<le> 2 ^ 64"
  shows "\<exists>!k. k < active_count now vs \<and> leader_for_view now vs (view + of_nat k) = Some h"
proof -
  have "v \<in> set (validators_by_stake now vs)"
    using assms(2,3) by (auto simp: set_validators_by_stake get_validator_def ran_def)
  moreover have "vr_hotkey v = h"
    using assms(1,2) by (auto simp: get_validator_def dest: wf_vset_get)
  ultimately obtain i where i: "i < active_count now vs"
    "\<And>u. leader_for_view now vs u = Some h \<longleftrightarrow> unat u mod active_count now vs = i"
    using leader_position [OF assms(1)] by metis
  have "unat (view + of_nat k) = unat view + k" if "k < active_count now vs" for k
    using that assms(4) by (simp add: unat_add_of_nat)
  then show ?thesis
    using mod_window_unique [OF i(1), of "unat view"] by (metis i(2))
qed

theorem leader_rotation_witness:
  "\<exists>!k. k < active_count 5 (sample_vset 0 [(1, 100), (2, 200)]) \<and>
        leader_for_view 5 (sample_vset 0 [(1, 100), (2, 200)]) (7 + of_nat k) = Some (Hotkey [2])"
  by (rule leader_rotation [where v = "ValidatorRecord_new 0 (Hotkey [2]) 200"])
    (auto simp: sample_vset_simps wf_vset_def get_validator_def)

text \<open>
  \<open>next_leader_view\<close> returns the first view, from the current one on, in which the local
  node is the leader, less than one full rotation away.
\<close>

theorem next_leader_view_first:
  assumes "wf_vset vs" and "next_leader_view P now vs current = Some w"
    and "unat current + active_count now vs \<le> 2 ^ 64"
  shows "am_i_leader P now vs w \<and> current \<le> w \<and> unat w < unat current + active_count now vs \<and>
         (\<forall>u. current \<le> u \<and> u < w \<longrightarrow> \<not> am_i_leader P now vs u)"
proof -
  let ?n = "active_count now vs"
  obtain i d where i: "i < ?n" "d < ?n" "(unat current + d) mod ?n = i"
    and w: "unat w = unat current + d"
    and lead: "\<And>u. leader_for_view now vs u = Some (local_hotkey P vs) \<longleftrightarrow> unat u mod ?n = i"
    using next_leader_view_eq [OF assms] by metis
  have am: "am_i_leader P now vs u \<longleftrightarrow> unat u mod ?n = i" for u
    using lead [of u] by (auto simp: am_i_leader_def is_leader_def split: option.splits)
  have "\<not> am_i_leader P now vs u" if "current \<le> u" "u < w" for u
  proof
    assume "am_i_leader P now vs u"
    define k where "k = unat u - unat current"
    have k: "unat u = unat current + k" "k < d"
      using that w by (auto simp: k_def word_le_nat_alt word_less_nat_alt)
    then have "(unat current + k) mod ?n = (unat current + d) mod ?n"
      using \<open>am_i_leader P now vs u\<close> am i(3) by simp
    with k(2) i(2) mod_window_inj [of k ?n d] show False by simp
  qed
  with am i w show ?thesis by (auto simp: word_le_nat_alt)
qed

theorem next_leader_view_first_witness:
  "next_leader_view sample_platform 5 (sample_vset 0 [(1, 100), (2, 200)]) 2 = Some 3 \<and>
   am_i_leader sample_platform 5 (sample_vset 0 [(1, 100), (2, 200)]) 3"
proof (rule conjI)
  show n: "next_leader_view sample_platform 5 (sample_vset 0 [(1, 100), (2, 200)]) 2 = Some 3"
    by (simp add: sample_vset_simps next_leader_view_def local_hotkey_def sort_by_def stake_le_def
        less_eq_Hotkey_def flip: numeral_2_eq_2)
  show "am_i_leader sample_platform 5 (sample_vset 0 [(1, 100), (2, 200)]) 3"
    by (rule next_leader_view_first [OF _ n, THEN conjunct1])
      (auto simp: sample_vset_simps wf_vset_def)
qed

text \<open>
  A heartbeat never lets a validator choose its stake when a verified stake is known: an
  accepted heartbeat leaves the validator active with the verified stake, or with the reported
  stake only when no verified stake exists, and changes no other validator. A heartbeat is
  refused exactly when the sender is unknown and that stake is below the minimum, and then
  nothing changes.
\<close>

theorem heartbeat_outcome:
  "update_from_heartbeat P now vs h sh sq st = (r, vs') \<Longrightarrow>
   (case r of
      Inl e \<Rightarrow> vs' = vs \<and> \<not> is_validator vs h \<and> heartbeat_stake vs h st < vs_min_stake vs
    | Inr _ \<Rightarrow>
        (is_validator vs h \<or> vs_min_stake vs \<le> heartbeat_stake vs h st) \<and>
        (\<exists>v. get_validator vs' h = Some v \<and> vr_is_active v \<and> vr_last_seen v = now \<and>
             vr_stake v = heartbeat_stake vs h st \<and> vr_state_hash v = sh \<and> vr_last_sequence v = sq) \<and>
        (\<forall>h'. h' \<noteq> h \<longrightarrow> get_validator vs' h' = get_validator vs h'))"
  by (auto simp: heartbeat_cases get_validator_def record_update_from_heartbeat_def lookup_update
      split: if_splits)

theorem heartbeat_outcome_witness:
  "update_from_heartbeat sample_platform 9
     (set_verified_stake (sample_vset 0 [(1, 100)]) (Hotkey [1]) 150) (Hotkey [1]) [] 4 999 =
     (Inr (), snd (update_from_heartbeat sample_platform 9
        (set_verified_stake (sample_vset 0 [(1, 100)]) (Hotkey [1]) 150) (Hotkey [1]) [] 4 999)) \<and>
   heartbeat_stake (set_verified_stake (sample_vset 0 [(1, 100)]) (Hotkey [1]) 150) (Hotkey [1]) 999 = 150 \<and>
   (\<exists>v. get_validator (snd (update_from_heartbeat sample_platform 9
          (set_verified_stake (sample_vset 0 [(1, 100)]) (Hotkey [1]) 150) (Hotkey [1]) [] 4 999))
        (Hotkey [1]) = Some v \<and> vr_stake v = 150)"
proof -
  let ?vs = "set_verified_stake (sample_vset 0 [(1, 100)]) (Hotkey [1]) 150"
  have s: "heartbeat_stake ?vs (Hotkey [1]) 999 = 150"
    by (simp add: heartbeat_stake_def get_verified_stake_def set_verified_stake_def)
  have u: "update_from_heartbeat sample_platform 9 ?vs (Hotkey [1]) [] 4 999 =
      (Inr (), snd (update_from_heartbeat sample_platform 9 ?vs (Hotkey [1]) [] 4 999))"
    by (simp add: heartbeat_cases is_validator_def hm_contains_def set_verified_stake_def
        sample_vset_simps)
  from heartbeat_outcome [OF u] s u show ?thesis by auto
qed

text \<open>
  Marking stale validators inactive changes neither the set of active validators at that
  moment nor, therefore, the leader of any view or the quorum size.
\<close>

theorem mark_stale_neutral:
  "active_validators now (mark_stale_validators now vs) = active_validators now vs \<and>
   leader_for_view now (mark_stale_validators now vs) view = leader_for_view now vs view \<and>
   quorum_size now (mark_stale_validators now vs) = quorum_size now vs"
  by (simp add: active_validators_def active_count_def leader_for_view_def validators_by_stake_def
      quorum_size_def counts_as_active_mark_stale filter_mark_stale)

text \<open>
  Voting power is normalised over the active validators: unless the sum of their stakes
  overflows \<open>u64\<close>, the powers of the active validators add up to one.
\<close>

theorem voting_power_normalised:
  assumes "wf_vset vs" and "total_active_stake now vs \<noteq> 0"
    and "sum_list (map (unat \<circ> vr_stake) (active_validators now vs)) < 2 ^ 64"
  shows "sum_list (map (\<lambda>v. voting_power now vs (vr_hotkey v)) (active_validators now vs)) = 1"
proof -
  let ?A = "active_validators now vs" and ?t = "real (unat (total_active_stake now vs))"
  have "map (\<lambda>v. voting_power now vs (vr_hotkey v)) ?A = map (\<lambda>v. real (unat (vr_stake v)) / ?t) ?A"
    using assms by (simp add: voting_power_active)
  also have "sum_list \<dots> = sum_list (map (\<lambda>v. real (unat (vr_stake v))) ?A) / ?t"
    by (rule sum_list_map_divide)
  also have "\<dots> = ?t / ?t"
    by (simp only: sum_list_map_real unat_total_active_stake [OF assms(3)] comp_def)
  also have "\<dots> = 1"
    using real_unat_pos [OF assms(2)] by (metis divide_self less_irrefl)
  finally show ?thesis .
qed

theorem voting_power_normalised_witness:
  "sum_list (map (\<lambda>v. voting_power 5 (sample_vset 0 [(1, 100), (2, 300)]) (vr_hotkey v))
     (active_validators 5 (sample_vset 0 [(1, 100), (2, 300)]))) = 1"
  by (rule voting_power_normalised) (auto simp: sample_vset_simps wf_vset_def)

text \<open>
  Outside the active set the power is not normalised: \<open>voting_power\<close> only asks for the
  \<open>is_active\<close> flag, while the total leaves stale validators out, so a stale validator whose
  flag is still set can get a power above one.
\<close>

theorem voting_power_above_one:
  "\<exists>vs h. wf_vset vs \<and> total_active_stake 90001 vs = 100 \<and> voting_power 90001 vs h = 3"
proof (intro exI conjI)
  let ?vs = "snd (register_validator (sample_vset 0 [(2, 300)]) (ValidatorRecord_new 90001 (Hotkey [1]) 100))"
  show "wf_vset ?vs" by (auto simp: sample_vset_simps wf_vset_def)
  show "total_active_stake 90001 ?vs = 100" by (simp add: sample_vset_simps)
  show "voting_power 90001 ?vs (Hotkey [2]) = 3"
    by (simp add: voting_power_def get_validator_def sample_vset_simps)
qed



end
