(* ===== verification/Messages.thy ===== *)
theory Messages
  imports Core_Types
begin

text \<open>
  The message types that validators exchange (\<open>p2p-consensus/src/messages.rs\<close>): one record per
  struct and one datatype per enum. The fields of the code keep their names behind a prefix that
  tells the structs apart (\<open>pm_view\<close> is the field \<open>view\<close> of \<open>PrepareMessage\<close>).
\<close>

type_synonym ViewNumber = u64
type_synonym SequenceNumber = u64

section \<open>Consensus messages\<close>

datatype StateChangeType =
    ChallengeSubmission
  | EvaluationResult
  | WeightUpdate
  | ValidatorChange
  | ConfigUpdate
  | EpochTransition

record ProposalContent =
  pc_change_type :: StateChangeType
  pc_data :: bytes
  pc_data_hash :: bytes

record ConsensusProposal =
  cp_view :: ViewNumber
  cp_sequence :: SequenceNumber
  cp_proposal :: ProposalContent
  cp_proposer :: Hotkey
  cp_signature :: bytes
  cp_timestamp :: i64

record PrePrepare =
  pp_view :: ViewNumber
  pp_sequence :: SequenceNumber
  pp_proposal_hash :: bytes
  pp_leader :: Hotkey
  pp_signature :: bytes

record PrepareMessage =
  pm_view :: ViewNumber
  pm_sequence :: SequenceNumber
  pm_proposal_hash :: bytes
  pm_validator :: Hotkey
  pm_signature :: bytes

record CommitMessage =
  cm_view :: ViewNumber
  cm_sequence :: SequenceNumber
  cm_proposal_hash :: bytes
  cm_validator :: Hotkey
  cm_signature :: bytes

record PreparedProof =
  pf_pre_prepare :: PrePrepare
  pf_prepares :: "PrepareMessage list"

record ViewChangeMessage =
  vc_new_view :: ViewNumber
  vc_last_prepared_sequence :: "SequenceNumber option"
  vc_prepared_proof :: "PreparedProof option"
  vc_validator :: Hotkey
  vc_signature :: bytes

record NewViewMessage =
  nv_view :: ViewNumber
  nv_view_changes :: "ViewChangeMessage list"
  nv_leader :: Hotkey
  nv_signature :: bytes

section \<open>State synchronisation\<close>

record MerkleNode =
  mn_sibling_hash :: bytes
  mn_is_left :: bool

record MerkleProof =
  mp_root :: bytes
  mp_path :: "MerkleNode list"

record StateRequest =
  srq_requester :: Hotkey
  srq_current_hash :: bytes
  srq_current_sequence :: SequenceNumber
  srq_timestamp :: i64

record StateResponse =
  srs_responder :: Hotkey
  srs_state_hash :: bytes
  srs_sequence :: SequenceNumber
  srs_state_data :: bytes
  srs_merkle_proof :: "MerkleProof option"
  srs_signature :: bytes

section \<open>Challenge evaluation\<close>

record SubmissionMessage =
  sub_submission_id :: string
  sub_challenge_id :: ChallengeId
  sub_miner :: Hotkey
  sub_agent_hash :: string
  sub_signature :: bytes
  sub_timestamp :: i64

record EvaluationMetrics =
  em_primary_score :: f64
  em_secondary_metrics :: "(string \<times> f64) list"
  em_execution_time_ms :: u64
  em_memory_usage_bytes :: "u64 option"
  em_timed_out :: bool
  em_error :: "string option"

record EvaluationMessage =
  ev_submission_id :: string
  ev_challenge_id :: ChallengeId
  ev_validator :: Hotkey
  ev_score :: f64
  ev_metrics :: EvaluationMetrics
  ev_signature :: bytes
  ev_timestamp :: i64

record WeightVoteMessage =
  wv_epoch :: u64
  wv_netuid :: u16
  wv_validator :: Hotkey
  wv_weights :: "(u16 \<times> u16) list"
  wv_weights_hash :: bytes
  wv_signature :: bytes
  wv_timestamp :: i64

section \<open>Network maintenance\<close>

record HeartbeatMessage =
  hb_validator :: Hotkey
  hb_state_hash :: bytes
  hb_sequence :: SequenceNumber
  hb_stake :: u64
  hb_timestamp :: i64
  hb_signature :: bytes

record PeerAnnounceMessage =
  pa_validator :: Hotkey
  pa_addresses :: "string list"
  pa_peer_id :: string
  pa_protocol_version :: string
  pa_timestamp :: i64
  pa_signature :: bytes

section \<open>The message sum and its signed wrapper\<close>

datatype P2PMessage =
    P2P_Proposal ConsensusProposal
  | P2P_PrePrepare PrePrepare
  | P2P_Prepare PrepareMessage
  | P2P_Commit CommitMessage
  | P2P_ViewChange ViewChangeMessage
  | P2P_NewView NewViewMessage
  | P2P_StateRequest StateRequest
  | P2P_StateResponse StateResponse
  | P2P_Submission SubmissionMessage
  | P2P_Evaluation EvaluationMessage
  | P2P_WeightVote WeightVoteMessage
  | P2P_Heartbeat HeartbeatMessage
  | P2P_PeerAnnounce PeerAnnounceMessage

record SignedP2PMessage =
  sp_message :: P2PMessage
  sp_signer :: Hotkey
  sp_signature :: bytes
  sp_nonce :: u64

section \<open>Signing data of the consensus messages\<close>

text \<open>
  The structs that the engine serialises and signs. Proposals, pre-prepares, prepares and
  commits all sign a struct of three fields, the view, the sequence number and the hash.
\<close>

definition vote_signing_data :: "ViewNumber \<Rightarrow> SequenceNumber \<Rightarrow> bytes \<Rightarrow> serde" where
  "vote_signing_data view sequence proposal_hash =
     STuple [SU64 view, SU64 sequence, SBytes proposal_hash]"

definition view_change_signing_data :: "ViewNumber \<Rightarrow> SequenceNumber option \<Rightarrow> serde" where
  "view_change_signing_data new_view last_prepared_sequence =
     STuple [SU64 new_view,
       (case last_prepared_sequence of None \<Rightarrow> SNone | Some s \<Rightarrow> SSome (SU64 s))]"

definition new_view_signing_data :: "ViewNumber \<Rightarrow> serde" where
  "new_view_signing_data view = STuple [SU64 view]"

end
