(* ===== verification/State.thy ===== *)
theory State
  imports Messages
begin

text \<open>
  The replicated state of the network (\<open>p2p-consensus/src/state.rs\<close>, \<open>ChainState\<close> and
  \<open>StateManager\<close>): validators and challenges, pending and completed evaluations, weight votes
  and their finalisation, epochs, and acceptance of a synchronised state. The clock is the
  argument \<open>now\<close>.
\<close>

section \<open>Data\<close>

datatype StateError =
    HashMismatch string string \<comment> \<open>expected, actual\<close>
  | InvalidMerkleProof
  | SequenceTooOld u64 u64 \<comment> \<open>current, received\<close>
  | StateSerialization string
  | ChallengeNotFound string
  | StateInvalidSignature string

record ValidatorEvaluation =
  ve_score :: f64
  ve_stake :: u64
  ve_timestamp :: i64
  ve_signature :: bytes

record EvaluationRecord =
  er_submission_id :: string
  er_challenge_id :: ChallengeId
  er_miner :: Hotkey
  er_agent_hash :: string
  er_evaluations :: "(Hotkey, ValidatorEvaluation) hashmap"
  er_aggregated_score :: "f64 option"
  er_finalized :: bool
  er_created_at :: i64
  er_finalized_at :: "i64 option"

record ChallengeConfig =
  cc_id :: ChallengeId
  cc_name :: string
  cc_docker_image :: string
  cc_weight :: u16
  cc_is_active :: bool
  cc_creator :: Hotkey
  cc_created_at :: i64

record WeightVotes =
  wvs_epoch :: u64
  wvs_netuid :: u16
  wvs_votes :: "(Hotkey, (u16 \<times> u16) list) hashmap"
  wvs_finalized :: bool
  wvs_final_weights :: "(u16 \<times> u16) list option"

record ChainState =
  cs_sequence :: SequenceNumber
  cs_epoch :: u64
  cs_state_hash :: bytes
  cs_validators :: "(Hotkey, u64) hashmap"
  cs_challenges :: "(ChallengeId, ChallengeConfig) hashmap"
  cs_pending_evaluations :: "(string, EvaluationRecord) hashmap"
  cs_completed_evaluations :: "(u64, EvaluationRecord list) hashmap"
  cs_weight_votes :: "WeightVotes option"
  cs_historical_weights :: "(u64, (u16 \<times> u16) list) hashmap"
  cs_sudo_key :: Hotkey
  cs_netuid :: u16
  cs_last_updated :: i64
  cs_bittensor_block :: u64
  cs_bittensor_block_hash :: bytes

definition ChainState_default :: "i64 \<Rightarrow> ChainState" where
  "ChainState_default now =
     \<lparr>cs_sequence = 0, cs_epoch = 0, cs_state_hash = zero_hash, cs_validators = hm_new,
      cs_challenges = hm_new, cs_pending_evaluations = hm_new, cs_completed_evaluations = hm_new,
      cs_weight_votes = None, cs_historical_weights = hm_new, cs_sudo_key = Hotkey SUDO_KEY_BYTES,
      cs_netuid = 100, cs_last_updated = now, cs_bittensor_block = 0,
      cs_bittensor_block_hash = zero_hash\<rparr>"

section \<open>Hash and sequence\<close>

definition state_hash_input :: "ChainState \<Rightarrow> serde" where
  "state_hash_input s =
     STuple [SU64 (cs_sequence s), SU64 (cs_epoch s), SUsize (hm_len (cs_validators s)),
       SUsize (hm_len (cs_challenges s)), SUsize (hm_len (cs_pending_evaluations s)),
       SU16 (cs_netuid s)]"

definition update_hash :: "platform \<Rightarrow> i64 \<Rightarrow> ChainState \<Rightarrow> ChainState" where
  "update_hash P now s =
     s\<lparr>cs_last_updated := now,
       cs_state_hash := (case hash_data P (state_hash_input s) of Inr h \<Rightarrow> h | Inl _ \<Rightarrow> zero_hash)\<rparr>"

definition ChainState_new :: "platform \<Rightarrow> i64 \<Rightarrow> u16 \<Rightarrow> ChainState" where
  "ChainState_new P now netuid =
     update_hash P now
       ((ChainState_default now)\<lparr>cs_netuid := netuid, cs_sudo_key := Hotkey SUDO_KEY_BYTES\<rparr>)"

definition with_sudo :: "platform \<Rightarrow> i64 \<Rightarrow> Hotkey \<Rightarrow> u16 \<Rightarrow> ChainState" where
  "with_sudo P now sudo_key netuid =
     update_hash P now ((ChainState_default now)\<lparr>cs_netuid := netuid, cs_sudo_key := sudo_key\<rparr>)"

definition increment_sequence :: "platform \<Rightarrow> i64 \<Rightarrow> ChainState \<Rightarrow> ChainState" where
  "increment_sequence P now s = update_hash P now (s\<lparr>cs_sequence := cs_sequence s + 1\<rparr>)"

definition link_to_bittensor_block :: "platform \<Rightarrow> i64 \<Rightarrow> ChainState \<Rightarrow> u64 \<Rightarrow> bytes \<Rightarrow> ChainState" where
  "link_to_bittensor_block P now s block_number block_hash =
     increment_sequence P now
       (s\<lparr>cs_bittensor_block := block_number, cs_bittensor_block_hash := block_hash\<rparr>)"

definition is_sudo :: "ChainState \<Rightarrow> Hotkey \<Rightarrow> bool" where
  "is_sudo s h \<longleftrightarrow> cs_sudo_key s = h"

section \<open>Validators, challenges, evaluations\<close>

definition update_validator :: "platform \<Rightarrow> i64 \<Rightarrow> ChainState \<Rightarrow> Hotkey \<Rightarrow> u64 \<Rightarrow> ChainState" where
  "update_validator P now s h stake =
     increment_sequence P now (s\<lparr>cs_validators := hm_insert h stake (cs_validators s)\<rparr>)"

definition state_remove_validator :: "platform \<Rightarrow> i64 \<Rightarrow> ChainState \<Rightarrow> Hotkey \<Rightarrow> bool \<times> ChainState" where
  "state_remove_validator P now s h =
     (let removed = hm_contains (cs_validators s) h;
          s' = s\<lparr>cs_validators := hm_remove h (cs_validators s)\<rparr>
      in if removed then (True, increment_sequence P now s') else (False, s'))"

definition add_challenge :: "platform \<Rightarrow> i64 \<Rightarrow> ChainState \<Rightarrow> ChallengeConfig \<Rightarrow> ChainState" where
  "add_challenge P now s config =
     increment_sequence P now (s\<lparr>cs_challenges := hm_insert (cc_id config) config (cs_challenges s)\<rparr>)"

definition remove_challenge ::
  "platform \<Rightarrow> i64 \<Rightarrow> ChainState \<Rightarrow> ChallengeId \<Rightarrow> ChallengeConfig option \<times> ChainState" where
  "remove_challenge P now s i =
     (let removed = hm_get (cs_challenges s) i;
          s' = s\<lparr>cs_challenges := hm_remove i (cs_challenges s)\<rparr>
      in if removed \<noteq> None then (removed, increment_sequence P now s') else (removed, s'))"

definition add_evaluation :: "platform \<Rightarrow> i64 \<Rightarrow> ChainState \<Rightarrow> EvaluationRecord \<Rightarrow> ChainState" where
  "add_evaluation P now s r =
     increment_sequence P now
       (s\<lparr>cs_pending_evaluations := hm_insert (er_submission_id r) r (cs_pending_evaluations s)\<rparr>)"

definition add_validator_evaluation ::
  "platform \<Rightarrow> i64 \<Rightarrow> ChainState \<Rightarrow> string \<Rightarrow> Hotkey \<Rightarrow> ValidatorEvaluation \<Rightarrow> bytes \<Rightarrow>
   (StateError + unit) \<times> ChainState" where
  "add_validator_evaluation P now s submission_id validator evaluation signature =
     (case bincode P (STuple [SStr submission_id, SF64 (ve_score evaluation)]) of
        Inl e \<Rightarrow> (Inl (StateSerialization e), s)
      | Inr signing_bytes \<Rightarrow>
          (case verify P \<lparr>sm_message = signing_bytes, sm_signature = signature, sm_signer = validator\<rparr> of
             Inl e \<Rightarrow> (Inl (StateInvalidSignature (MiniChainError_to_string e)), s)
           | Inr is_valid \<Rightarrow>
               if \<not> is_valid then (Inl (StateInvalidSignature (to_hex P validator)), s)
               else
                 (case hm_get (cs_pending_evaluations s) submission_id of
                    Some r \<Rightarrow>
                      let r' = r\<lparr>er_evaluations := hm_insert validator evaluation (er_evaluations r)\<rparr>
                      in (Inr (), update_hash P now
                            (s\<lparr>cs_pending_evaluations :=
                                 hm_insert submission_id r' (cs_pending_evaluations s)\<rparr>))
                  | None \<Rightarrow> (Inl (ChallengeNotFound submission_id), s))))"

text \<open>The loop of \<open>finalize_evaluation\<close>: total stake and weighted sum over the known validators.\<close>

fun evaluation_sums ::
  "(Hotkey, u64) hashmap \<Rightarrow> (Hotkey \<times> ValidatorEvaluation) list \<Rightarrow> u64 \<Rightarrow> f64 \<Rightarrow> u64 \<times> f64" where
  "evaluation_sums validators [] total_stake weighted_sum = (total_stake, weighted_sum)"
| "evaluation_sums validators ((h, e) # rest) total_stake weighted_sum =
     (case hm_get validators h of
        Some stake \<Rightarrow>
          evaluation_sums validators rest (total_stake + stake)
            (weighted_sum + ve_score e * real (unat stake))
      | None \<Rightarrow> evaluation_sums validators rest total_stake weighted_sum)"

definition finalize_evaluation ::
  "platform \<Rightarrow> i64 \<Rightarrow> ChainState \<Rightarrow> string \<Rightarrow> (StateError + f64) \<times> ChainState" where
  "finalize_evaluation P now s submission_id =
     (case hm_get (cs_pending_evaluations s) submission_id of
        Some r \<Rightarrow>
          let (total_stake, weighted_sum) =
                evaluation_sums (cs_validators s) (hm_iter (er_evaluations r)) 0 0
          in if total_stake = 0 then (Inr 0, s)
             else
               let aggregated = weighted_sum / real (unat total_stake);
                   completed = r\<lparr>er_aggregated_score := Some aggregated, er_finalized := True,
                                 er_finalized_at := Some now\<rparr>;
                   previous = (case hm_get (cs_completed_evaluations s) (cs_epoch s) of
                                 Some rs \<Rightarrow> rs | None \<Rightarrow> [])
               in (Inr aggregated,
                   increment_sequence P now
                     (s\<lparr>cs_pending_evaluations := hm_remove submission_id (cs_pending_evaluations s),
                        cs_completed_evaluations :=
                          hm_insert (cs_epoch s) (previous @ [completed]) (cs_completed_evaluations s)\<rparr>))
      | None \<Rightarrow> (Inl (ChallengeNotFound submission_id), s))"

section \<open>Weight votes\<close>

definition weights_serde :: "(u16 \<times> u16) list \<Rightarrow> serde" where
  "weights_serde ws = SSeq (map (\<lambda>(uid, w). STuple [SU16 uid, SU16 w]) ws)"

definition add_weight_vote_verified ::
  "platform \<Rightarrow> i64 \<Rightarrow> ChainState \<Rightarrow> Hotkey \<Rightarrow> (u16 \<times> u16) list \<Rightarrow> u64 \<Rightarrow> bytes \<Rightarrow>
   (StateError + unit) \<times> ChainState" where
  "add_weight_vote_verified P now s validator weights epoch signature =
     (case bincode P (STuple [SU64 epoch, SU16 (cs_netuid s), weights_serde weights]) of
        Inl e \<Rightarrow> (Inl (StateSerialization e), s)
      | Inr signing_bytes \<Rightarrow>
          (case verify P \<lparr>sm_message = signing_bytes, sm_signature = signature, sm_signer = validator\<rparr> of
             Inl e \<Rightarrow> (Inl (StateInvalidSignature (MiniChainError_to_string e)), s)
           | Inr is_valid \<Rightarrow>
               if \<not> is_valid then (Inl (StateInvalidSignature (to_hex P validator)), s)
               else
                 let votes = (case cs_weight_votes s of
                       Some votes \<Rightarrow> votes
                     | None \<Rightarrow> \<lparr>wvs_epoch = epoch, wvs_netuid = cs_netuid s, wvs_votes = hm_new,
                                 wvs_finalized = False, wvs_final_weights = None\<rparr>)
                 in if wvs_epoch votes = epoch \<and> \<not> wvs_finalized votes
                    then (Inr (), update_hash P now
                           (s\<lparr>cs_weight_votes :=
                                Some (votes\<lparr>wvs_votes := hm_insert validator weights (wvs_votes votes)\<rparr>)\<rparr>))
                    else (Inr (), s\<lparr>cs_weight_votes := Some votes\<rparr>)))"

text \<open>The cast \<open>as u16\<close> of an \<open>f64\<close>: towards zero, saturating.\<close>

definition f64_as_u16 :: "f64 \<Rightarrow> u16" where
  "f64_as_u16 x = (if x < 0 then 0 else if x \<ge> 65535 then 65535 else of_nat (nat \<lfloor>x\<rfloor>))"

text \<open>The two nested loops of \<open>finalize_weights\<close>.\<close>

fun add_uid_weights ::
  "u64 \<Rightarrow> (u16 \<times> u16) list \<Rightarrow> (u16, f64) hashmap \<Rightarrow> (u16, f64) hashmap" where
  "add_uid_weights stake [] acc = acc"
| "add_uid_weights stake ((uid, weight) # rest) acc =
     add_uid_weights stake rest
       (hm_insert uid
          ((case hm_get acc uid of Some w \<Rightarrow> w | None \<Rightarrow> 0) + real (unat weight) * real (unat stake)) acc)"

fun weigh_votes ::
  "(Hotkey, u64) hashmap \<Rightarrow> (Hotkey \<times> (u16 \<times> u16) list) list \<Rightarrow> (u16, f64) hashmap \<Rightarrow> u64 \<Rightarrow>
   (u16, f64) hashmap \<times> u64" where
  "weigh_votes validators [] uid_weights total_stake = (uid_weights, total_stake)"
| "weigh_votes validators ((validator, weights) # rest) uid_weights total_stake =
     (let stake = (case hm_get validators validator of Some st \<Rightarrow> st | None \<Rightarrow> 0)
      in if stake = 0 then weigh_votes validators rest uid_weights total_stake
         else weigh_votes validators rest (add_uid_weights stake weights uid_weights) (total_stake + stake))"

definition normalize_uid_weights :: "(u16, f64) hashmap \<Rightarrow> (u16 \<times> u16) list" where
  "normalize_uid_weights uid_weights =
     (let max_weight = foldl max 0 (hm_values uid_weights)
      in if max_weight > 0
         then map (\<lambda>(uid, w). (uid, f64_as_u16 ((w / max_weight) * 65535))) (hm_iter uid_weights)
         else [])"

definition finalize_weights :: "platform \<Rightarrow> i64 \<Rightarrow> ChainState \<Rightarrow> (u16 \<times> u16) list option \<times> ChainState" where
  "finalize_weights P now s =
     (case cs_weight_votes s of
        None \<Rightarrow> (None, s)
      | Some votes \<Rightarrow>
          if wvs_finalized votes then (wvs_final_weights votes, s)
          else
            let (uid_weights, total_stake) =
                  weigh_votes (cs_validators s) (hm_iter (wvs_votes votes)) hm_new 0
            in if total_stake = 0 then (None, s)
               else
                 let final_weights = normalize_uid_weights uid_weights;
                     votes' = votes\<lparr>wvs_final_weights := Some final_weights, wvs_finalized := True\<rparr>
                 in (Some final_weights,
                     increment_sequence P now
                       (s\<lparr>cs_weight_votes := Some votes',
                          cs_historical_weights :=
                            hm_insert (wvs_epoch votes) final_weights (cs_historical_weights s)\<rparr>)))"

definition MAX_HISTORICAL_EPOCHS :: usize where
  "MAX_HISTORICAL_EPOCHS = 100"

definition saturating_sub :: "u64 \<Rightarrow> u64 \<Rightarrow> u64" where
  "saturating_sub a b = (if a < b then 0 else a - b)"

definition next_epoch :: "platform \<Rightarrow> i64 \<Rightarrow> ChainState \<Rightarrow> ChainState" where
  "next_epoch P now s =
     (let epoch' = cs_epoch s + 1;
          history = cs_historical_weights s;
          history' =
            (if hm_len history > MAX_HISTORICAL_EPOCHS
             then let cutoff_epoch = saturating_sub epoch' (of_nat MAX_HISTORICAL_EPOCHS)
                  in hm_retain (\<lambda>epoch _. epoch > cutoff_epoch) history
             else history)
      in increment_sequence P now
           (s\<lparr>cs_epoch := epoch', cs_weight_votes := None, cs_historical_weights := history'\<rparr>))"

definition get_aggregated_weights :: "ChainState \<Rightarrow> u64 \<Rightarrow> (string \<times> f64) list" where
  "get_aggregated_weights s epoch =
     (case hm_get (cs_historical_weights s) epoch of
        Some weights \<Rightarrow>
          map (\<lambda>(uid, weight). (decimal (unat uid), real (unat weight) / 65535)) weights
      | None \<Rightarrow> [])"

section \<open>Synchronisation\<close>

definition apply_sync_state ::
  "platform \<Rightarrow> i64 \<Rightarrow> ChainState \<Rightarrow> ChainState \<Rightarrow> (StateError + unit) \<times> ChainState" where
  "apply_sync_state P now s new_state =
     (if cs_sequence new_state \<le> cs_sequence s
      then (Inl (SequenceTooOld (cs_sequence s) (cs_sequence new_state)), s)
      else
        let verification_state = update_hash P now new_state
        in if cs_state_hash verification_state \<noteq> cs_state_hash new_state
           then (Inl (HashMismatch (hex_encode P (cs_state_hash new_state))
                       (hex_encode P (cs_state_hash verification_state))), s)
           else (Inr (), new_state))"

end
