(* ===== verification/Consensus.thy ===== *)
theory Consensus
  imports Validator State
begin

text \<open>
  The PBFT-style consensus engine (\<open>p2p-consensus/src/consensus.rs\<close>): proposals, the prepare
  and commit rounds, decisions, view changes and timeouts. A handler takes the engine and returns
  its result together with the engine it leaves behind; on an error path the returned engine is
  the one the code leaves behind there, which is not always the one it started from. The locks of
  the code are not modelled: each handler is one atomic step, as when the handlers are called
  from one task. The validator set and the chain state, which the engine shares with other
  components, are fields of the engine.
\<close>

section \<open>Data\<close>

datatype ConsensusError =
    NotLeader ViewNumber
  | InvalidProposal string
  | InvalidSignature string
  | SequenceMismatch u64 u64 \<comment> \<open>expected, actual\<close>
  | ViewMismatch u64 u64 \<comment> \<open>expected, actual\<close>
  | NotEnoughVotes usize usize \<comment> \<open>needed, have\<close>
  | Timeout
  | ViewChangeInProgress
  | AlreadyVoted

datatype ConsensusPhase = Idle | PrePrepare | Prepared | Committed | ViewChange

text \<open>The derived order of the phases follows their declaration.\<close>

primrec phase_index :: "ConsensusPhase \<Rightarrow> nat" where
  "phase_index Idle = 0"
| "phase_index PrePrepare = 1"
| "phase_index Prepared = 2"
| "phase_index Committed = 3"
| "phase_index ViewChange = 4"

instantiation ConsensusPhase :: linorder
begin

definition less_eq_ConsensusPhase :: "ConsensusPhase \<Rightarrow> ConsensusPhase \<Rightarrow> bool" where
  "less_eq_ConsensusPhase a b \<longleftrightarrow> phase_index a \<le> phase_index b"

definition less_ConsensusPhase :: "ConsensusPhase \<Rightarrow> ConsensusPhase \<Rightarrow> bool" where
  "less_ConsensusPhase a b \<longleftrightarrow> phase_index a < phase_index b"

instance
proof
  fix a b :: ConsensusPhase
  show "a \<le> b \<Longrightarrow> b \<le> a \<Longrightarrow> a = b"
    by (cases a; cases b) (simp_all add: less_eq_ConsensusPhase_def)
qed (auto simp: less_eq_ConsensusPhase_def less_ConsensusPhase_def)

end

record ConsensusRound =
  r_view :: ViewNumber
  r_sequence :: SequenceNumber
  r_phase :: ConsensusPhase
  r_proposal :: "ConsensusProposal option"
  r_pre_prepare :: "PrePrepare option"
  r_prepares :: "(Hotkey, PrepareMessage) hashmap"
  r_commits :: "(Hotkey, CommitMessage) hashmap"
  r_proposal_hash :: bytes
  r_local_prepared :: bool
  r_local_committed :: bool
  r_started_at :: i64

definition ConsensusRound_new :: "i64 \<Rightarrow> ViewNumber \<Rightarrow> SequenceNumber \<Rightarrow> ConsensusRound" where
  "ConsensusRound_new now view sequence =
     \<lparr>r_view = view, r_sequence = sequence, r_phase = Idle, r_proposal = None, r_pre_prepare = None,
      r_prepares = hm_new, r_commits = hm_new, r_proposal_hash = zero_hash,
      r_local_prepared = False, r_local_committed = False, r_started_at = now\<rparr>"

record ViewChangeState =
  vcs_new_view :: ViewNumber
  vcs_view_changes :: "(Hotkey, ViewChangeMessage) hashmap"
  vcs_started_at :: i64

record ConsensusDecision =
  d_view :: ViewNumber
  d_sequence :: SequenceNumber
  d_content :: ProposalContent
  d_commit_signatures :: "(Hotkey \<times> bytes) list"

record ConsensusEngine =
  ce_keypair :: Keypair
  ce_validator_set :: ValidatorSet
  ce_state :: ChainState
  ce_current_view :: ViewNumber
  ce_next_sequence :: SequenceNumber
  ce_current_round :: "ConsensusRound option"
  ce_view_change_state :: "ViewChangeState option"
  ce_decisions :: "(SequenceNumber, ConsensusDecision) hashmap"
  ce_round_timeout_ms :: i64
  ce_view_change_timeout_ms :: i64

definition ConsensusEngine_new :: "Keypair \<Rightarrow> ValidatorSet \<Rightarrow> ChainState \<Rightarrow> ConsensusEngine" where
  "ConsensusEngine_new keypair validator_set state_manager =
     \<lparr>ce_keypair = keypair, ce_validator_set = validator_set, ce_state = state_manager,
      ce_current_view = 0, ce_next_sequence = 1, ce_current_round = None,
      ce_view_change_state = None, ce_decisions = hm_new,
      ce_round_timeout_ms = 30000, ce_view_change_timeout_ms = 60000\<rparr>"

type_synonym 'a outcome = "(ConsensusError + 'a) \<times> ConsensusEngine"

abbreviation own_hotkey :: "platform \<Rightarrow> ConsensusEngine \<Rightarrow> Hotkey" where
  "own_hotkey P e \<equiv> hotkey P (ce_keypair e)"

definition engine_quorum_size :: "i64 \<Rightarrow> ConsensusEngine \<Rightarrow> usize" where
  "engine_quorum_size now e = quorum_size now (ce_validator_set e)"

section \<open>Signing and checking\<close>

text \<open>Every message is signed by serialising its signing data and signing the bytes.\<close>

definition sign_serde :: "platform \<Rightarrow> Keypair \<Rightarrow> serde \<Rightarrow> ConsensusError + bytes" where
  "sign_serde P k data =
     (case bincode P data of
        Inl e \<Rightarrow> Inl (InvalidProposal e)
      | Inr signing_bytes \<Rightarrow>
          (case sign_bytes P k signing_bytes of
             Inl e \<Rightarrow> Inl (InvalidProposal (MiniChainError_to_string e))
           | Inr signature \<Rightarrow> Inr signature))"

text \<open>Every incoming vote is checked against the registered validators in the same way.\<close>

definition check_serde ::
  "platform \<Rightarrow> ValidatorSet \<Rightarrow> Hotkey \<Rightarrow> serde \<Rightarrow> bytes \<Rightarrow> ConsensusError + bool" where
  "check_serde P vs h data signature =
     (case bincode P data of
        Inl e \<Rightarrow> Inl (InvalidProposal e)
      | Inr signing_bytes \<Rightarrow>
          (case verify_signature P vs h signing_bytes signature of
             Inl e \<Rightarrow> Inl (InvalidSignature (ValidatorError_to_string e))
           | Inr valid \<Rightarrow> Inr valid))"

section \<open>Proposals\<close>

definition create_proposal ::
  "platform \<Rightarrow> i64 \<Rightarrow> ConsensusEngine \<Rightarrow> StateChangeType \<Rightarrow> bytes \<Rightarrow> ConsensusProposal outcome" where
  "create_proposal P now e change_type data =
     (let view = ce_current_view e
      in if \<not> am_i_leader P now (ce_validator_set e) view then (Inl (NotLeader view), e)
         else if change_type = ConfigUpdate \<and> \<not> is_sudo (ce_state e) (own_hotkey P e)
         then (Inl (InvalidProposal ''ConfigUpdate requires sudo authorization''), e)
         else
           let sequence = ce_next_sequence e;
               data_hash = sha256 P data;
               content = \<lparr>pc_change_type = change_type, pc_data = data, pc_data_hash = data_hash\<rparr>
           in case sign_serde P (ce_keypair e) (vote_signing_data view sequence data_hash) of
                Inl err \<Rightarrow> (Inl err, e)
              | Inr signature \<Rightarrow>
                  let proposal = \<lparr>cp_view = view, cp_sequence = sequence, cp_proposal = content,
                                   cp_proposer = own_hotkey P e, cp_signature = signature,
                                   cp_timestamp = now\<rparr>;
                      rnd = (ConsensusRound_new now view sequence)
                                \<lparr>r_proposal := Some proposal, r_proposal_hash := data_hash,
                                 r_phase := PrePrepare\<rparr>
                  in (Inr proposal, e\<lparr>ce_current_round := Some rnd\<rparr>))"

definition create_prepare ::
  "platform \<Rightarrow> ConsensusEngine \<Rightarrow> ViewNumber \<Rightarrow> SequenceNumber \<Rightarrow> bytes \<Rightarrow> PrepareMessage outcome" where
  "create_prepare P e view sequence proposal_hash =
     (case sign_serde P (ce_keypair e) (vote_signing_data view sequence proposal_hash) of
        Inl err \<Rightarrow> (Inl err, e)
      | Inr signature \<Rightarrow>
          let prepare = \<lparr>pm_view = view, pm_sequence = sequence, pm_proposal_hash = proposal_hash,
                         pm_validator = own_hotkey P e, pm_signature = signature\<rparr>
          in (Inr prepare,
              e\<lparr>ce_current_round :=
                   map_option
                     (\<lambda>rnd. rnd\<lparr>r_local_prepared := True,
                        r_prepares := hm_insert (own_hotkey P e) prepare (r_prepares rnd)\<rparr>)
                     (ce_current_round e)\<rparr>))"

definition handle_proposal ::
  "platform \<Rightarrow> i64 \<Rightarrow> ConsensusEngine \<Rightarrow> ConsensusProposal \<Rightarrow> PrepareMessage outcome" where
  "handle_proposal P now e proposal =
     (let view = ce_current_view e;
          sequence = ce_next_sequence e;
          content = cp_proposal proposal;
          computed_hash = sha256 P (pc_data content)
      in if cp_view proposal \<noteq> view then (Inl (ViewMismatch view (cp_view proposal)), e)
         else if cp_sequence proposal \<noteq> sequence
         then (Inl (SequenceMismatch sequence (cp_sequence proposal)), e)
         else if leader_for_view now (ce_validator_set e) view \<noteq> Some (cp_proposer proposal)
         then (Inl (InvalidProposal
                (''Proposer '' @ Hotkey_debug P (cp_proposer proposal) @ '' is not the leader'')), e)
         else if computed_hash \<noteq> pc_data_hash content
         then (Inl (InvalidProposal ''Data hash mismatch''), e)
         else
           case bincode P (vote_signing_data (cp_view proposal) (cp_sequence proposal) (pc_data_hash content)) of
             Inl err \<Rightarrow> (Inl (InvalidProposal err), e)
           | Inr signing_bytes \<Rightarrow>
               (case verify P \<lparr>sm_message = signing_bytes, sm_signature = cp_signature proposal,
                               sm_signer = cp_proposer proposal\<rparr> of
                  Inl err \<Rightarrow> (Inl (InvalidSignature (MiniChainError_to_string err)), e)
                | Inr is_valid_sig \<Rightarrow>
                    if \<not> is_valid_sig then (Inl (InvalidSignature (to_hex P (cp_proposer proposal))), e)
                    else if pc_change_type content = ConfigUpdate \<and> \<not> is_sudo (ce_state e) (cp_proposer proposal)
                    then (Inl (InvalidProposal ''ConfigUpdate requires sudo authorization''), e)
                    else
                      let rnd = (ConsensusRound_new now view sequence)
                                    \<lparr>r_proposal := Some proposal, r_proposal_hash := computed_hash,
                                     r_phase := PrePrepare\<rparr>
                      in create_prepare P (e\<lparr>ce_current_round := Some rnd\<rparr>) view sequence computed_hash))"

definition create_pre_prepare ::
  "platform \<Rightarrow> i64 \<Rightarrow> ConsensusEngine \<Rightarrow> ViewNumber \<Rightarrow> SequenceNumber \<Rightarrow> bytes \<Rightarrow> PrePrepare outcome" where
  "create_pre_prepare P now e view sequence proposal_hash =
     (if \<not> am_i_leader P now (ce_validator_set e) view then (Inl (NotLeader view), e)
      else
        case sign_serde P (ce_keypair e) (vote_signing_data view sequence proposal_hash) of
          Inl err \<Rightarrow> (Inl err, e)
        | Inr signature \<Rightarrow>
            let pre_prepare = \<lparr>pp_view = view, pp_sequence = sequence, pp_proposal_hash = proposal_hash,
                               pp_leader = own_hotkey P e, pp_signature = signature\<rparr>
            in (Inr pre_prepare,
                e\<lparr>ce_current_round :=
                     map_option (\<lambda>rnd. rnd\<lparr>r_pre_prepare := Some pre_prepare\<rparr>) (ce_current_round e)\<rparr>))"

section \<open>Prepares and commits\<close>

definition create_commit_internal ::
  "platform \<Rightarrow> ConsensusEngine \<Rightarrow> ViewNumber \<Rightarrow> SequenceNumber \<Rightarrow> bytes \<Rightarrow> ConsensusError + CommitMessage" where
  "create_commit_internal P e view sequence proposal_hash =
     (case sign_serde P (ce_keypair e) (vote_signing_data view sequence proposal_hash) of
        Inl err \<Rightarrow> Inl err
      | Inr signature \<Rightarrow>
          Inr \<lparr>cm_view = view, cm_sequence = sequence, cm_proposal_hash = proposal_hash,
               cm_validator = own_hotkey P e, cm_signature = signature\<rparr>)"

definition handle_prepare ::
  "platform \<Rightarrow> i64 \<Rightarrow> ConsensusEngine \<Rightarrow> PrepareMessage \<Rightarrow> CommitMessage option outcome" where
  "handle_prepare P now e prepare =
     (case ce_current_round e of
        None \<Rightarrow> (Inl (InvalidProposal ''No active round''), e)
      | Some rnd \<Rightarrow>
          if pm_view prepare \<noteq> r_view rnd
          then (Inl (ViewMismatch (r_view rnd) (pm_view prepare)), e)
          else if pm_sequence prepare \<noteq> r_sequence rnd
          then (Inl (SequenceMismatch (r_sequence rnd) (pm_sequence prepare)), e)
          else if pm_proposal_hash prepare \<noteq> r_proposal_hash rnd
          then (Inl (InvalidProposal ''Proposal hash mismatch''), e)
          else
            case check_serde P (ce_validator_set e) (pm_validator prepare)
                   (vote_signing_data (pm_view prepare) (pm_sequence prepare) (pm_proposal_hash prepare))
                   (pm_signature prepare) of
              Inl err \<Rightarrow> (Inl err, e)
            | Inr is_valid_sig \<Rightarrow>
                if \<not> is_valid_sig then (Inl (InvalidSignature (to_hex P (pm_validator prepare))), e)
                else if hm_contains (r_prepares rnd) (pm_validator prepare) then (Inl AlreadyVoted, e)
                else
                  let rnd1 = rnd\<lparr>r_prepares := hm_insert (pm_validator prepare) prepare (r_prepares rnd)\<rparr>
                  in if hm_len (r_prepares rnd1) \<ge> engine_quorum_size now e \<and> r_phase rnd1 = PrePrepare
                     then
                       let rnd2 = rnd1\<lparr>r_phase := Prepared, r_local_committed := True\<rparr>
                       in case create_commit_internal P e (r_view rnd2) (r_sequence rnd2)
                                 (r_proposal_hash rnd2) of
                            Inl err \<Rightarrow> (Inl err, e\<lparr>ce_current_round := Some rnd2\<rparr>)
                          | Inr commit \<Rightarrow>
                              (Inr (Some commit),
                               e\<lparr>ce_current_round :=
                                    Some (rnd2\<lparr>r_commits := hm_insert (own_hotkey P e) commit (r_commits rnd2)\<rparr>)\<rparr>)
                     else (Inr None, e\<lparr>ce_current_round := Some rnd1\<rparr>))"

definition handle_commit ::
  "platform \<Rightarrow> i64 \<Rightarrow> ConsensusEngine \<Rightarrow> CommitMessage \<Rightarrow> ConsensusDecision option outcome" where
  "handle_commit P now e commit =
     (case ce_current_round e of
        None \<Rightarrow> (Inl (InvalidProposal ''No active round''), e)
      | Some rnd \<Rightarrow>
          if cm_view commit \<noteq> r_view rnd
          then (Inl (ViewMismatch (r_view rnd) (cm_view commit)), e)
          else if cm_sequence commit \<noteq> r_sequence rnd
          then (Inl (SequenceMismatch (r_sequence rnd) (cm_sequence commit)), e)
          else if cm_proposal_hash commit \<noteq> r_proposal_hash rnd
          then (Inl (InvalidProposal ''Proposal hash mismatch''), e)
          else
            case check_serde P (ce_validator_set e) (cm_validator commit)
                   (vote_signing_data (cm_view commit) (cm_sequence commit) (cm_proposal_hash commit))
                   (cm_signature commit) of
              Inl err \<Rightarrow> (Inl err, e)
            | Inr is_valid_sig \<Rightarrow>
                if \<not> is_valid_sig then (Inl (InvalidSignature (to_hex P (cm_validator commit))), e)
                else if hm_contains (r_commits rnd) (cm_validator commit) then (Inl AlreadyVoted, e)
                else
                  let rnd1 = rnd\<lparr>r_commits := hm_insert (cm_validator commit) commit (r_commits rnd)\<rparr>
                  in if hm_len (r_commits rnd1) \<ge> engine_quorum_size now e \<and> r_phase rnd1 = Prepared
                     then
                       let rnd2 = rnd1\<lparr>r_phase := Committed\<rparr>
                       in case r_proposal rnd2 of
                            None \<Rightarrow> (Inl (InvalidProposal ''No proposal in committed round''),
                                     e\<lparr>ce_current_round := Some rnd2\<rparr>)
                          | Some proposal \<Rightarrow>
                              let decision =
                                    \<lparr>d_view = r_view rnd2, d_sequence = r_sequence rnd2,
                                     d_content = cp_proposal proposal,
                                     d_commit_signatures =
                                       map (\<lambda>(h, c). (h, cm_signature c)) (hm_iter (r_commits rnd2))\<rparr>
                              in (Inr (Some decision),
                                  e\<lparr>ce_decisions := hm_insert (r_sequence rnd2) decision (ce_decisions e),
                                    ce_next_sequence := ce_next_sequence e + 1,
                                    ce_current_round := None\<rparr>)
                     else (Inr None, e\<lparr>ce_current_round := Some rnd1\<rparr>))"

section \<open>View changes\<close>

definition last_prepared :: "ConsensusEngine \<Rightarrow> SequenceNumber option \<times> PreparedProof option" where
  "last_prepared e =
     (case ce_current_round e of
        Some r \<Rightarrow>
          (case r_pre_prepare r of
             Some pre_prepare \<Rightarrow>
               if r_phase r \<ge> Prepared
               then (Some (r_sequence r),
                     Some \<lparr>pf_pre_prepare = pre_prepare, pf_prepares = hm_values (r_prepares r)\<rparr>)
               else (None, None)
           | None \<Rightarrow> (None, None))
      | None \<Rightarrow> (None, None))"

definition initiate_view_change ::
  "platform \<Rightarrow> i64 \<Rightarrow> ConsensusEngine \<Rightarrow> ViewNumber \<Rightarrow> ViewChangeMessage outcome" where
  "initiate_view_change P now e new_view =
     (if new_view \<le> ce_current_view e
      then (Inl (ViewMismatch (ce_current_view e + 1) new_view), e)
      else
        let (last_prepared_sequence, prepared_proof) = last_prepared e
        in case sign_serde P (ce_keypair e) (view_change_signing_data new_view last_prepared_sequence) of
             Inl err \<Rightarrow> (Inl err, e)
           | Inr signature \<Rightarrow>
               let view_change = \<lparr>vc_new_view = new_view,
                                  vc_last_prepared_sequence = last_prepared_sequence,
                                  vc_prepared_proof = prepared_proof,
                                  vc_validator = own_hotkey P e, vc_signature = signature\<rparr>;
                   state = \<lparr>vcs_new_view = new_view,
                            vcs_view_changes = hm_insert (own_hotkey P e) view_change hm_new,
                            vcs_started_at = now\<rparr>
               in (Inr view_change, e\<lparr>ce_view_change_state := Some state\<rparr>))"

text \<open>The loop over the prepares of a prepared proof: the number of valid signatures.\<close>

fun count_valid_prepares ::
  "platform \<Rightarrow> ValidatorSet \<Rightarrow> PrepareMessage list \<Rightarrow> usize \<Rightarrow> ConsensusError + usize" where
  "count_valid_prepares P vs [] valid_prepare_count = Inr valid_prepare_count"
| "count_valid_prepares P vs (prepare # rest) valid_prepare_count =
     (case check_serde P vs (pm_validator prepare)
             (vote_signing_data (pm_view prepare) (pm_sequence prepare) (pm_proposal_hash prepare))
             (pm_signature prepare) of
        Inl err \<Rightarrow> Inl err
      | Inr prepare_valid \<Rightarrow>
          count_valid_prepares P vs rest
            (if prepare_valid then valid_prepare_count + 1 else valid_prepare_count))"

definition check_prepared_proof ::
  "platform \<Rightarrow> i64 \<Rightarrow> ConsensusEngine \<Rightarrow> PreparedProof \<Rightarrow> ConsensusError + unit" where
  "check_prepared_proof P now e proof =
     (let pre_prepare = pf_pre_prepare proof
      in case check_serde P (ce_validator_set e) (pp_leader pre_prepare)
                (vote_signing_data (pp_view pre_prepare) (pp_sequence pre_prepare)
                   (pp_proposal_hash pre_prepare))
                (pp_signature pre_prepare) of
           Inl err \<Rightarrow> Inl err
         | Inr pre_prepare_valid \<Rightarrow>
             if \<not> pre_prepare_valid
             then Inl (InvalidSignature
                    (''Invalid PrePrepare signature from '' @ to_hex P (pp_leader pre_prepare)))
             else
               (case count_valid_prepares P (ce_validator_set e) (pf_prepares proof) 0 of
                  Inl err \<Rightarrow> Inl err
                | Inr valid_prepare_count \<Rightarrow>
                    let quorum = engine_quorum_size now e
                    in if valid_prepare_count < quorum
                       then Inl (NotEnoughVotes quorum valid_prepare_count)
                       else Inr ()))"

definition handle_view_change ::
  "platform \<Rightarrow> i64 \<Rightarrow> ConsensusEngine \<Rightarrow> ViewChangeMessage \<Rightarrow> NewViewMessage option outcome" where
  "handle_view_change P now e view_change =
     (case check_serde P (ce_validator_set e) (vc_validator view_change)
             (view_change_signing_data (vc_new_view view_change) (vc_last_prepared_sequence view_change))
             (vc_signature view_change) of
        Inl err \<Rightarrow> (Inl err, e)
      | Inr is_valid_sig \<Rightarrow>
          if \<not> is_valid_sig then (Inl (InvalidSignature (to_hex P (vc_validator view_change))), e)
          else
            case (case vc_prepared_proof view_change of
                    Some proof \<Rightarrow> check_prepared_proof P now e proof
                  | None \<Rightarrow> Inr ()) of
              Inl err \<Rightarrow> (Inl err, e)
            | Inr _ \<Rightarrow>
                let fresh = \<lparr>vcs_new_view = vc_new_view view_change, vcs_view_changes = hm_new,
                             vcs_started_at = now\<rparr>;
                    state = (case ce_view_change_state e of Some st \<Rightarrow> st | None \<Rightarrow> fresh)
                in if vc_new_view view_change < vcs_new_view state then (Inr None, e)
                   else
                     let state1 = (if vc_new_view view_change > vcs_new_view state then fresh else state);
                         state2 = state1\<lparr>vcs_view_changes :=
                                    hm_insert (vc_validator view_change) view_change
                                      (vcs_view_changes state1)\<rparr>;
                         new_view = vcs_new_view state2;
                         e' = e\<lparr>ce_view_change_state := Some state2\<rparr>
                     in if hm_len (vcs_view_changes state2) \<ge> engine_quorum_size now e
                           \<and> is_leader now (ce_validator_set e) (own_hotkey P e) new_view
                        then
                          case sign_serde P (ce_keypair e) (new_view_signing_data new_view) of
                            Inl err \<Rightarrow> (Inl err, e')
                          | Inr signature \<Rightarrow>
                              (Inr (Some \<lparr>nv_view = new_view,
                                          nv_view_changes = hm_values (vcs_view_changes state2),
                                          nv_leader = own_hotkey P e, nv_signature = signature\<rparr>),
                               e\<lparr>ce_current_view := new_view, ce_view_change_state := None,
                                 ce_current_round := None\<rparr>)
                        else (Inr None, e'))"

text \<open>The loop over the view changes of a new-view message.\<close>

fun check_view_changes ::
  "platform \<Rightarrow> ValidatorSet \<Rightarrow> ViewNumber \<Rightarrow> ViewChangeMessage list \<Rightarrow> ConsensusError + unit" where
  "check_view_changes P vs view [] = Inr ()"
| "check_view_changes P vs view (vc # rest) =
     (if vc_new_view vc \<noteq> view then Inl (ViewMismatch view (vc_new_view vc))
      else
        case check_serde P vs (vc_validator vc)
               (view_change_signing_data (vc_new_view vc) (vc_last_prepared_sequence vc))
               (vc_signature vc) of
          Inl err \<Rightarrow> Inl err
        | Inr is_valid_sig \<Rightarrow>
            if \<not> is_valid_sig then Inl (InvalidSignature (to_hex P (vc_validator vc)))
            else check_view_changes P vs view rest)"

definition handle_new_view ::
  "platform \<Rightarrow> i64 \<Rightarrow> ConsensusEngine \<Rightarrow> NewViewMessage \<Rightarrow> unit outcome" where
  "handle_new_view P now e new_view =
     (if \<not> is_leader now (ce_validator_set e) (nv_leader new_view) (nv_view new_view)
      then (Inl (InvalidProposal
             (Hotkey_debug P (nv_leader new_view) @ '' is not the leader for view '' @
              decimal (unat (nv_view new_view)))), e)
      else
        case check_serde P (ce_validator_set e) (nv_leader new_view)
               (new_view_signing_data (nv_view new_view)) (nv_signature new_view) of
          Inl err \<Rightarrow> (Inl err, e)
        | Inr is_valid_sig \<Rightarrow>
            if \<not> is_valid_sig then (Inl (InvalidSignature (to_hex P (nv_leader new_view))), e)
            else
              let quorum = engine_quorum_size now e
              in if length (nv_view_changes new_view) < quorum
                 then (Inl (NotEnoughVotes quorum (length (nv_view_changes new_view))), e)
                 else
                   case check_view_changes P (ce_validator_set e) (nv_view new_view)
                          (nv_view_changes new_view) of
                     Inl err \<Rightarrow> (Inl err, e)
                   | Inr _ \<Rightarrow>
                       (Inr (), e\<lparr>ce_current_view := nv_view new_view, ce_view_change_state := None,
                                  ce_current_round := None\<rparr>))"

section \<open>Timeouts\<close>

definition check_timeout :: "i64 \<Rightarrow> ConsensusEngine \<Rightarrow> bool" where
  "check_timeout now e =
     (case ce_current_round e of
        Some rnd \<Rightarrow> now - r_started_at rnd > ce_round_timeout_ms e
      | None \<Rightarrow> False)"

definition check_view_change_timeout :: "i64 \<Rightarrow> ConsensusEngine \<Rightarrow> bool" where
  "check_view_change_timeout now e =
     (case ce_view_change_state e of
        Some st \<Rightarrow> now - vcs_started_at st > ce_view_change_timeout_ms e
      | None \<Rightarrow> False)"

definition should_initiate_view_change :: "i64 \<Rightarrow> ConsensusEngine \<Rightarrow> bool" where
  "should_initiate_view_change now e =
     (if check_timeout now e then True else if check_view_change_timeout now e then True else False)"

definition get_decision :: "ConsensusEngine \<Rightarrow> SequenceNumber \<Rightarrow> ConsensusDecision option" where
  "get_decision e sequence = hm_get (ce_decisions e) sequence"

section \<open>The engine as a state machine\<close>

text \<open>
  The calls an engine receives, and the changes that other components make to the validator set
  and the chain state it shares with them.
\<close>

datatype engine_event =
    CreateProposal StateChangeType bytes
  | HandleProposal ConsensusProposal
  | CreatePrePrepare ViewNumber SequenceNumber bytes
  | HandlePrepare PrepareMessage
  | HandleCommit CommitMessage
  | InitiateViewChange ViewNumber
  | HandleViewChange ViewChangeMessage
  | HandleNewView NewViewMessage
  | ValidatorSetChange ValidatorSet
  | StateChange ChainState

fun engine_step :: "platform \<Rightarrow> ConsensusEngine \<Rightarrow> i64 \<times> engine_event \<Rightarrow> ConsensusEngine" where
  "engine_step P e (now, CreateProposal t d) = snd (create_proposal P now e t d)"
| "engine_step P e (now, HandleProposal p) = snd (handle_proposal P now e p)"
| "engine_step P e (now, CreatePrePrepare v s h) = snd (create_pre_prepare P now e v s h)"
| "engine_step P e (now, HandlePrepare m) = snd (handle_prepare P now e m)"
| "engine_step P e (now, HandleCommit m) = snd (handle_commit P now e m)"
| "engine_step P e (now, InitiateViewChange v) = snd (initiate_view_change P now e v)"
| "engine_step P e (now, HandleViewChange m) = snd (handle_view_change P now e m)"
| "engine_step P e (now, HandleNewView m) = snd (handle_new_view P now e m)"
| "engine_step P e (now, ValidatorSetChange vs) = e\<lparr>ce_validator_set := vs\<rparr>"
| "engine_step P e (now, StateChange s) = e\<lparr>ce_state := s\<rparr>"

inductive engine_reachable :: "platform \<Rightarrow> ConsensusEngine \<Rightarrow> bool" for P where
  engine_start: "engine_reachable P (ConsensusEngine_new k vs s)"
| engine_event: "engine_reachable P e \<Longrightarrow> engine_reachable P (engine_step P e ev)"

section \<open>Valid votes and certified decisions\<close>

definition valid_vote ::
  "platform \<Rightarrow> Hotkey \<Rightarrow> ViewNumber \<Rightarrow> SequenceNumber \<Rightarrow> bytes \<Rightarrow> bytes \<Rightarrow> bool" where
  "valid_vote P h view sequence proposal_hash signature \<longleftrightarrow>
     (case bincode P (vote_signing_data view sequence proposal_hash) of
        Inl _ \<Rightarrow> False
      | Inr m \<Rightarrow> signed_by P h m signature)"

text \<open>
  A round as the handlers keep it: it holds the proposal whose data has the hash of the round,
  every prepare and commit is stored under its signer and is a valid vote for the round, and the
  round waits for prepares or for commits.
\<close>

definition wf_round :: "platform \<Rightarrow> ConsensusRound \<Rightarrow> bool" where
  "wf_round P rnd \<longleftrightarrow>
     (case r_proposal rnd of
        None \<Rightarrow> False
      | Some p \<Rightarrow>
          cp_view p = r_view rnd \<and> cp_sequence p = r_sequence rnd \<and>
          pc_data_hash (cp_proposal p) = r_proposal_hash rnd \<and>
          sha256 P (pc_data (cp_proposal p)) = r_proposal_hash rnd) \<and>
     (\<forall>(h, m) \<in> set (hm_iter (r_prepares rnd)).
        pm_validator m = h \<and> pm_view m = r_view rnd \<and> pm_sequence m = r_sequence rnd \<and>
        pm_proposal_hash m = r_proposal_hash rnd \<and>
        valid_vote P h (r_view rnd) (r_sequence rnd) (r_proposal_hash rnd) (pm_signature m)) \<and>
     (\<forall>(h, m) \<in> set (hm_iter (r_commits rnd)).
        cm_validator m = h \<and> cm_view m = r_view rnd \<and> cm_sequence m = r_sequence rnd \<and>
        cm_proposal_hash m = r_proposal_hash rnd \<and>
        valid_vote P h (r_view rnd) (r_sequence rnd) (r_proposal_hash rnd) (cm_signature m)) \<and>
     (r_phase rnd = PrePrepare \<or> r_phase rnd = Prepared)"

text \<open>
  A decision carries a certificate: pairwise different signers, each with a valid vote for the
  view, the sequence number and the hash of the decided data.
\<close>

definition certified :: "platform \<Rightarrow> ConsensusDecision \<Rightarrow> bool" where
  "certified P d \<longleftrightarrow>
     sha256 P (pc_data (d_content d)) = pc_data_hash (d_content d) \<and>
     distinct (map fst (d_commit_signatures d)) \<and>
     (\<forall>(h, s) \<in> set (d_commit_signatures d).
        valid_vote P h (d_view d) (d_sequence d) (pc_data_hash (d_content d)) s)"

definition engine_inv :: "platform \<Rightarrow> ConsensusEngine \<Rightarrow> bool" where
  "engine_inv P e \<longleftrightarrow>
     (case ce_current_round e of
        None \<Rightarrow> True
      | Some rnd \<Rightarrow>
          wf_round P rnd \<and> r_view rnd = ce_current_view e \<and> r_sequence rnd = ce_next_sequence e) \<and>
     (\<forall>(s, d) \<in> set (hm_iter (ce_decisions e)). d_sequence d = s \<and> certified P d)"

lemma wf_roundI:
  assumes "r_proposal rnd = Some p" "cp_view p = r_view rnd" "cp_sequence p = r_sequence rnd"
    and "pc_data_hash (cp_proposal p) = r_proposal_hash rnd"
    and "sha256 P (pc_data (cp_proposal p)) = r_proposal_hash rnd"
    and "\<And>h m. hm_get (r_prepares rnd) h = Some m \<Longrightarrow>
        pm_validator m = h \<and> pm_view m = r_view rnd \<and> pm_sequence m = r_sequence rnd \<and>
        pm_proposal_hash m = r_proposal_hash rnd \<and>
        valid_vote P h (r_view rnd) (r_sequence rnd) (r_proposal_hash rnd) (pm_signature m)"
    and "\<And>h m. hm_get (r_commits rnd) h = Some m \<Longrightarrow>
        cm_validator m = h \<and> cm_view m = r_view rnd \<and> cm_sequence m = r_sequence rnd \<and>
        cm_proposal_hash m = r_proposal_hash rnd \<and>
        valid_vote P h (r_view rnd) (r_sequence rnd) (r_proposal_hash rnd) (cm_signature m)"
    and "r_phase rnd = PrePrepare \<or> r_phase rnd = Prepared"
  shows "wf_round P rnd"
  using assms by (auto simp: wf_round_def hm_in_iter)

lemma wf_roundD:
  assumes "wf_round P rnd"
  shows "\<exists>p. r_proposal rnd = Some p \<and> cp_view p = r_view rnd \<and> cp_sequence p = r_sequence rnd \<and>
          pc_data_hash (cp_proposal p) = r_proposal_hash rnd \<and>
          sha256 P (pc_data (cp_proposal p)) = r_proposal_hash rnd"
    and "hm_get (r_prepares rnd) h = Some m \<Longrightarrow>
        pm_validator m = h \<and> pm_view m = r_view rnd \<and> pm_sequence m = r_sequence rnd \<and>
        pm_proposal_hash m = r_proposal_hash rnd \<and>
        valid_vote P h (r_view rnd) (r_sequence rnd) (r_proposal_hash rnd) (pm_signature m)"
    and "hm_get (r_commits rnd) h = Some c \<Longrightarrow>
        cm_validator c = h \<and> cm_view c = r_view rnd \<and> cm_sequence c = r_sequence rnd \<and>
        cm_proposal_hash c = r_proposal_hash rnd \<and>
        valid_vote P h (r_view rnd) (r_sequence rnd) (r_proposal_hash rnd) (cm_signature c)"
    and "r_phase rnd = PrePrepare \<or> r_phase rnd = Prepared"
  using assms by (auto simp: wf_round_def simp flip: hm_in_iter split: option.splits)

lemma engine_invI:
  assumes "\<And>rnd. ce_current_round e = Some rnd \<Longrightarrow>
      wf_round P rnd \<and> r_view rnd = ce_current_view e \<and> r_sequence rnd = ce_next_sequence e"
    and "\<And>s d. hm_get (ce_decisions e) s = Some d \<Longrightarrow> d_sequence d = s \<and> certified P d"
  shows "engine_inv P e"
  using assms by (auto simp: engine_inv_def hm_in_iter split: option.splits)

lemma engine_invD:
  assumes "engine_inv P e"
  shows "ce_current_round e = Some rnd \<Longrightarrow>
      wf_round P rnd \<and> r_view rnd = ce_current_view e \<and> r_sequence rnd = ce_next_sequence e"
    and "hm_get (ce_decisions e) s = Some d \<Longrightarrow> d_sequence d = s \<and> certified P d"
  using assms by (auto simp: engine_inv_def simp flip: hm_in_iter)

section \<open>What the shared checks establish\<close>

lemma check_serde_True:
  "check_serde P vs h data s = Inr True \<longleftrightarrow>
     is_validator vs h \<and> (\<exists>m. bincode P data = Inr m \<and> signed_by P h m s)"
  by (auto simp: check_serde_def verify_signature_def signed_by_def split: sum.splits if_splits)

lemma check_vote_True:
  "check_serde P vs h (vote_signing_data v s ph) sig = Inr True \<longleftrightarrow>
     is_validator vs h \<and> valid_vote P h v s ph sig"
  by (auto simp: check_serde_True valid_vote_def split: sum.splits)

lemma sign_serde_vote:
  "signing_correct P \<Longrightarrow> sign_serde P k (vote_signing_data v s ph) = Inr sig \<Longrightarrow>
   valid_vote P (hotkey P k) v s ph sig"
  by (auto simp: sign_serde_def sign_bytes_def valid_vote_def signed_by_own split: sum.splits)

section \<open>The outcomes of the handlers\<close>

definition accepts_prepare :: "platform \<Rightarrow> ConsensusEngine \<Rightarrow> ConsensusRound \<Rightarrow> PrepareMessage \<Rightarrow> bool" where
  "accepts_prepare P e rnd m \<longleftrightarrow>
     ce_current_round e = Some rnd \<and> pm_view m = r_view rnd \<and> pm_sequence m = r_sequence rnd \<and>
     pm_proposal_hash m = r_proposal_hash rnd \<and> is_validator (ce_validator_set e) (pm_validator m) \<and>
     valid_vote P (pm_validator m) (r_view rnd) (r_sequence rnd) (r_proposal_hash rnd) (pm_signature m) \<and>
     \<not> hm_contains (r_prepares rnd) (pm_validator m)"

definition accepts_commit :: "platform \<Rightarrow> ConsensusEngine \<Rightarrow> ConsensusRound \<Rightarrow> CommitMessage \<Rightarrow> bool" where
  "accepts_commit P e rnd m \<longleftrightarrow>
     ce_current_round e = Some rnd \<and> cm_view m = r_view rnd \<and> cm_sequence m = r_sequence rnd \<and>
     cm_proposal_hash m = r_proposal_hash rnd \<and> is_validator (ce_validator_set e) (cm_validator m) \<and>
     valid_vote P (cm_validator m) (r_view rnd) (r_sequence rnd) (r_proposal_hash rnd) (cm_signature m) \<and>
     \<not> hm_contains (r_commits rnd) (cm_validator m)"

definition store_prepare :: "PrepareMessage \<Rightarrow> ConsensusRound \<Rightarrow> ConsensusRound" where
  "store_prepare m rnd = rnd\<lparr>r_prepares := hm_insert (pm_validator m) m (r_prepares rnd)\<rparr>"

definition store_commit :: "CommitMessage \<Rightarrow> ConsensusRound \<Rightarrow> ConsensusRound" where
  "store_commit m rnd = rnd\<lparr>r_commits := hm_insert (cm_validator m) m (r_commits rnd)\<rparr>"

definition decision_of :: "ConsensusRound \<Rightarrow> ConsensusProposal \<Rightarrow> ConsensusDecision" where
  "decision_of rnd p =
     \<lparr>d_view = r_view rnd, d_sequence = r_sequence rnd, d_content = cp_proposal p,
      d_commit_signatures = map (\<lambda>(h, c). (h, cm_signature c)) (hm_iter (r_commits rnd))\<rparr>"

lemma handle_prepare_accepted:
  assumes "accepts_prepare P e rnd m"
  shows "handle_prepare P now e m =
    (if Suc (hm_len (r_prepares rnd)) \<ge> engine_quorum_size now e \<and> r_phase rnd = PrePrepare
     then
       let rnd2 = (store_prepare m rnd)\<lparr>r_phase := Prepared, r_local_committed := True\<rparr>
       in case create_commit_internal P e (r_view rnd) (r_sequence rnd) (r_proposal_hash rnd) of
            Inl err \<Rightarrow> (Inl err, e\<lparr>ce_current_round := Some rnd2\<rparr>)
          | Inr c \<Rightarrow> (Inr (Some c), e\<lparr>ce_current_round := Some (store_commit c rnd2)\<rparr>)
     else (Inr None, e\<lparr>ce_current_round := Some (store_prepare m rnd)\<rparr>))"
proof -
  have chk: "check_serde P (ce_validator_set e) (pm_validator m)
      (vote_signing_data (r_view rnd) (r_sequence rnd) (r_proposal_hash rnd)) (pm_signature m) = Inr True"
    using assms by (simp add: accepts_prepare_def check_vote_True)
  show ?thesis
    using assms unfolding accepts_prepare_def
    by (auto simp: handle_prepare_def chk Let_def store_prepare_def store_commit_def hm_len_insert
        create_commit_internal_def split: sum.splits)
qed

lemma handle_prepare_rejected:
  assumes "\<nexists>rnd. accepts_prepare P e rnd m"
  shows "\<exists>err. handle_prepare P now e m = (Inl err, e)"
  using assms
  by (auto simp: handle_prepare_def accepts_prepare_def split: option.splits sum.splits)
    (auto simp: check_vote_True)

lemma handle_commit_accepted:
  assumes "accepts_commit P e rnd m"
  shows "handle_commit P now e m =
    (if Suc (hm_len (r_commits rnd)) \<ge> engine_quorum_size now e \<and> r_phase rnd = Prepared
     then
       case r_proposal rnd of
         None \<Rightarrow> (Inl (InvalidProposal ''No proposal in committed round''),
                  e\<lparr>ce_current_round := Some ((store_commit m rnd)\<lparr>r_phase := Committed\<rparr>)\<rparr>)
       | Some p \<Rightarrow>
           (Inr (Some (decision_of (store_commit m rnd) p)),
            e\<lparr>ce_decisions := hm_insert (r_sequence rnd) (decision_of (store_commit m rnd) p) (ce_decisions e),
              ce_next_sequence := ce_next_sequence e + 1, ce_current_round := None\<rparr>)
     else (Inr None, e\<lparr>ce_current_round := Some (store_commit m rnd)\<rparr>))"
proof -
  have chk: "check_serde P (ce_validator_set e) (cm_validator m)
      (vote_signing_data (r_view rnd) (r_sequence rnd) (r_proposal_hash rnd)) (cm_signature m) = Inr True"
    using assms by (simp add: accepts_commit_def check_vote_True)
  show ?thesis
    using assms unfolding accepts_commit_def
    by (auto simp: handle_commit_def chk Let_def store_commit_def hm_len_insert decision_of_def
        split: option.splits)
qed

lemma handle_commit_rejected:
  assumes "\<nexists>rnd. accepts_commit P e rnd m"
  shows "\<exists>err. handle_commit P now e m = (Inl err, e)"
  using assms
  by (auto simp: handle_commit_def accepts_commit_def split: option.splits sum.splits)
    (auto simp: check_vote_True)

definition accepts_proposal :: "platform \<Rightarrow> i64 \<Rightarrow> ConsensusEngine \<Rightarrow> ConsensusProposal \<Rightarrow> bool" where
  "accepts_proposal P now e p \<longleftrightarrow>
     cp_view p = ce_current_view e \<and> cp_sequence p = ce_next_sequence e \<and>
     leader_for_view now (ce_validator_set e) (cp_view p) = Some (cp_proposer p) \<and>
     sha256 P (pc_data (cp_proposal p)) = pc_data_hash (cp_proposal p) \<and>
     valid_vote P (cp_proposer p) (cp_view p) (cp_sequence p) (pc_data_hash (cp_proposal p)) (cp_signature p) \<and>
     (pc_change_type (cp_proposal p) = ConfigUpdate \<longrightarrow> is_sudo (ce_state e) (cp_proposer p))"

definition opened_round :: "i64 \<Rightarrow> ConsensusProposal \<Rightarrow> ConsensusRound" where
  "opened_round now p =
     (ConsensusRound_new now (cp_view p) (cp_sequence p))
       \<lparr>r_proposal := Some p, r_proposal_hash := pc_data_hash (cp_proposal p), r_phase := PrePrepare\<rparr>"

lemma handle_proposal_accepted:
  "accepts_proposal P now e p \<Longrightarrow>
   handle_proposal P now e p =
     create_prepare P (e\<lparr>ce_current_round := Some (opened_round now p)\<rparr>)
       (cp_view p) (cp_sequence p) (pc_data_hash (cp_proposal p))"
  by (auto simp: handle_proposal_def accepts_proposal_def opened_round_def Let_def valid_vote_def
      signed_by_def split: sum.splits)

lemma handle_proposal_rejected:
  "\<not> accepts_proposal P now e p \<Longrightarrow> \<exists>err. handle_proposal P now e p = (Inl err, e)"
  by (auto simp: handle_proposal_def accepts_proposal_def Let_def valid_vote_def signed_by_def
      split: sum.splits)

section \<open>Every handler keeps the engine invariant\<close>

lemma engine_inv_new: "engine_inv P (ConsensusEngine_new k vs s)"
  by (simp add: engine_inv_def ConsensusEngine_new_def)

lemma wf_round_store_prepare:
  "wf_round P rnd \<Longrightarrow> accepts_prepare P e rnd m \<Longrightarrow> wf_round P (store_prepare m rnd)"
  by (frule wf_roundD(1), elim exE, rule wf_roundI)
    (auto simp: store_prepare_def accepts_prepare_def lookup_update split: if_splits dest: wf_roundD)

lemma wf_round_store_commit:
  assumes "wf_round P rnd" and "cm_view m = r_view rnd" "cm_sequence m = r_sequence rnd"
    and "cm_proposal_hash m = r_proposal_hash rnd"
    and "valid_vote P (cm_validator m) (r_view rnd) (r_sequence rnd) (r_proposal_hash rnd) (cm_signature m)"
  shows "wf_round P (store_commit m rnd)"
  using wf_roundD(1) [OF assms(1)] assms
  by (elim exE, intro wf_roundI) (auto simp: store_commit_def lookup_update split: if_splits dest: wf_roundD)

lemma wf_round_prepared: "wf_round P rnd \<Longrightarrow> wf_round P (rnd\<lparr>r_phase := Prepared, r_local_committed := True\<rparr>)"
  by (simp add: wf_round_def split: option.splits)

lemma engine_inv_same:
  assumes "engine_inv P e" and "ce_decisions e' = ce_decisions e"
    and "ce_current_round e' = None \<or> (ce_current_round e' = ce_current_round e \<and>
      ce_current_view e' = ce_current_view e \<and> ce_next_sequence e' = ce_next_sequence e)"
  shows "engine_inv P e'"
  using assms by (auto simp: engine_inv_def split: option.splits)

lemma engine_inv_round:
  assumes "engine_inv P e" and "wf_round P rnd" "r_view rnd = ce_current_view e"
    and "r_sequence rnd = ce_next_sequence e"
  shows "engine_inv P (e\<lparr>ce_current_round := Some rnd\<rparr>)"
  using assms by (simp add: engine_inv_def)

lemma create_commit_internal_vote:
  assumes "signing_correct P" and "create_commit_internal P e v s ph = Inr c"
  shows "cm_view c = v \<and> cm_sequence c = s \<and> cm_proposal_hash c = ph \<and> cm_validator c = own_hotkey P e \<and>
    valid_vote P (cm_validator c) v s ph (cm_signature c)"
  using assms by (auto simp: create_commit_internal_def split: sum.splits dest: sign_serde_vote)

lemma engine_inv_handle_prepare:
  assumes "signing_correct P" and "engine_inv P e"
  shows "engine_inv P (snd (handle_prepare P now e m))"
proof (cases "\<exists>rnd. accepts_prepare P e rnd m")
  case False
  then show ?thesis using handle_prepare_rejected [of P e m now] assms(2) by force
next
  case True
  then obtain rnd where acc: "accepts_prepare P e rnd m" by blast
  then have rnd: "wf_round P rnd" "r_view rnd = ce_current_view e" "r_sequence rnd = ce_next_sequence e"
    using engine_invD(1) [OF assms(2)] by (auto simp: accepts_prepare_def)
  let ?rnd2 = "(store_prepare m rnd)\<lparr>r_phase := Prepared, r_local_committed := True\<rparr>"
  have same: "r_view (store_prepare m rnd) = r_view rnd" "r_sequence (store_prepare m rnd) = r_sequence rnd"
    "r_proposal_hash (store_prepare m rnd) = r_proposal_hash rnd"
    by (simp_all add: store_prepare_def)
  have wf1: "wf_round P (store_prepare m rnd)" using rnd(1) acc by (rule wf_round_store_prepare)
  then have wf2: "wf_round P ?rnd2" by (rule wf_round_prepared)
  have "wf_round P (store_commit c ?rnd2)"
    if "create_commit_internal P e (r_view rnd) (r_sequence rnd) (r_proposal_hash rnd) = Inr c" for c
    using wf2 create_commit_internal_vote [OF assms(1) that]
    by (intro wf_round_store_commit) (auto simp: same)
  then show ?thesis
    using wf1 wf2 rnd
    by (auto simp: handle_prepare_accepted [OF acc] Let_def same store_commit_def
        intro!: engine_inv_round [OF assms(2)] split: sum.splits)
qed

lemma certified_decision_of:
  assumes "wf_round P rnd" and "r_proposal rnd = Some p"
  shows "certified P (decision_of rnd p)"
  using assms wf_roundD(1) [OF assms(1)]
  by (auto simp: certified_def decision_of_def hm_in_iter comp_def case_prod_beta
      hm_keys_def [symmetric] dest: wf_roundD(3))

lemma engine_inv_handle_commit:
  assumes "engine_inv P e"
  shows "engine_inv P (snd (handle_commit P now e m))"
proof (cases "\<exists>rnd. accepts_commit P e rnd m")
  case False
  then show ?thesis using handle_commit_rejected [of P e m now] assms by force
next
  case True
  then obtain rnd where acc: "accepts_commit P e rnd m" by blast
  then have rnd: "wf_round P rnd" "r_view rnd = ce_current_view e" "r_sequence rnd = ce_next_sequence e"
    using engine_invD(1) [OF assms] by (auto simp: accepts_commit_def)
  have wf: "wf_round P (store_commit m rnd)"
    using acc by (intro wf_round_store_commit [OF rnd(1)]) (auto simp: accepts_commit_def)
  have same: "r_view (store_commit m rnd) = r_view rnd" "r_sequence (store_commit m rnd) = r_sequence rnd"
    "r_proposal (store_commit m rnd) = r_proposal rnd"
    by (simp_all add: store_commit_def)
  obtain p where p: "r_proposal rnd = Some p" using wf_roundD(1) [OF rnd(1)] by blast
  then have cert: "certified P (decision_of (store_commit m rnd) p)"
    using wf by (simp add: certified_decision_of same)
  have "engine_inv P (e\<lparr>ce_decisions := hm_insert (r_sequence rnd) (decision_of (store_commit m rnd) p) (ce_decisions e),
      ce_next_sequence := ce_next_sequence e + 1, ce_current_round := None\<rparr>)"
    using cert by (intro engine_invI)
      (auto simp: lookup_update decision_of_def same split: if_splits dest: engine_invD(2) [OF assms])
  moreover have "engine_inv P (e\<lparr>ce_current_round := Some (store_commit m rnd)\<rparr>)"
    using wf rnd by (intro engine_inv_round [OF assms]) (auto simp: same)
  ultimately show ?thesis by (simp add: handle_commit_accepted [OF acc] p)
qed

lemma wf_round_opened:
  "sha256 P (pc_data (cp_proposal p)) = pc_data_hash (cp_proposal p) \<Longrightarrow> wf_round P (opened_round now p)"
  by (rule wf_roundI [where p = p]) (auto simp: opened_round_def ConsensusRound_new_def)

lemma engine_inv_create_prepare:
  assumes "signing_correct P" and "engine_inv P e"
    and "ce_current_round e = Some rnd" "v = r_view rnd" "s = r_sequence rnd" "ph = r_proposal_hash rnd"
  shows "engine_inv P (snd (create_prepare P e v s ph))"
proof (cases "sign_serde P (ce_keypair e) (vote_signing_data v s ph)")
  case (Inl err)
  then show ?thesis using assms(2) by (simp add: create_prepare_def)
next
  case (Inr sig)
  have rnd: "wf_round P rnd" "r_view rnd = ce_current_view e" "r_sequence rnd = ce_next_sequence e"
    using engine_invD(1) [OF assms(2,3)] by auto
  then have "wf_round P (rnd\<lparr>r_local_prepared := True, r_prepares := hm_insert (own_hotkey P e)
      \<lparr>pm_view = v, pm_sequence = s, pm_proposal_hash = ph, pm_validator = own_hotkey P e,
       pm_signature = sig\<rparr> (r_prepares rnd)\<rparr>)"
    using sign_serde_vote [OF assms(1) Inr] wf_roundD(1) [OF rnd(1)] assms(4-6)
    by (elim exE, intro wf_roundI) (auto simp: lookup_update split: if_splits dest: wf_roundD)
  with Inr rnd show ?thesis
    by (simp add: create_prepare_def assms(3) Let_def engine_inv_round [OF assms(2)])
qed

lemma engine_inv_handle_proposal:
  assumes "signing_correct P" and "engine_inv P e"
  shows "engine_inv P (snd (handle_proposal P now e p))"
proof (cases "accepts_proposal P now e p")
  case False
  then show ?thesis using handle_proposal_rejected [of P now e p] assms(2) by force
next
  case True
  let ?r = "opened_round now p"
  have r: "r_view ?r = cp_view p" "r_sequence ?r = cp_sequence p" "r_proposal_hash ?r = pc_data_hash (cp_proposal p)"
    by (simp_all add: opened_round_def ConsensusRound_new_def)
  have "engine_inv P (e\<lparr>ce_current_round := Some ?r\<rparr>)"
    using True by (intro engine_inv_round [OF assms(2)] wf_round_opened) (auto simp: accepts_proposal_def r)
  then show ?thesis
    by (simp add: handle_proposal_accepted [OF True]) (rule engine_inv_create_prepare [OF assms(1), where rnd = ?r], auto simp: r)
qed

lemma engine_inv_create_proposal:
  assumes "engine_inv P e"
  shows "engine_inv P (snd (create_proposal P now e t d))"
  using assms
  by (auto simp: create_proposal_def Let_def ConsensusRound_new_def split: sum.splits
      intro!: engine_inv_round wf_roundI)

lemma engine_inv_create_pre_prepare:
  assumes "engine_inv P e"
  shows "engine_inv P (snd (create_pre_prepare P now e v s h))"
  using assms
  by (auto simp: create_pre_prepare_def Let_def engine_inv_def wf_round_def split: sum.splits option.splits)

text \<open>The view-change handlers keep the decisions, and keep the round or drop it.\<close>

lemma initiate_view_change_frame:
  "\<exists>st. snd (initiate_view_change P now e v) = e\<lparr>ce_view_change_state := st\<rparr>"
  by (cases "last_prepared e") (auto simp: initiate_view_change_def Let_def split: sum.splits
      intro: exI [of _ "ce_view_change_state e"])

definition collected :: "i64 \<Rightarrow> ConsensusEngine \<Rightarrow> ViewChangeMessage \<Rightarrow> ViewChangeState" where
  "collected now e vc =
     (let fresh = \<lparr>vcs_new_view = vc_new_view vc, vcs_view_changes = hm_new, vcs_started_at = now\<rparr>;
          st = (case ce_view_change_state e of
                  None \<Rightarrow> fresh
                | Some st \<Rightarrow> if vc_new_view vc > vcs_new_view st then fresh else st)
      in st\<lparr>vcs_view_changes := hm_insert (vc_validator vc) vc (vcs_view_changes st)\<rparr>)"

definition accepts_view_change :: "platform \<Rightarrow> i64 \<Rightarrow> ConsensusEngine \<Rightarrow> ViewChangeMessage \<Rightarrow> bool" where
  "accepts_view_change P now e vc \<longleftrightarrow>
     check_serde P (ce_validator_set e) (vc_validator vc)
       (view_change_signing_data (vc_new_view vc) (vc_last_prepared_sequence vc)) (vc_signature vc) = Inr True \<and>
     (case vc_prepared_proof vc of None \<Rightarrow> True | Some proof \<Rightarrow> check_prepared_proof P now e proof = Inr ()) \<and>
     (case ce_view_change_state e of None \<Rightarrow> True | Some st \<Rightarrow> vcs_new_view st \<le> vc_new_view vc)"

lemma handle_view_change_accepted:
  assumes "accepts_view_change P now e vc"
  shows "handle_view_change P now e vc =
    (if engine_quorum_size now e \<le> hm_len (vcs_view_changes (collected now e vc)) \<and>
        is_leader now (ce_validator_set e) (own_hotkey P e) (vc_new_view vc)
     then case sign_serde P (ce_keypair e) (new_view_signing_data (vc_new_view vc)) of
            Inl err \<Rightarrow> (Inl err, e\<lparr>ce_view_change_state := Some (collected now e vc)\<rparr>)
          | Inr signature \<Rightarrow>
              (Inr (Some \<lparr>nv_view = vc_new_view vc, nv_view_changes = hm_values (vcs_view_changes (collected now e vc)),
                          nv_leader = own_hotkey P e, nv_signature = signature\<rparr>),
               e\<lparr>ce_current_view := vc_new_view vc, ce_view_change_state := None, ce_current_round := None\<rparr>)
     else (Inr None, e\<lparr>ce_view_change_state := Some (collected now e vc)\<rparr>))"
proof -
  have chk: "check_serde P (ce_validator_set e) (vc_validator vc)
      (view_change_signing_data (vc_new_view vc) (vc_last_prepared_sequence vc)) (vc_signature vc) = Inr True"
    using assms by (simp add: accepts_view_change_def)
  have pok: "(case vc_prepared_proof vc of Some proof \<Rightarrow> check_prepared_proof P now e proof | None \<Rightarrow> Inr ()) = Inr ()"
    using assms by (auto simp: accepts_view_change_def split: option.splits)
  consider "ce_view_change_state e = None"
    | st where "ce_view_change_state e = Some st" "vcs_new_view st < vc_new_view vc"
        "\<not> vc_new_view vc < vcs_new_view st"
    | st where "ce_view_change_state e = Some st" "vcs_new_view st = vc_new_view vc"
    using assms by (cases "ce_view_change_state e") (auto simp: accepts_view_change_def order_le_less)
  then show ?thesis
    by cases (simp_all add: handle_view_change_def collected_def chk pok Let_def split: sum.split)
qed

lemma not_Inr_unit: "x \<noteq> Inr () \<longleftrightarrow> (\<exists>err. x = Inl err)"
  by (cases x) auto

lemma handle_view_change_ignored:
  assumes "\<not> accepts_view_change P now e vc"
  shows "handle_view_change P now e vc = (Inr None, e) \<or> (\<exists>err. handle_view_change P now e vc = (Inl err, e))"
proof -
  let ?pok = "case vc_prepared_proof vc of Some proof \<Rightarrow> check_prepared_proof P now e proof | None \<Rightarrow> Inr ()"
  consider "check_serde P (ce_validator_set e) (vc_validator vc)
      (view_change_signing_data (vc_new_view vc) (vc_last_prepared_sequence vc)) (vc_signature vc) \<noteq> Inr True"
    | err where "?pok = Inl err"
    | st where "ce_view_change_state e = Some st" "vc_new_view vc < vcs_new_view st"
    using assms by (auto simp: accepts_view_change_def not_le not_Inr_unit split: option.splits)
  then show ?thesis
    by cases (auto simp: handle_view_change_def Let_def split: sum.splits)
qed

lemma handle_view_change_frame:
  "(\<exists>st. snd (handle_view_change P now e vc) = e\<lparr>ce_view_change_state := st\<rparr>) \<or>
   (\<exists>v. snd (handle_view_change P now e vc) =
      e\<lparr>ce_current_view := v, ce_view_change_state := None, ce_current_round := None\<rparr>)"
proof (cases "accepts_view_change P now e vc")
  case True
  show ?thesis unfolding handle_view_change_accepted [OF True] by (auto split: sum.splits)
next
  case False
  then have "snd (handle_view_change P now e vc) = e\<lparr>ce_view_change_state := ce_view_change_state e\<rparr>"
    using handle_view_change_ignored [OF False] by auto
  then show ?thesis by blast
qed

lemma handle_new_view_frame:
  "snd (handle_new_view P now e nv) = e \<or> snd (handle_new_view P now e nv) =
     e\<lparr>ce_current_view := nv_view nv, ce_view_change_state := None, ce_current_round := None\<rparr>"
  by (auto simp: handle_new_view_def Let_def split: sum.splits)

lemma engine_inv_view_changes:
  assumes "engine_inv P e"
  shows "engine_inv P (snd (initiate_view_change P now e v))"
    and "engine_inv P (snd (handle_view_change P now e vc))"
    and "engine_inv P (snd (handle_new_view P now e nv))"
  using initiate_view_change_frame [of P now e v] handle_view_change_frame [of P now e vc]
    handle_new_view_frame [of P now e nv]
  by (auto intro!: engine_inv_same [OF assms] simp: assms)

lemmas engine_inv_handlers = engine_inv_handle_prepare engine_inv_handle_commit
  engine_inv_handle_proposal engine_inv_create_proposal engine_inv_create_pre_prepare
  engine_inv_view_changes

interpretation engine: machine "engine_step P" "\<lambda>e. signing_correct P \<longrightarrow> engine_inv P e" for P
proof (unfold_locales, intro impI)
  fix e ev
  assume "signing_correct P \<longrightarrow> engine_inv P e" and P: "signing_correct P"
  then have "engine_inv P e" by simp
  with P show "engine_inv P (engine_step P e ev)"
    by (cases "(P, e, ev)" rule: engine_step.cases)
      (auto simp: engine_inv_handlers intro: engine_inv_same)
qed

lemma engine_reachable_inv: "engine_reachable P e \<Longrightarrow> signing_correct P \<longrightarrow> engine_inv P e"
  by (induction rule: engine_reachable.induct) (use engine_inv_new engine.step_inv in blast)+

end
