(* ===== verification/Consensus_Sample.thy ===== *)
theory Consensus_Sample
  imports Consensus
begin

text \<open>
  A concrete network of four validators on the sample platform, and runs of one of its engines. The
  properties of the consensus engine are applied to it.
\<close>

section \<open>A sample network\<close>

text \<open>
  Four validators with the keys 1 to 4, the first of which leads view 0. The theorems below are
  applied to what the first validator receives.
\<close>

definition sample_vote :: "u8 \<Rightarrow> u64 \<Rightarrow> u64 \<Rightarrow> bytes \<Rightarrow> bytes" where
  "sample_vote i v s ph = sample_sign [i] (sample_encode (vote_signing_data v s ph))"

definition sample_prepare :: "u8 \<Rightarrow> bytes \<Rightarrow> PrepareMessage" where
  "sample_prepare i ph =
     \<lparr>pm_view = 0, pm_sequence = 1, pm_proposal_hash = ph, pm_validator = Hotkey [i],
      pm_signature = sample_vote i 0 1 ph\<rparr>"

definition sample_commit :: "u8 \<Rightarrow> bytes \<Rightarrow> CommitMessage" where
  "sample_commit i ph =
     \<lparr>cm_view = 0, cm_sequence = 1, cm_proposal_hash = ph, cm_validator = Hotkey [i],
      cm_signature = sample_vote i 0 1 ph\<rparr>"

definition sample_engine :: ConsensusEngine where
  "sample_engine = ConsensusEngine_new (sample_key 1)
     (sample_vset 0 [(1, 900), (2, 200), (3, 200), (4, 200)]) (ChainState_default 0)"

definition sample_run :: "bytes \<Rightarrow> (i64 \<times> engine_event) list" where
  "sample_run d =
     (let ph = sha256 sample_platform d
      in [(1, CreateProposal ValidatorChange d), (2, HandlePrepare (sample_prepare 2 ph)),
          (3, HandlePrepare (sample_prepare 3 ph)), (3, HandlePrepare (sample_prepare 4 ph)),
          (4, HandleCommit (sample_commit 2 ph))])"

definition sample_state :: "bytes \<Rightarrow> ConsensusEngine" where
  "sample_state d = foldl (engine_step sample_platform) sample_engine (sample_run d)"

definition sample_last :: "bytes \<Rightarrow> CommitMessage" where
  "sample_last d = sample_commit 3 (sha256 sample_platform d)"

definition sample_decision :: "bytes \<Rightarrow> ConsensusDecision" where
  "sample_decision d =
     (let ph = sha256 sample_platform d
      in \<lparr>d_view = 0, d_sequence = 1,
          d_content = \<lparr>pc_change_type = ValidatorChange, pc_data = d, pc_data_hash = ph\<rparr>,
          d_commit_signatures = map (\<lambda>i. (Hotkey [i], sample_vote i 0 1 ph)) [1, 2, 3]\<rparr>)"

definition sample_decided :: ConsensusEngine where
  "sample_decided = engine_step sample_platform (sample_state [7]) (5, HandleCommit (sample_last [7]))"

definition sample_opened :: ConsensusEngine where
  "sample_opened = engine_step sample_platform sample_engine (1, CreateProposal ValidatorChange [7])"

definition stall_run :: "(i64 \<times> engine_event) list" where
  "stall_run =
     (let ph = sha256 sample_platform [7]
      in (1, CreateProposal ValidatorChange [7]) #
         map (\<lambda>i. (2, HandleCommit (sample_commit i ph))) [2, 3, 4] @
         map (\<lambda>i. (3, HandlePrepare (sample_prepare i ph))) [2, 3, 4])"

definition stalled :: ConsensusEngine where
  "stalled = foldl (engine_step sample_platform) sample_engine stall_run"

definition sample_view_change :: "u8 \<Rightarrow> u64 \<Rightarrow> ViewChangeMessage" where
  "sample_view_change i v =
     \<lparr>vc_new_view = v, vc_last_prepared_sequence = None, vc_prepared_proof = None, vc_validator = Hotkey [i],
      vc_signature = sample_sign [i] (sample_encode (view_change_signing_data v None))\<rparr>"

definition sample_new_view :: "u8 \<Rightarrow> u8 list \<Rightarrow> u64 \<Rightarrow> NewViewMessage" where
  "sample_new_view leader is v =
     \<lparr>nv_view = v, nv_view_changes = map (\<lambda>i. sample_view_change i v) is, nv_leader = Hotkey [leader],
      nv_signature = sample_sign [leader] (sample_encode (new_view_signing_data v))\<rparr>"

definition in_view_7 :: ConsensusEngine where
  "in_view_7 = engine_step sample_platform sample_engine (2, HandleNewView (sample_new_view 4 [1, 2, 3] 7))"

definition sample_engine2 :: ConsensusEngine where
  "sample_engine2 = ConsensusEngine_new (sample_key 2)
     (sample_vset 0 [(1, 900), (2, 200), (3, 200), (4, 200)]) (ChainState_default 0)"

definition sample_changing :: ConsensusEngine where
  "sample_changing = foldl (engine_step sample_platform) sample_engine
     [(2, HandleViewChange (sample_view_change 2 4)), (2, HandleViewChange (sample_view_change 3 4))]"

lemma engine_reachable_run:
  "engine_reachable P e \<Longrightarrow> engine_reachable P (foldl (engine_step P) e es)"
  by (induction es arbitrary: e) (auto intro: engine_event)

lemma sample_reachable: "engine_reachable sample_platform (sample_state d)"
  unfolding sample_state_def sample_engine_def by (intro engine_reachable_run engine_start)

lemma sample_decides:
  "fst (handle_commit sample_platform 5 (sample_state [7]) (sample_last [7])) = Inr (Some (sample_decision [7]))"
  "fst (handle_commit sample_platform 5 (sample_state [8]) (sample_last [8])) = Inr (Some (sample_decision [8]))"
  by code_simp+

end
