(* ===== verification/Consensus_Safety.thy ===== *)
theory Consensus_Safety
  imports Consensus_Sample
begin

text \<open>
  What the consensus engine of \<^verbatim>\<open>consensus.rs\<close> guarantees: the log of decisions has no gap and no
  entry of it is ever replaced, a decision carries a certificate of distinct valid votes, two
  conflicting certificates expose more than a third of the validators, and the places where the
  handlers leave more freedom than practical Byzantine fault tolerance allows.
\<close>

section \<open>The log of decisions\<close>

text \<open>
  The engine decides the sequences 1, 2, 3, ... without a gap, for as long as the 64-bit counter has
  not wrapped around.
\<close>

definition log_inv :: "ConsensusEngine \<Rightarrow> bool" where
  "log_inv e \<longleftrightarrow>
     (case ce_current_round e of None \<Rightarrow> True | Some rnd \<Rightarrow> r_sequence rnd = ce_next_sequence e) \<and>
     (hm_len (ce_decisions e) < 2 ^ 64 - 1 \<longrightarrow>
        unat (ce_next_sequence e) = Suc (hm_len (ce_decisions e)) \<and>
        (\<forall>s. hm_contains (ce_decisions e) s \<longleftrightarrow> 1 \<le> s \<and> s < ce_next_sequence e))"

text \<open>
  What one call may do to the log: nothing, or append a decision at the sequence of the current round.
\<close>

definition log_frame :: "ConsensusEngine \<Rightarrow> ConsensusEngine \<Rightarrow> bool" where
  "log_frame e e' \<longleftrightarrow>
     (ce_decisions e' = ce_decisions e \<and> ce_next_sequence e' = ce_next_sequence e \<and>
      (\<forall>rnd'. ce_current_round e' = Some rnd' \<longrightarrow> r_sequence rnd' = ce_next_sequence e \<or>
        (\<exists>rnd. ce_current_round e = Some rnd \<and> r_sequence rnd = r_sequence rnd'))) \<or>
     (\<exists>rnd d. ce_current_round e = Some rnd \<and> ce_current_round e' = None \<and>
        ce_decisions e' = hm_insert (r_sequence rnd) d (ce_decisions e) \<and>
        ce_next_sequence e' = ce_next_sequence e + 1)"

lemma log_frame_keep:
  assumes "ce_decisions e' = ce_decisions e" and "ce_next_sequence e' = ce_next_sequence e"
    and "\<And>rnd'. ce_current_round e' = Some rnd' \<Longrightarrow> r_sequence rnd' = ce_next_sequence e \<or>
        (\<exists>rnd. ce_current_round e = Some rnd \<and> r_sequence rnd = r_sequence rnd')"
  shows "log_frame e e'"
  using assms by (simp add: log_frame_def)

lemma log_frame_append:
  assumes "ce_current_round e = Some rnd" and "ce_current_round e' = None"
    and "ce_decisions e' = hm_insert (r_sequence rnd) d (ce_decisions e)"
    and "ce_next_sequence e' = ce_next_sequence e + 1"
  shows "log_frame e e'"
  using assms unfolding log_frame_def by blast

lemma log_frame_update_round:
  "ce_current_round e = Some rnd \<Longrightarrow> r_sequence rnd' = r_sequence rnd \<Longrightarrow>
   log_frame e (e\<lparr>ce_current_round := Some rnd'\<rparr>)"
  by (rule log_frame_keep) auto

lemma log_frame_refl [simp]: "log_frame e e"
  by (rule log_frame_keep) auto

lemma create_prepare_round:
  assumes "ce_current_round e = Some rnd"
  shows "\<exists>rnd'. snd (create_prepare P e v s ph) = e\<lparr>ce_current_round := Some rnd'\<rparr> \<and>
    r_sequence rnd' = r_sequence rnd"
proof (cases "sign_serde P (ce_keypair e) (vote_signing_data v s ph)")
  case (Inl err)
  have "e = e\<lparr>ce_current_round := Some rnd\<rparr>" using assms by simp
  with Inl show ?thesis by (auto simp: create_prepare_def)
next
  case (Inr sig)
  then show ?thesis by (simp add: create_prepare_def assms Let_def) (rule exI, rule conjI, rule refl, simp)
qed

lemma log_frame_handle_proposal: "log_frame e (snd (handle_proposal P now e p))"
proof (cases "accepts_proposal P now e p")
  case True
  let ?e = "e\<lparr>ce_current_round := Some (opened_round now p)\<rparr>"
  have "r_sequence (opened_round now p) = ce_next_sequence e"
    using True by (simp add: accepts_proposal_def opened_round_def ConsensusRound_new_def)
  with create_prepare_round [of ?e "opened_round now p" P "cp_view p" "cp_sequence p" "pc_data_hash (cp_proposal p)"]
  show ?thesis unfolding handle_proposal_accepted [OF True] by (auto intro!: log_frame_keep)
next
  case False
  then show ?thesis using handle_proposal_rejected [of P now e p] by force
qed

lemma log_frame_handle_prepare: "log_frame e (snd (handle_prepare P now e m))"
proof (cases "\<exists>rnd. accepts_prepare P e rnd m")
  case True
  then obtain rnd where acc: "accepts_prepare P e rnd m" by blast
  then have "ce_current_round e = Some rnd" by (simp add: accepts_prepare_def)
  then show ?thesis unfolding handle_prepare_accepted [OF acc] Let_def
    by (intro log_frame_keep) (auto simp: store_prepare_def store_commit_def split: sum.splits if_splits)
next
  case False
  then show ?thesis using handle_prepare_rejected [of P e m now] by force
qed

lemma log_frame_handle_commit: "log_frame e (snd (handle_commit P now e m))"
proof (cases "\<exists>rnd. accepts_commit P e rnd m")
  case True
  then obtain rnd where acc: "accepts_commit P e rnd m" by blast
  then have rnd: "ce_current_round e = Some rnd" by (simp add: accepts_commit_def)
  show ?thesis unfolding handle_commit_accepted [OF acc]
    by (auto simp: store_commit_def rnd split: option.splits
        intro: log_frame_append [OF rnd] log_frame_update_round [OF rnd])
next
  case False
  then show ?thesis using handle_commit_rejected [of P e m now] by force
qed

lemma log_frame_create_proposal: "log_frame e (snd (create_proposal P now e t d))"
  by (rule log_frame_keep)
    (auto simp: create_proposal_def ConsensusRound_new_def Let_def split: sum.splits if_splits)

lemma log_frame_create_pre_prepare: "log_frame e (snd (create_pre_prepare P now e v s h))"
  by (rule log_frame_keep)
    (auto simp: create_pre_prepare_def Let_def split: sum.splits option.splits if_splits)

lemma log_frame_view_changes:
  "log_frame e (snd (initiate_view_change P now e v))"
  "log_frame e (snd (handle_view_change P now e vc))"
  "log_frame e (snd (handle_new_view P now e nv))"
  using initiate_view_change_frame [of P now e v] handle_view_change_frame [of P now e vc]
    handle_new_view_frame [of P now e nv]
  by (auto intro!: log_frame_keep)

lemma log_frame_step: "log_frame e (engine_step P e ev)"
  by (cases "(P, e, ev)" rule: engine_step.cases)
    (auto simp: log_frame_view_changes log_frame_handle_commit log_frame_handle_prepare
      log_frame_handle_proposal log_frame_create_proposal log_frame_create_pre_prepare
      intro!: log_frame_keep)

lemma log_inv_frame:
  assumes "log_inv e" and "log_frame e e'"
  shows "log_inv e' \<and> hm_len (ce_decisions e) \<le> hm_len (ce_decisions e') \<and>
    (hm_len (ce_decisions e') < 2 ^ 64 - 1 \<longrightarrow>
       (\<forall>s d. hm_get (ce_decisions e) s = Some d \<longrightarrow> hm_get (ce_decisions e') s = Some d))"
  using assms(2) unfolding log_frame_def
proof (elim disjE exE conjE)
  fix rnd d
  let ?n = "ce_next_sequence e"
  assume rnd: "ce_current_round e = Some rnd" "ce_current_round e' = None"
    and dec: "ce_decisions e' = hm_insert (r_sequence rnd) d (ce_decisions e)"
    and nxt: "ce_next_sequence e' = ?n + 1"
  have rs: "r_sequence rnd = ?n" using assms(1) rnd(1) by (simp add: log_inv_def)
  have len: "hm_len (ce_decisions e') = (if hm_contains (ce_decisions e) ?n then hm_len (ce_decisions e)
      else Suc (hm_len (ce_decisions e)))"
    unfolding dec rs by (simp add: hm_len_insert)
  have fresh: "\<not> hm_contains (ce_decisions e) ?n" and n: "unat ?n = Suc (hm_len (ce_decisions e))"
    and dom: "hm_contains (ce_decisions e) s \<longleftrightarrow> 1 \<le> s \<and> s < ?n"
    if "hm_len (ce_decisions e) < 2 ^ 64 - 1" for s
    using assms(1) that unfolding log_inv_def by blast+
  have old: "hm_len (ce_decisions e) < 2 ^ 64 - 1" if "hm_len (ce_decisions e') < 2 ^ 64 - 1"
    using that len by (simp split: if_splits)
  have "unat (?n + 1) = Suc (Suc (hm_len (ce_decisions e)))" and "?n \<noteq> - 1"
    if "hm_len (ce_decisions e') < 2 ^ 64 - 1"
  proof -
    have "Suc (hm_len (ce_decisions e)) < 2 ^ 64 - 1"
      using that len fresh [OF old [OF that]] by simp
    then show "?n \<noteq> - 1" using n [OF old [OF that]] by (auto simp: unsigned_minus_1_eq_mask mask_eq_exp_minus_1)
    then show "unat (?n + 1) = Suc (Suc (hm_len (ce_decisions e)))"
      using n [OF old [OF that]] by (simp add: unat_inc_no_wrap)
  qed
  note inc = this
  have dom': "hm_contains (ce_decisions e') s \<longleftrightarrow> 1 \<le> s \<and> s < ?n + 1"
    if "hm_len (ce_decisions e') < 2 ^ 64 - 1" for s
  proof -
    have "0 < unat ?n" using n [OF old [OF that]] by simp
    then have "1 \<le> ?n" by (simp add: word_le_nat_alt)
    then show ?thesis
      unfolding dec rs word_less_Suc_iff [OF inc(2) [OF that]] using dom [OF old [OF that], of s]
      by (auto simp: hm_contains_def lookup_update order_le_less)
  qed
  have len': "hm_len (ce_decisions e') = Suc (hm_len (ce_decisions e))"
    if "hm_len (ce_decisions e') < 2 ^ 64 - 1"
    using len fresh [OF old [OF that]] by simp
  show ?thesis
  proof (intro conjI impI allI)
    show "log_inv e'"
      unfolding log_inv_def nxt rnd(2) using inc(1) len' dom' by simp
    show "hm_len (ce_decisions e) \<le> hm_len (ce_decisions e')" using len by simp
  next
    fix s d'
    assume "hm_len (ce_decisions e') < 2 ^ 64 - 1" and get: "hm_get (ce_decisions e) s = Some d'"
    then have "\<not> hm_contains (ce_decisions e) ?n" using fresh old by blast
    with get have "s \<noteq> ?n" by (auto simp: hm_contains_def)
    with get show "hm_get (ce_decisions e') s = Some d'" by (simp add: dec rs lookup_update)
  qed
qed (use assms(1) in \<open>auto simp: log_inv_def split: option.splits\<close>)

interpretation log: ranked_machine "engine_step P" log_inv "\<lambda>e. hm_len (ce_decisions e)" for P
  using log_inv_frame [OF _ log_frame_step] by unfold_locales blast+

lemma log_inv_reachable: "engine_reachable P e \<Longrightarrow> log_inv e"
proof (induction rule: engine_reachable.induct)
  case (engine_start k vs s)
  show ?case by (simp add: log_inv_def ConsensusEngine_new_def hm_len_def hm_contains_def
        word_less_nat_alt word_le_nat_alt)
next
  case (engine_event e ev)
  then show ?case by (simp add: log.step_inv)
qed

lemma run_keeps_decision:
  assumes "log_inv e" and "hm_get (ce_decisions e) s = Some d"
    and "hm_len (ce_decisions (foldl (engine_step P) e es)) < 2 ^ 64 - 1"
  shows "hm_get (ce_decisions (foldl (engine_step P) e es)) s = Some d"
  using assms
proof (induction es arbitrary: e)
  case (Cons ev es)
  let ?e = "engine_step P e ev"
  have step: "log_inv ?e" using Cons.prems(1) by (rule log.step_inv)
  have "hm_len (ce_decisions ?e) < 2 ^ 64 - 1"
    using log.run_rank [OF step, of P es] Cons.prems(3) by (simp only: foldl_Cons)
  then have "hm_get (ce_decisions ?e) s = Some d"
    using log_inv_frame [OF Cons.prems(1) log_frame_step] Cons.prems(2) by blast
  then show ?case using Cons.IH [OF step] Cons.prems(3) by simp
qed simp

section \<open>Decisions\<close>

lemma handle_commit_decides:
  assumes "fst (handle_commit P now e m) = Inr (Some d)"
  obtains rnd p where "accepts_commit P e rnd m" "engine_quorum_size now e \<le> Suc (hm_len (r_commits rnd))"
    "r_phase rnd = Prepared" "r_proposal rnd = Some p" "d = decision_of (store_commit m rnd) p"
    "snd (handle_commit P now e m) =
       e\<lparr>ce_decisions := hm_insert (r_sequence rnd) d (ce_decisions e),
         ce_next_sequence := ce_next_sequence e + 1, ce_current_round := None\<rparr>"
proof (cases "\<exists>rnd. accepts_commit P e rnd m")
  case True
  then obtain rnd where "accepts_commit P e rnd m" by blast
  from handle_commit_accepted [OF this, of now] this assms show ?thesis
    by (auto intro: that split: if_splits option.splits)
next
  case False
  then show ?thesis using handle_commit_rejected [of P e m now] assms by auto
qed

lemma length_decision_of:
  "\<not> hm_contains (r_commits rnd) (cm_validator m) \<Longrightarrow>
   length (d_commit_signatures (decision_of (store_commit m rnd) p)) = Suc (hm_len (r_commits rnd))"
  using hm_len_insert_fresh [of "r_commits rnd" "cm_validator m" m]
  by (simp add: decision_of_def store_commit_def hm_len_def)

lemma decision_facts:
  assumes "signing_correct P" and "engine_reachable P e"
    and "fst (handle_commit P now e m) = Inr (Some d)"
  shows "certified P d" and "engine_quorum_size now e \<le> length (d_commit_signatures d)"
    and "d_view d = ce_current_view e" and "d_sequence d = ce_next_sequence e"
    and "snd (handle_commit P now e m) =
       e\<lparr>ce_decisions := hm_insert (d_sequence d) d (ce_decisions e),
         ce_next_sequence := ce_next_sequence e + 1, ce_current_round := None\<rparr>"
proof -
  from assms(3) obtain rnd p where acc: "accepts_commit P e rnd m" and r: "r_proposal rnd = Some p"
    and q: "engine_quorum_size now e \<le> Suc (hm_len (r_commits rnd))"
    and d: "d = decision_of (store_commit m rnd) p"
    and s: "snd (handle_commit P now e m) =
       e\<lparr>ce_decisions := hm_insert (r_sequence rnd) d (ce_decisions e),
         ce_next_sequence := ce_next_sequence e + 1, ce_current_round := None\<rparr>"
    by (rule handle_commit_decides) blast
  have inv: "wf_round P rnd" "r_view rnd = ce_current_view e" "r_sequence rnd = ce_next_sequence e"
    using engine_reachable_inv [OF assms(2)] assms(1) acc by (auto simp: accepts_commit_def dest: engine_invD)
  then have "wf_round P (store_commit m rnd)"
    using acc by (intro wf_round_store_commit) (auto simp: accepts_commit_def)
  then show "certified P d" unfolding d by (rule certified_decision_of) (simp add: store_commit_def r)
  show "engine_quorum_size now e \<le> length (d_commit_signatures d)"
    using q acc by (simp add: d length_decision_of accepts_commit_def)
  show "d_view d = ce_current_view e" "d_sequence d = ce_next_sequence e"
    using inv by (simp_all add: d decision_of_def store_commit_def)
  then show "snd (handle_commit P now e m) =
       e\<lparr>ce_decisions := hm_insert (d_sequence d) d (ce_decisions e),
         ce_next_sequence := ce_next_sequence e + 1, ce_current_round := None\<rparr>"
    using s inv by simp
qed



text \<open>
  C2. Finality. A decision that an engine has recorded is what \<^verbatim>\<open>get_decision\<close> returns for its sequence
  after any further calls, whatever messages, view changes and changes of the validator set they
  bring, for as long as fewer than 2 ^ 64 - 1 sequences have been decided.
\<close>

theorem decision_final:
  assumes "engine_reachable P e" and "get_decision e s = Some d"
    and "hm_len (ce_decisions (foldl (engine_step P) e es)) < 2 ^ 64 - 1"
  shows "get_decision (foldl (engine_step P) e es) s = Some d"
  using run_keeps_decision [OF log_inv_reachable [OF assms(1)]] assms(2,3) by (simp add: get_decision_def)

theorem decision_final_witness:
  "get_decision (foldl (engine_step sample_platform) sample_decided
     [(6, CreateProposal ValidatorChange [9]), (7, InitiateViewChange 3)]) 1 = Some (sample_decision [7])"
proof (rule decision_final)
  show "engine_reachable sample_platform sample_decided"
    unfolding sample_decided_def by (intro engine_event sample_reachable)
  show "get_decision sample_decided 1 = Some (sample_decision [7])" by code_simp
  show "hm_len (ce_decisions (foldl (engine_step sample_platform) sample_decided
     [(6, CreateProposal ValidatorChange [9]), (7, InitiateViewChange 3)])) < 2 ^ 64 - 1"
  proof -
    have "hm_len (ce_decisions (foldl (engine_step sample_platform) sample_decided
       [(6, CreateProposal ValidatorChange [9]), (7, InitiateViewChange 3)])) = 1" by code_simp
    then show ?thesis by simp
  qed
qed

text \<open>
  C5. The log of decisions. In every reachable state the sequences an engine has decided are exactly 1 up
  to the one before the sequence it is waiting for, and the decision recorded for a sequence is a
  decision of that sequence with a valid certificate.
\<close>

theorem decision_log:
  assumes "signing_correct P" and "engine_reachable P e" and "hm_len (ce_decisions e) < 2 ^ 64 - 1"
  shows "(get_decision e s \<noteq> None \<longleftrightarrow> 1 \<le> s \<and> s < ce_next_sequence e) \<and>
    (\<forall>d. get_decision e s = Some d \<longrightarrow> d_sequence d = s \<and> certified P d)"
  using log_inv_reachable [OF assms(2)] assms(3) engine_reachable_inv [OF assms(2)] assms(1)
  by (auto simp: log_inv_def hm_contains_def get_decision_def dest: engine_invD(2))

theorem decision_log_witness:
  "get_decision sample_decided 2 = None \<and> (\<exists>d. get_decision sample_decided 1 = Some d \<and> certified sample_platform d)"
proof -
  have r: "engine_reachable sample_platform sample_decided"
    unfolding sample_decided_def by (intro engine_event sample_reachable)
  have "hm_len (ce_decisions sample_decided) = 1" by code_simp
  then have n: "hm_len (ce_decisions sample_decided) < 2 ^ 64 - 1" by simp
  have s: "ce_next_sequence sample_decided = 2" by code_simp
  note log = decision_log [OF sample_platform_correct r n]
  show ?thesis using log [of 1] log [of 2] s by auto
qed

section \<open>Agreement\<close>

text \<open>
  C3. Accountability. Let two engines, of the same or of different nodes, in any reachable states decide
  different data for the same view and sequence, each counting \<^verbatim>\<open>3f + 1\<close> active validators, and let the
  signers of both certificates be among \<^verbatim>\<open>3f + 1\<close> validators. Then more than \<^verbatim>\<open>f\<close> validators are in both
  certificates, and each of them signed both hashes for that view and sequence. With at most \<^verbatim>\<open>f\<close>
  faulty validators, two nodes therefore never decide differently in one view.
\<close>

theorem conflicting_decisions_expose_faults:
  assumes "signing_correct P" and "engine_reachable P e1" "engine_reachable P e2"
    and "fst (handle_commit P now1 e1 m1) = Inr (Some d1)" "fst (handle_commit P now2 e2 m2) = Inr (Some d2)"
    and "active_count now1 (ce_validator_set e1) = 3 * f + 1" "active_count now2 (ce_validator_set e2) = 3 * f + 1"
    and "finite V" "card V = 3 * f + 1"
    and "fst ` set (d_commit_signatures d1) \<subseteq> V" "fst ` set (d_commit_signatures d2) \<subseteq> V"
    and "d_view d1 = d_view d2" "d_sequence d1 = d_sequence d2"
    and "pc_data (d_content d1) \<noteq> pc_data (d_content d2)"
  shows "f < card (fst ` set (d_commit_signatures d1) \<inter> fst ` set (d_commit_signatures d2)) \<and>
    (\<forall>h \<in> fst ` set (d_commit_signatures d1) \<inter> fst ` set (d_commit_signatures d2).
      \<exists>s1 s2. valid_vote P h (d_view d1) (d_sequence d1) (sha256 P (pc_data (d_content d1))) s1 \<and>
              valid_vote P h (d_view d1) (d_sequence d1) (sha256 P (pc_data (d_content d2))) s2)"
proof
  note D1 = decision_facts [OF assms(1,2,4)] and D2 = decision_facts [OF assms(1,3,5)]
  have "card (fst ` set (d_commit_signatures d)) = length (d_commit_signatures d)" if "certified P d" for d
    using that distinct_card [of "map fst (d_commit_signatures d)"] by (simp add: certified_def)
  then have "quorum_size_of (3 * f + 1) \<le> card (fst ` set (d_commit_signatures d1))"
    and "quorum_size_of (3 * f + 1) \<le> card (fst ` set (d_commit_signatures d2))"
    using D1(1,2) D2(1,2) assms(6,7) by (simp_all add: engine_quorum_size_def quorum_size_def)
  then show "f < card (fst ` set (d_commit_signatures d1) \<inter> fst ` set (d_commit_signatures d2))"
    using pbft.quorums_share_more_than_f [OF assms(8-11)] unfolding fault_tolerance_of_3f1 by blast
  show "\<forall>h \<in> fst ` set (d_commit_signatures d1) \<inter> fst ` set (d_commit_signatures d2).
      \<exists>s1 s2. valid_vote P h (d_view d1) (d_sequence d1) (sha256 P (pc_data (d_content d1))) s1 \<and>
              valid_vote P h (d_view d1) (d_sequence d1) (sha256 P (pc_data (d_content d2))) s2"
    using D1(1) D2(1) assms(12,13) by (fastforce simp: certified_def)
qed

theorem conflicting_decisions_expose_faults_witness:
  "1 < card (fst ` set (d_commit_signatures (sample_decision [7])) \<inter>
             fst ` set (d_commit_signatures (sample_decision [8])))"
proof -
  have "1 < card (fst ` set (d_commit_signatures (sample_decision [7])) \<inter>
             fst ` set (d_commit_signatures (sample_decision [8]))) \<and>
    (\<forall>h \<in> fst ` set (d_commit_signatures (sample_decision [7])) \<inter> fst ` set (d_commit_signatures (sample_decision [8])).
      \<exists>s1 s2. valid_vote sample_platform h (d_view (sample_decision [7])) (d_sequence (sample_decision [7]))
                (sha256 sample_platform (pc_data (d_content (sample_decision [7])))) s1 \<and>
              valid_vote sample_platform h (d_view (sample_decision [7])) (d_sequence (sample_decision [7]))
                (sha256 sample_platform (pc_data (d_content (sample_decision [8])))) s2)"
  proof (rule conflicting_decisions_expose_faults [OF sample_platform_correct sample_reachable sample_reachable
        sample_decides, where V = "{Hotkey [1], Hotkey [2], Hotkey [3], Hotkey [4]}"])
    show "active_count 5 (ce_validator_set (sample_state [7])) = 3 * 1 + 1" by code_simp
    show "active_count 5 (ce_validator_set (sample_state [8])) = 3 * 1 + 1" by code_simp
  qed (simp_all add: sample_decision_def Let_def)
  then show ?thesis by blast
qed

section \<open>Votes\<close>

lemma accepts_prepareI:
  assumes "fst (handle_prepare P now e m) = Inr r"
  obtains rnd where "accepts_prepare P e rnd m"
proof (cases "\<exists>rnd. accepts_prepare P e rnd m")
  case False
  then show ?thesis using handle_prepare_rejected [of P e m now] assms by auto
qed (use that in blast)

lemma handle_proposal_outcome:
  "case fst (handle_proposal P now e p) of
     Inl _ \<Rightarrow> \<not> accepts_proposal P now e p \<and> snd (handle_proposal P now e p) = e
   | Inr m \<Rightarrow> accepts_proposal P now e p \<and> pm_proposal_hash m = pc_data_hash (cp_proposal p) \<and>
       (\<exists>rnd. ce_current_round (snd (handle_proposal P now e p)) = Some rnd \<and> r_proposal rnd = Some p \<and>
         r_phase rnd = PrePrepare \<and> hm_iter (r_prepares rnd) = [(own_hotkey P e, m)] \<and> hm_iter (r_commits rnd) = [])"
proof (cases "accepts_proposal P now e p")
  case True
  then obtain b where "bincode P (vote_signing_data (cp_view p) (cp_sequence p) (pc_data_hash (cp_proposal p))) = Inr b"
    by (auto simp: accepts_proposal_def valid_vote_def split: sum.splits)
  with True show ?thesis unfolding handle_proposal_accepted [OF True]
    by (simp add: create_prepare_def sign_serde_def sign_bytes_def Let_def opened_round_def ConsensusRound_new_def
        update.rep_eq empty.rep_eq)
next
  case False
  then show ?thesis using handle_proposal_rejected [of P now e p] by auto
qed

text \<open>
  C6. A proposal is prepared exactly when it is for the current view and the next sequence, comes from the
  leader of the view with a valid signature, carries the hash of its data and, when it changes the
  configuration, comes from the sudo key. The engine then opens a round for the proposal with its own
  vote as the only prepare, and answers with that vote; it refuses every other proposal unchanged.
\<close>

theorem proposal_accepted_iff:
  "(isl (fst (handle_proposal P now e p)) = Not
     (cp_view p = ce_current_view e \<and> cp_sequence p = ce_next_sequence e \<and>
      leader_for_view now (ce_validator_set e) (cp_view p) = Some (cp_proposer p) \<and>
      sha256 P (pc_data (cp_proposal p)) = pc_data_hash (cp_proposal p) \<and>
      valid_vote P (cp_proposer p) (cp_view p) (cp_sequence p) (pc_data_hash (cp_proposal p)) (cp_signature p) \<and>
      (if pc_change_type (cp_proposal p) = ConfigUpdate then is_sudo (ce_state e) (cp_proposer p) else True))) \<and>
   (case fst (handle_proposal P now e p) of
      Inl _ \<Rightarrow> snd (handle_proposal P now e p) = e
    | Inr m \<Rightarrow>
        \<exists>rnd. ce_current_round (snd (handle_proposal P now e p)) = Some rnd \<and> r_proposal rnd = Some p \<and>
          r_phase rnd = PrePrepare \<and> hm_iter (r_prepares rnd) = [(own_hotkey P e, m)] \<and> hm_iter (r_commits rnd) = [])"
  using handle_proposal_outcome [of P now e p]
  by (cases "fst (handle_proposal P now e p)") (auto simp: accepts_proposal_def)



section \<open>Where the handlers leave more freedom\<close>

text \<open>
  A leader can obtain votes for two proposals. What \<^verbatim>\<open>handle_proposal\<close> answers does not depend on the
  round the engine is in, so an engine that has already voted for one proposal votes again for a
  second, different proposal with the same view and sequence.
\<close>

theorem proposal_ignores_round:
  "fst (handle_proposal P now (e\<lparr>ce_current_round := r\<rparr>) p) = fst (handle_proposal P now e p)"
  by (auto simp: handle_proposal_def create_prepare_def Let_def split: sum.splits option.splits)

text \<open>
  A prepare can be replayed as a commit. The signing data of a prepare and of a commit are the same,
  so the signature of any accepted prepare is accepted as the commit of a validator that has not
  committed.
\<close>

theorem prepare_replayed_as_commit:
  assumes "fst (handle_prepare P now e m) = Inr r"
    and "ce_current_round (snd (handle_prepare P now e m)) = Some rnd'"
    and "\<not> hm_contains (r_commits rnd') (pm_validator m)" and "r_proposal rnd' \<noteq> None"
  shows "\<exists>r'. fst (handle_commit P now' (snd (handle_prepare P now e m))
      \<lparr>cm_view = pm_view m, cm_sequence = pm_sequence m, cm_proposal_hash = pm_proposal_hash m,
       cm_validator = pm_validator m, cm_signature = pm_signature m\<rparr>) = Inr r'"
proof -
  let ?e = "snd (handle_prepare P now e m)"
  let ?c = "\<lparr>cm_view = pm_view m, cm_sequence = pm_sequence m, cm_proposal_hash = pm_proposal_hash m,
       cm_validator = pm_validator m, cm_signature = pm_signature m\<rparr>"
  from assms(1) obtain rnd where acc: "accepts_prepare P e rnd m" by (rule accepts_prepareI)
  have "ce_validator_set ?e = ce_validator_set e \<and> r_view rnd' = r_view rnd \<and> r_sequence rnd' = r_sequence rnd \<and>
      r_proposal_hash rnd' = r_proposal_hash rnd"
    using assms(2) unfolding handle_prepare_accepted [OF acc] Let_def
    by (auto simp: store_prepare_def store_commit_def split: sum.splits if_splits)
  then have "accepts_commit P ?e rnd' ?c"
    using acc assms(2,3) by (simp add: accepts_prepare_def accepts_commit_def)
  from handle_commit_accepted [OF this, of now'] assms(4) show ?thesis by auto
qed

theorem prepare_replayed_as_commit_witness:
  "\<exists>r. fst (handle_commit sample_platform 3
      (snd (handle_prepare sample_platform 2 sample_opened (sample_prepare 2 (sha256 sample_platform [7]))))
      (sample_commit 2 (sha256 sample_platform [7]))) = Inr r"
proof -
  let ?m = "sample_prepare 2 (sha256 sample_platform [7])"
  let ?e = "snd (handle_prepare sample_platform 2 sample_opened ?m)"
  have ok: "fst (handle_prepare sample_platform 2 sample_opened ?m) = Inr None" by code_simp
  have "(case ce_current_round ?e of None \<Rightarrow> False
      | Some rnd \<Rightarrow> \<not> hm_contains (r_commits rnd) (pm_validator ?m) \<and> r_proposal rnd \<noteq> None)"
    by code_simp
  then obtain rnd where rnd: "ce_current_round ?e = Some rnd" "\<not> hm_contains (r_commits rnd) (pm_validator ?m)"
      "r_proposal rnd \<noteq> None"
    by (auto split: option.splits)
  show ?thesis using prepare_replayed_as_commit [OF ok rnd, of 3] by (simp add: sample_prepare_def sample_commit_def)
qed

lemma handle_commit_all_recorded:
  assumes "ce_current_round e = Some rnd" and "\<And>h. is_validator (ce_validator_set e) h \<Longrightarrow> hm_contains (r_commits rnd) h"
  shows "\<exists>err. handle_commit P now e m = (Inl err, e)"
  using assms by (intro handle_commit_rejected) (auto simp: accepts_commit_def)

lemma stalled_facts:
  "case ce_current_round stalled of None \<Rightarrow> False
   | Some rnd \<Rightarrow> r_phase rnd = Prepared \<and> hm_len (r_commits rnd) = 4 \<and>
       list_all (hm_contains (r_commits rnd)) (hm_keys (vs_validators (ce_validator_set stalled)))"
  "engine_quorum_size 9 stalled = 3" "hm_len (ce_decisions stalled) = 0"
  by code_simp+

text \<open>
  Commits that arrive early can stall a round. The quorum of commits is only counted when a commit
  arrives, and only once the round is prepared. There is a reachable state of an honest engine in which
  the round is prepared and the commits of all four validators are recorded, more than the quorum of
  three, but nothing is decided and every further commit is refused.
\<close>

theorem early_commits_stall:
  "\<exists>rnd. engine_reachable sample_platform stalled \<and> ce_current_round stalled = Some rnd \<and>
     r_phase rnd = Prepared \<and> engine_quorum_size 9 stalled < hm_len (r_commits rnd) \<and>
     hm_len (ce_decisions stalled) = 0 \<and>
     (\<forall>now m. isl (fst (handle_commit sample_platform now stalled m)))"
proof -
  from stalled_facts(1) obtain rnd where rnd: "ce_current_round stalled = Some rnd" "r_phase rnd = Prepared"
      "hm_len (r_commits rnd) = 4" "list_all (hm_contains (r_commits rnd)) (hm_keys (vs_validators (ce_validator_set stalled)))"
    by (auto split: option.splits)
  have "is_validator (ce_validator_set stalled) h \<Longrightarrow> hm_contains (r_commits rnd) h" for h
    using rnd(4) by (auto simp: list_all_iff is_validator_def set_hm_keys hm_contains_def)
  then have "isl (fst (handle_commit sample_platform now stalled m))" for now m
    using handle_commit_all_recorded [OF rnd(1), of sample_platform now m] by auto
  moreover have "engine_reachable sample_platform stalled"
    unfolding stalled_def sample_engine_def by (intro engine_reachable_run engine_start)
  ultimately show ?thesis using rnd stalled_facts(2,3) by auto
qed


end
