(* ===== verification/View_Change.thy ===== *)
theory View_Change
  imports Consensus_Sample
begin

text \<open>
  The view-change protocol of \<^verbatim>\<open>consensus.rs\<close>: what an engine has collected when it announces a new view, and
  that the other engines accept the announcement.
\<close>

section \<open>View changes\<close>

definition valid_view_change :: "platform \<Rightarrow> ViewNumber \<Rightarrow> ViewChangeMessage \<Rightarrow> bool" where
  "valid_view_change P v vc \<longleftrightarrow> vc_new_view vc = v \<and>
     (case bincode P (view_change_signing_data v (vc_last_prepared_sequence vc)) of
        Inl _ \<Rightarrow> False
      | Inr m \<Rightarrow> signed_by P (vc_validator vc) m (vc_signature vc))"

definition view_change_inv :: "platform \<Rightarrow> ConsensusEngine \<Rightarrow> bool" where
  "view_change_inv P e \<longleftrightarrow>
     (case ce_view_change_state e of
        None \<Rightarrow> True
      | Some st \<Rightarrow> \<forall>(h, vc) \<in> set (hm_iter (vcs_view_changes st)).
          vc_validator vc = h \<and> valid_view_change P (vcs_new_view st) vc)"

lemma check_view_change_True:
  "check_serde P vs (vc_validator vc) (view_change_signing_data (vc_new_view vc) (vc_last_prepared_sequence vc))
     (vc_signature vc) = Inr True \<longleftrightarrow>
   is_validator vs (vc_validator vc) \<and> valid_view_change P (vc_new_view vc) vc"
  by (auto simp: check_serde_True valid_view_change_def split: sum.splits)

lemma check_view_changes_Inr:
  "check_view_changes P vs v vcs = Inr () \<longleftrightarrow>
     list_all (\<lambda>vc. is_validator vs (vc_validator vc) \<and> valid_view_change P v vc) vcs"
proof (induction vcs)
  case (Cons vc vcs)
  then show ?case
    using check_view_change_True [of P vs vc]
    by (auto simp: valid_view_change_def split: sum.splits)
qed simp

lemma view_change_inv_same:
  "view_change_inv P e \<Longrightarrow> ce_view_change_state e' = ce_view_change_state e \<Longrightarrow> view_change_inv P e'"
  by (simp add: view_change_inv_def)

lemma view_change_inv_None: "ce_view_change_state e = None \<Longrightarrow> view_change_inv P e"
  by (simp add: view_change_inv_def)

lemma view_change_state_frame:
  "ce_view_change_state (snd (create_proposal P now e t d)) = ce_view_change_state e"
  "ce_view_change_state (snd (create_prepare P e v s ph)) = ce_view_change_state e"
  "ce_view_change_state (snd (create_pre_prepare P now e v s h)) = ce_view_change_state e"
  by (auto simp: create_proposal_def create_prepare_def create_pre_prepare_def Let_def
      split: sum.splits option.splits if_splits)

lemma view_change_state_handle_proposal:
  "ce_view_change_state (snd (handle_proposal P now e p)) = ce_view_change_state e"
proof (cases "accepts_proposal P now e p")
  case True
  then show ?thesis by (simp add: handle_proposal_accepted view_change_state_frame)
next
  case False
  then show ?thesis using handle_proposal_rejected [of P now e p] by force
qed

lemma view_change_state_handle_prepare:
  "ce_view_change_state (snd (handle_prepare P now e m)) = ce_view_change_state e"
proof (cases "\<exists>rnd. accepts_prepare P e rnd m")
  case True
  then obtain rnd where "accepts_prepare P e rnd m" by blast
  then show ?thesis by (simp add: handle_prepare_accepted Let_def split: sum.splits)
next
  case False
  then show ?thesis using handle_prepare_rejected [of P e m now] by force
qed

lemma view_change_state_handle_commit:
  "ce_view_change_state (snd (handle_commit P now e m)) = ce_view_change_state e"
proof (cases "\<exists>rnd. accepts_commit P e rnd m")
  case True
  then obtain rnd where "accepts_commit P e rnd m" by blast
  then show ?thesis by (simp add: handle_commit_accepted split: option.splits)
next
  case False
  then show ?thesis using handle_commit_rejected [of P e m now] by force
qed

lemmas view_change_state_frames = view_change_state_frame view_change_state_handle_proposal
  view_change_state_handle_prepare view_change_state_handle_commit

lemma view_change_invI:
  assumes "ce_view_change_state e = Some st"
    and "\<And>h vc. hm_get (vcs_view_changes st) h = Some vc \<Longrightarrow> vc_validator vc = h \<and> valid_view_change P (vcs_new_view st) vc"
  shows "view_change_inv P e"
  using assms by (auto simp: view_change_inv_def hm_in_iter)

lemma view_change_invD:
  assumes "view_change_inv P e" and "ce_view_change_state e = Some st" and "hm_get (vcs_view_changes st) h = Some vc"
  shows "vc_validator vc = h \<and> valid_view_change P (vcs_new_view st) vc"
  using assms by (auto simp: view_change_inv_def simp flip: hm_in_iter)

lemma view_change_inv_initiate:
  assumes "signing_correct P" and "view_change_inv P e"
  shows "view_change_inv P (snd (initiate_view_change P now e v))"
proof (cases "v \<le> ce_current_view e")
  case True
  then show ?thesis using assms(2) by (simp add: initiate_view_change_def)
next
  case False
  obtain sq pf where lp: "last_prepared e = (sq, pf)" by fastforce
  show ?thesis
  proof (cases "bincode P (view_change_signing_data v sq)")
    case (Inl err)
    then show ?thesis using assms(2) False by (simp add: initiate_view_change_def lp sign_serde_def)
  next
    case (Inr b)
    then show ?thesis using False signed_by_own [OF assms(1)]
      by (auto simp: initiate_view_change_def lp sign_serde_def sign_bytes_def Let_def valid_view_change_def
          lookup_update intro!: view_change_invI split: if_splits)
  qed
qed

lemma collected_valid:
  assumes "view_change_inv P e" and "accepts_view_change P now e vc"
    and "hm_get (vcs_view_changes (collected now e vc)) h = Some c"
  shows "vc_validator c = h \<and> valid_view_change P (vc_new_view vc) c"
proof -
  have vc: "valid_view_change P (vc_new_view vc) vc"
    using assms(2) by (simp add: accepts_view_change_def check_view_change_True)
  have "vcs_new_view st = vc_new_view vc" if "ce_view_change_state e = Some st" "\<not> vcs_new_view st < vc_new_view vc" for st
    using that assms(2) by (simp add: accepts_view_change_def)
  then show ?thesis
    using assms(3) vc view_change_invD [OF assms(1)]
    by (fastforce simp: collected_def Let_def lookup_update split: if_splits option.splits)
qed

lemma collected_view:
  "accepts_view_change P now e vc \<Longrightarrow> vcs_new_view (collected now e vc) = vc_new_view vc"
  by (auto simp: accepts_view_change_def collected_def Let_def split: option.splits)

lemma view_change_inv_handle:
  assumes "view_change_inv P e"
  shows "view_change_inv P (snd (handle_view_change P now e vc))"
proof (cases "accepts_view_change P now e vc")
  case True
  have "view_change_inv P (e\<lparr>ce_view_change_state := Some (collected now e vc)\<rparr>)"
    using collected_valid [OF assms True] by (intro view_change_invI) (auto simp: collected_view [OF True])
  then show ?thesis
    by (auto simp: handle_view_change_accepted [OF True] intro: view_change_inv_None split: sum.splits)
next
  case False
  then show ?thesis using handle_view_change_ignored [OF False] assms by auto
qed

lemma view_change_inv_handle_new_view:
  "view_change_inv P e \<Longrightarrow> view_change_inv P (snd (handle_new_view P now e nv))"
  using handle_new_view_frame [of P now e nv] by (auto intro: view_change_inv_None)

interpretation views: machine "engine_step P" "\<lambda>e. signing_correct P \<longrightarrow> view_change_inv P e" for P
proof (unfold_locales, intro impI)
  fix e ev
  assume "signing_correct P \<longrightarrow> view_change_inv P e" and P: "signing_correct P"
  then have "view_change_inv P e" by simp
  with P show "view_change_inv P (engine_step P e ev)"
    by (cases "(P, e, ev)" rule: engine_step.cases)
      (auto simp: view_change_inv_handle view_change_inv_initiate view_change_inv_handle_new_view
        view_change_state_frames intro: view_change_inv_same)
qed

lemma view_change_inv_reachable:
  "engine_reachable P e \<Longrightarrow> signing_correct P \<longrightarrow> view_change_inv P e"
proof (induction rule: engine_reachable.induct)
  case (engine_start k vs s)
  show ?case by (simp add: view_change_inv_def ConsensusEngine_new_def)
next
  case (engine_event e ev)
  then show ?case using views.step_inv by blast
qed

lemma new_view_facts:
  assumes "signing_correct P" and "engine_reachable P e"
    and "fst (handle_view_change P now e vc) = Inr (Some nv)"
  shows "is_leader now (ce_validator_set e) (nv_leader nv) (nv_view nv)"
    and "engine_quorum_size now e \<le> length (nv_view_changes nv)"
    and "distinct (map vc_validator (nv_view_changes nv))"
    and "list_all (valid_view_change P (nv_view nv)) (nv_view_changes nv)"
    and "\<exists>b. bincode P (new_view_signing_data (nv_view nv)) = Inr b \<and> signed_by P (nv_leader nv) b (nv_signature nv)"
    and "snd (handle_view_change P now e vc) =
      e\<lparr>ce_current_view := nv_view nv, ce_view_change_state := None, ce_current_round := None\<rparr>"
proof -
  have acc: "accepts_view_change P now e vc"
    by (rule ccontr, drule handle_view_change_ignored) (use assms(3) in auto)
  let ?vcs = "vcs_view_changes (collected now e vc)"
  obtain sig where q: "engine_quorum_size now e \<le> hm_len ?vcs"
      "is_leader now (ce_validator_set e) (own_hotkey P e) (vc_new_view vc)"
    and sig: "sign_serde P (ce_keypair e) (new_view_signing_data (vc_new_view vc)) = Inr sig"
    and nv: "nv = \<lparr>nv_view = vc_new_view vc, nv_view_changes = hm_values ?vcs, nv_leader = own_hotkey P e, nv_signature = sig\<rparr>"
    and st: "snd (handle_view_change P now e vc) =
      e\<lparr>ce_current_view := vc_new_view vc, ce_view_change_state := None, ce_current_round := None\<rparr>"
    using assms(3) by (auto simp: handle_view_change_accepted [OF acc] split: if_splits sum.splits)
  have ok: "vc_validator c = h \<and> valid_view_change P (vc_new_view vc) c" if "(h, c) \<in> set (hm_iter ?vcs)" for h c
    using that collected_valid [OF _ acc] view_change_inv_reachable [OF assms(2)] assms(1) by (simp add: hm_in_iter)
  have "map vc_validator (hm_values ?vcs) = hm_keys ?vcs"
    using ok by (auto simp: hm_values_def hm_keys_def)
  then show "distinct (map vc_validator (nv_view_changes nv))" by (simp add: nv hm_keys_def)
  show "list_all (valid_view_change P (nv_view nv)) (nv_view_changes nv)"
    using ok by (fastforce simp: nv hm_values_def list_all_iff)
  show "engine_quorum_size now e \<le> length (nv_view_changes nv)"
    using q(1) by (simp add: nv hm_values_def hm_len_def)
  show "\<exists>b. bincode P (new_view_signing_data (nv_view nv)) = Inr b \<and> signed_by P (nv_leader nv) b (nv_signature nv)"
    using sig signed_by_own [OF assms(1)] by (auto simp: nv sign_serde_def sign_bytes_def split: sum.splits)
  show "is_leader now (ce_validator_set e) (nv_leader nv) (nv_view nv)" using q(2) by (simp add: nv)
  show "snd (handle_view_change P now e vc) =
      e\<lparr>ce_current_view := nv_view nv, ce_view_change_state := None, ce_current_round := None\<rparr>"
    using st by (simp add: nv)
qed

lemma leader_is_validator:
  assumes "wf_vset vs" and "is_leader now vs h v"
  shows "is_validator vs h"
proof -
  have "0 < active_count now vs" and h: "vr_hotkey (validators_by_stake now vs ! (unat v mod active_count now vs)) = h"
    using assms(2) by (auto simp: is_leader_def leader_for_view_eq split: option.splits)
  then have "validators_by_stake now vs ! (unat v mod active_count now vs) \<in> set (validators_by_stake now vs)"
    by (metis length_validators_by_stake mod_less_divisor nth_mem)
  then show ?thesis
    using assms(1) h by (auto simp: set_validators_by_stake ran_def wf_vset_iff is_validator_def hm_contains_def)
qed

text \<open>
  C7. A new view is justified and accepted. When \<^verbatim>\<open>handle_view_change\<close> of an engine in a reachable state
  announces a new view, the engine is the leader of that view and the announcement carries at least
  a quorum of validly signed view changes for it from pairwise distinct validators. Any engine with the
  same validator set accepts the announcement in \<^verbatim>\<open>handle_new_view\<close>, as long as the signers are still
  registered, and both engines are then in the new view with no open round.
\<close>

theorem new_view_justified_and_accepted:
  assumes "signing_correct P" and "engine_reachable P e"
    and "fst (handle_view_change P now e vc) = Inr (Some nv)"
    and "wf_vset (ce_validator_set e)" and "ce_validator_set e2 = ce_validator_set e"
    and "list_all (\<lambda>c. is_validator (ce_validator_set e) (vc_validator c)) (nv_view_changes nv)"
  shows "is_leader now (ce_validator_set e) (own_hotkey P e) (nv_view nv) \<and>
    engine_quorum_size now e \<le> length (nv_view_changes nv) \<and>
    distinct (map vc_validator (nv_view_changes nv)) \<and>
    list_all (valid_view_change P (nv_view nv)) (nv_view_changes nv) \<and>
    fst (handle_new_view P now e2 nv) = Inr () \<and>
    ce_current_view (snd (handle_new_view P now e2 nv)) = nv_view nv \<and>
    ce_current_view (snd (handle_view_change P now e vc)) = nv_view nv \<and>
    ce_current_round (snd (handle_new_view P now e2 nv)) = None \<and>
    ce_current_round (snd (handle_view_change P now e vc)) = None"
proof -
  note F = new_view_facts [OF assms(1-3)]
  have "check_serde P (ce_validator_set e2) (nv_leader nv) (new_view_signing_data (nv_view nv)) (nv_signature nv) = Inr True"
    using F(5) leader_is_validator [OF assms(4) F(1)] by (auto simp: check_serde_True assms(5))
  moreover have "check_view_changes P (ce_validator_set e2) (nv_view nv) (nv_view_changes nv) = Inr ()"
    using F(4) assms(6) by (auto simp: check_view_changes_Inr assms(5) list_all_iff)
  ultimately have "handle_new_view P now e2 nv =
      (Inr (), e2\<lparr>ce_current_view := nv_view nv, ce_view_change_state := None, ce_current_round := None\<rparr>)"
    using F(1,2) by (simp add: handle_new_view_def assms(5) engine_quorum_size_def Let_def)
  moreover have "own_hotkey P e = nv_leader nv"
    using assms(3) by (auto simp: handle_view_change_def Let_def split: sum.splits if_splits)
  ultimately show ?thesis using F by simp
qed

theorem new_view_justified_and_accepted_witness:
  "engine_quorum_size 3 sample_changing = 3 \<and>
   3 \<le> length (nv_view_changes (sample_new_view 1 [2, 3, 4] 4)) \<and>
   fst (handle_new_view sample_platform 3 sample_engine2 (sample_new_view 1 [2, 3, 4] 4)) = Inr () \<and>
   ce_current_view (snd (handle_new_view sample_platform 3 sample_engine2 (sample_new_view 1 [2, 3, 4] 4))) = 4"
proof -
  have r: "engine_reachable sample_platform sample_changing"
    unfolding sample_changing_def sample_engine_def by (intro engine_reachable_run engine_start)
  have nv: "fst (handle_view_change sample_platform 3 sample_changing (sample_view_change 4 4)) =
      Inr (Some (sample_new_view 1 [2, 3, 4] 4))" by code_simp
  have vs: "ce_validator_set sample_changing = sample_vset 0 [(1, 900), (2, 200), (3, 200), (4, 200)]"
    by code_simp
  have wf: "wf_vset (ce_validator_set sample_changing)"
    unfolding vs by (auto simp: sample_vset_simps wf_vset_def)
  have vs2: "ce_validator_set sample_engine2 = ce_validator_set sample_changing"
    unfolding vs by (simp add: sample_engine2_def ConsensusEngine_new_def)
  have reg: "list_all (\<lambda>c. is_validator (ce_validator_set sample_changing) (vc_validator c))
      (nv_view_changes (sample_new_view 1 [2, 3, 4] 4))" by code_simp
  have q: "engine_quorum_size 3 sample_changing = 3" by code_simp
  have "nv_view (sample_new_view 1 [2, 3, 4] 4) = 4" by (simp add: sample_new_view_def)
  then show ?thesis
    using new_view_justified_and_accepted [OF sample_platform_correct r nv wf vs2 reg] q by simp
qed

end
