(* ===== verification/Merkle.thy ===== *)
theory Merkle
  imports Messages
begin

text \<open>
  The Merkle trees of \<^verbatim>\<open>p2p-consensus/src/state.rs\<close>: the root of a list of leaves, inclusion proofs and
  their verification. A level of odd length pairs its last node with itself.
\<close>

section \<open>Definitions\<close>

definition hash_pair :: "platform \<Rightarrow> bytes \<Rightarrow> bytes \<Rightarrow> bytes" where
  "hash_pair P left right = sha256 P (left @ right)"

text \<open>The loop over \<^verbatim>\<open>level.chunks(2)\<close> that builds the next level.\<close>

fun merkle_next_level :: "platform \<Rightarrow> bytes list \<Rightarrow> bytes list" where
  "merkle_next_level P (a # b # rest) = hash_pair P a b # merkle_next_level P rest"
| "merkle_next_level P [a] = [hash_pair P a a]"
| "merkle_next_level P [] = []"

lemma length_merkle_next_level: "length (merkle_next_level P level) = (length level + 1) div 2"
  by (induction P level rule: merkle_next_level.induct) auto

lemma merkle_next_level_nth:
  "i < length (merkle_next_level P level) \<Longrightarrow>
   merkle_next_level P level ! i =
     hash_pair P (level ! (2 * i)) (level ! (if 2 * i + 1 < length level then 2 * i + 1 else 2 * i))"
proof (induction P level arbitrary: i rule: merkle_next_level.induct)
  case (1 P a b rest)
  then show ?case by (cases i) auto
qed auto

text \<open>The loop \<^verbatim>\<open>while level.len() > 1\<close>.\<close>

function merkle_reduce :: "platform \<Rightarrow> bytes list \<Rightarrow> bytes" where
  "merkle_reduce P level =
     (if length level > 1 then merkle_reduce P (merkle_next_level P level) else level ! 0)"
  by pat_completeness auto

termination
  by (relation "measure (\<lambda>(P, level). length level)") (auto simp: length_merkle_next_level)

definition compute_merkle_root :: "platform \<Rightarrow> bytes list \<Rightarrow> bytes" where
  "compute_merkle_root P leaves =
     (if leaves = [] then replicate 32 0
      else if length leaves = 1 then leaves ! 0
      else merkle_reduce P leaves)"

fun merkle_fold :: "platform \<Rightarrow> bytes \<Rightarrow> MerkleNode list \<Rightarrow> bytes" where
  "merkle_fold P current [] = current"
| "merkle_fold P current (node # path) =
     merkle_fold P
       (if mn_is_left node then hash_pair P (mn_sibling_hash node) current
        else hash_pair P current (mn_sibling_hash node)) path"

definition verify_merkle_proof :: "platform \<Rightarrow> bytes \<Rightarrow> MerkleProof \<Rightarrow> bool" where
  "verify_merkle_proof P leaf proof = (merkle_fold P leaf (mp_path proof) = mp_root proof)"

definition sibling_index :: "bytes list \<Rightarrow> usize \<Rightarrow> usize" where
  "sibling_index level index =
     (if index mod 2 = 0 then (if index + 1 < length level then index + 1 else index) else index - 1)"

function merkle_path :: "platform \<Rightarrow> bytes list \<Rightarrow> usize \<Rightarrow> MerkleNode list" where
  "merkle_path P level index =
     (if length level > 1
      then let sibling = sibling_index level index
           in \<lparr>mn_sibling_hash = level ! sibling, mn_is_left = (sibling < index)\<rparr> #
              merkle_path P (merkle_next_level P level) (index div 2)
      else [])"
  by pat_completeness auto

termination
  by (relation "measure (\<lambda>(P, level, index). length level)") (auto simp: length_merkle_next_level)

declare merkle_reduce.simps [simp del] merkle_path.simps [simp del]

definition build_merkle_proof :: "platform \<Rightarrow> bytes list \<Rightarrow> usize \<Rightarrow> MerkleProof option" where
  "build_merkle_proof P leaves leaf_index =
     (if leaf_index \<ge> length leaves \<or> leaves = [] then None
      else Some \<lparr>mp_root = compute_merkle_root P leaves, mp_path = merkle_path P leaves leaf_index\<rparr>)"

section \<open>Inclusion proofs\<close>

lemma merkle_reduce_step:
  "1 < length level \<Longrightarrow> merkle_reduce P level = merkle_reduce P (merkle_next_level P level)"
  by (subst merkle_reduce.simps) simp

lemma merkle_reduce_single: "length level = 1 \<Longrightarrow> merkle_reduce P level = level ! 0"
  by (subst merkle_reduce.simps) simp

lemma compute_merkle_root_reduce: "leaves \<noteq> [] \<Longrightarrow> compute_merkle_root P leaves = merkle_reduce P leaves"
  by (simp add: compute_merkle_root_def merkle_reduce_single)

lemma merkle_path_step:
  "1 < length level \<Longrightarrow> merkle_path P level index =
     \<lparr>mn_sibling_hash = level ! sibling_index level index, mn_is_left = (sibling_index level index < index)\<rparr> #
     merkle_path P (merkle_next_level P level) (index div 2)"
  by (subst merkle_path.simps) (simp add: Let_def)

lemma merkle_path_single: "\<not> 1 < length level \<Longrightarrow> merkle_path P level index = []"
  by (subst merkle_path.simps) simp

lemma sibling_pair:
  assumes "index < length level"
  shows "merkle_next_level P level ! (index div 2) =
     (if sibling_index level index < index then hash_pair P (level ! sibling_index level index) (level ! index)
      else hash_pair P (level ! index) (level ! sibling_index level index))"
proof -
  have "index div 2 < length (merkle_next_level P level)" using assms by (simp add: length_merkle_next_level)
  moreover have "index mod 2 = 0 \<Longrightarrow> 2 * (index div 2) = index" "index mod 2 \<noteq> 0 \<Longrightarrow> 2 * (index div 2) = index - 1"
    "index mod 2 \<noteq> 0 \<Longrightarrow> 0 < index"
    by presburger+
  ultimately show ?thesis using assms
    by (cases "index mod 2 = 0") (auto simp: merkle_next_level_nth sibling_index_def)
qed

lemma merkle_fold_path:
  "index < length level \<Longrightarrow> merkle_fold P (level ! index) (merkle_path P level index) = merkle_reduce P level"
proof (induction "length level" arbitrary: level index rule: less_induct)
  case less
  show ?case
  proof (cases "1 < length level")
    case True
    let ?next = "merkle_next_level P level"
    have "length ?next < length level" "index div 2 < length ?next"
      using True less.prems by (simp_all add: length_merkle_next_level)
    then have "merkle_fold P (?next ! (index div 2)) (merkle_path P ?next (index div 2)) = merkle_reduce P ?next"
      by (rule less.hyps)
    then show ?thesis
      using True sibling_pair [OF less.prems, of P] by (auto simp: merkle_path_step merkle_reduce_step split: if_splits)
  next
    case False
    with less.prems have "length level = 1" "index = 0" by auto
    then show ?thesis by (simp add: merkle_path_single merkle_reduce_single)
  qed
qed

section \<open>Soundness up to hash collisions\<close>

text \<open>The strings that are hashed while a proof is folded.\<close>

fun merkle_inputs :: "platform \<Rightarrow> bytes \<Rightarrow> MerkleNode list \<Rightarrow> bytes list" where
  "merkle_inputs P current [] = []"
| "merkle_inputs P current (node # path) =
     (let input = (if mn_is_left node then mn_sibling_hash node @ current else current @ mn_sibling_hash node)
      in input # merkle_inputs P (sha256 P input) path)"

definition collide :: "platform \<Rightarrow> bytes list \<Rightarrow> bytes list \<Rightarrow> bool" where
  "collide P xs ys \<longleftrightarrow> (\<exists>a \<in> set xs. \<exists>b \<in> set ys. a \<noteq> b \<and> sha256 P a = sha256 P b)"

lemma collide_head: "a \<noteq> b \<Longrightarrow> sha256 P a = sha256 P b \<Longrightarrow> collide P (a # xs) (b # ys)"
  by (auto simp: collide_def)

lemma collide_tail: "collide P xs ys \<Longrightarrow> collide P (a # xs) (b # ys)"
  by (auto simp: collide_def)

lemma merkle_fold_collision:
  assumes "\<And>x. length (sha256 P x) = 32"
    and "map mn_is_left path = map mn_is_left path'"
    and "\<And>n. n \<in> set path \<union> set path' \<Longrightarrow> length (mn_sibling_hash n) = 32"
    and "length x = 32" "length y = 32" and "merkle_fold P x path = merkle_fold P y path'"
  shows "x = y \<or> collide P (merkle_inputs P x path) (merkle_inputs P y path')"
proof -
  have "length path = length path'" using assms(2) by (rule map_eq_imp_length_eq)
  then show ?thesis
    using assms(2-)
  proof (induction path path' arbitrary: x y rule: list_induct2)
    case (Cons n ns m ms)
    let ?a = "if mn_is_left n then mn_sibling_hash n @ x else x @ mn_sibling_hash n"
    let ?b = "if mn_is_left m then mn_sibling_hash m @ y else y @ mn_sibling_hash m"
    have inputs: "merkle_inputs P x (n # ns) = ?a # merkle_inputs P (sha256 P ?a) ns"
      "merkle_inputs P y (m # ms) = ?b # merkle_inputs P (sha256 P ?b) ms"
      by (simp_all add: Let_def)
    have "sha256 P ?a = sha256 P ?b \<or>
        collide P (merkle_inputs P (sha256 P ?a) ns) (merkle_inputs P (sha256 P ?b) ms)"
      using Cons.prems by (intro Cons.IH) (auto simp: assms(1) hash_pair_def)
    moreover have "?a = ?b \<Longrightarrow> x = y"
      using Cons.prems by (auto split: if_splits)
    ultimately show ?case
      unfolding inputs by (cases "?a = ?b") (auto intro: collide_head collide_tail simp del: append_eq_append_conv)
  qed simp
qed

lemma merkle_next_level_32:
  assumes "\<And>x. length (sha256 P x) = 32"
  shows "x \<in> set (merkle_next_level P level) \<Longrightarrow> length x = 32"
  by (induction level rule: induct_list012) (auto simp: hash_pair_def assms)

lemma sibling_index_less: "index < length level \<Longrightarrow> sibling_index level index < length level"
  by (auto simp: sibling_index_def)

lemma merkle_path_32:
  assumes "\<And>x. length (sha256 P x) = 32"
  shows "index < length level \<Longrightarrow> (\<And>x. x \<in> set level \<Longrightarrow> length x = 32) \<Longrightarrow>
    n \<in> set (merkle_path P level index) \<Longrightarrow> length (mn_sibling_hash n) = 32"
proof (induction "length level" arbitrary: level index rule: less_induct)
  case less
  show ?case
  proof (cases "1 < length level")
    case True
    let ?next = "merkle_next_level P level"
    have "length ?next < length level" "index div 2 < length ?next"
      using True less.prems by (simp_all add: length_merkle_next_level)
    then have "n \<in> set (merkle_path P ?next (index div 2)) \<Longrightarrow> length (mn_sibling_hash n) = 32"
      using less.hyps merkle_next_level_32 [OF assms] by blast
    then show ?thesis
      using less.prems sibling_index_less [OF less.prems(1)] by (auto simp: merkle_path_step [OF True])
  qed (use less.prems in \<open>simp add: merkle_path_single\<close>)
qed

section \<open>Properties\<close>

text \<open>
  C14. Inclusion proofs are complete. For every index of a non-empty list of leaves \<^verbatim>\<open>build_merkle_proof\<close>
  returns a proof for the root that \<^verbatim>\<open>compute_merkle_root\<close> computes, and \<^verbatim>\<open>verify_merkle_proof\<close> accepts the
  leaf at that index with it; for an index out of range there is no proof.
\<close>

theorem merkle_proof_complete:
  "if index < length leaves
   then \<exists>proof. build_merkle_proof P leaves index = Some proof \<and> mp_root proof = compute_merkle_root P leaves \<and>
          verify_merkle_proof P (leaves ! index) proof
   else build_merkle_proof P leaves index = None"
proof (cases "index < length leaves")
  case True
  then have "leaves \<noteq> []" by auto
  with True merkle_fold_path [OF True, of P] show ?thesis
    by (simp add: build_merkle_proof_def verify_merkle_proof_def compute_merkle_root_reduce)
qed (simp add: build_merkle_proof_def)

text \<open>
  C15. Inclusion proofs are sound up to collisions of the hash. When \<^verbatim>\<open>verify_merkle_proof\<close> accepts a value
  with a proof that has the root of the leaves and turns left and right as the proof of some index
  does, the value is the leaf at that index, or two different strings among those hashed for the two
  proofs have the same SHA-256.
\<close>

theorem merkle_proof_sound:
  assumes "\<And>x. length (sha256 P x) = 32" and "index < length leaves"
    and "\<forall>l \<in> set leaves. length l = 32" and "length x = 32"
    and "\<forall>n \<in> set (mp_path proof). length (mn_sibling_hash n) = 32"
    and "map mn_is_left (mp_path proof) = map mn_is_left (merkle_path P leaves index)"
    and "mp_root proof = compute_merkle_root P leaves" and "verify_merkle_proof P x proof"
  shows "x = leaves ! index \<or>
    collide P (merkle_inputs P x (mp_path proof)) (merkle_inputs P (leaves ! index) (merkle_path P leaves index))"
proof -
  have "leaves \<noteq> []" using assms(2) by auto
  then have "merkle_fold P x (mp_path proof) = merkle_fold P (leaves ! index) (merkle_path P leaves index)"
    using assms(7,8) merkle_fold_path [OF assms(2), of P]
    by (simp add: verify_merkle_proof_def compute_merkle_root_reduce)
  moreover have "length (mn_sibling_hash n) = 32" if "n \<in> set (mp_path proof) \<union> set (merkle_path P leaves index)" for n
    using that assms(3,5) merkle_path_32 [OF assms(1,2)] by auto
  ultimately show ?thesis
    using merkle_fold_collision [OF assms(1,6) _ assms(4)] assms(2,3) nth_mem by blast
qed

definition sample_leaves :: "bytes list" where
  "sample_leaves = map (replicate 32) [1, 2, 3]"

definition sample_proof :: MerkleProof where
  "sample_proof =
     \<lparr>mp_root = compute_merkle_root sample_platform sample_leaves, mp_path = merkle_path sample_platform sample_leaves 1\<rparr>"

theorem merkle_proof_sound_witness:
  "verify_merkle_proof sample_platform (replicate 32 9) sample_proof \<and>
   collide sample_platform (merkle_inputs sample_platform (replicate 32 9) (mp_path sample_proof))
     (merkle_inputs sample_platform (sample_leaves ! 1) (merkle_path sample_platform sample_leaves 1))"
proof -
  have len: "length (sha256 sample_platform x) = 32" for x by (simp add: sample_platform_def)
  have v: "verify_merkle_proof sample_platform (replicate 32 9) sample_proof" by code_simp
  have "replicate 32 9 = sample_leaves ! 1 \<or>
     collide sample_platform (merkle_inputs sample_platform (replicate 32 9) (mp_path sample_proof))
       (merkle_inputs sample_platform (sample_leaves ! 1) (merkle_path sample_platform sample_leaves 1))"
  proof (rule merkle_proof_sound [OF len])
    show "1 < length sample_leaves" "\<forall>l \<in> set sample_leaves. length l = 32"
      by (auto simp: sample_leaves_def)
    show "\<forall>n \<in> set (mp_path sample_proof). length (mn_sibling_hash n) = 32" by code_simp
    show "verify_merkle_proof sample_platform (replicate 32 9) sample_proof" by (rule v)
  qed (simp_all add: sample_proof_def)
  moreover have "replicate 32 9 \<noteq> sample_leaves ! 1" by code_simp
  ultimately show ?thesis using v by blast
qed

text \<open>
  The root does not determine the number of leaves. A list of three leaves has the same root as the
  list in which the third leaf is repeated, so a proof for the index 3 exists for a tree that has only
  three leaves.
\<close>

theorem merkle_root_ambiguous:
  "compute_merkle_root P [a, b, c] = compute_merkle_root P [a, b, c, c] \<and>
   (\<exists>proof. build_merkle_proof P [a, b, c, c] 3 = Some proof \<and> mp_root proof = compute_merkle_root P [a, b, c])"
  by (simp add: compute_merkle_root_def merkle_reduce_step build_merkle_proof_def)

end
