(* ===== verification/State_Facts.thy ===== *)
theory State_Facts
  imports State
begin

text \<open>
  Properties of the replicated chain state of \<^verbatim>\<open>p2p-consensus/src/state.rs\<close>: the hash and the sequence of
  every state the operations reach, synchronisation, the aggregation of evaluations by stake and the
  finalisation of weight votes.
\<close>

section \<open>The chain state as a state machine\<close>

datatype state_event =
    LinkBlock u64 bytes
  | UpdateValidator Hotkey u64
  | RemoveValidator Hotkey
  | AddChallenge ChallengeConfig
  | RemoveChallenge ChallengeId
  | AddEvaluation EvaluationRecord
  | AddValidatorEvaluation string Hotkey ValidatorEvaluation bytes
  | FinalizeEvaluation string
  | AddWeightVote Hotkey "(u16 \<times> u16) list" u64 bytes
  | FinalizeWeights
  | NextEpoch
  | ApplySync ChainState

fun state_step :: "platform \<Rightarrow> ChainState \<Rightarrow> i64 \<times> state_event \<Rightarrow> ChainState" where
  "state_step P s (now, LinkBlock b h) = link_to_bittensor_block P now s b h"
| "state_step P s (now, UpdateValidator h stake) = update_validator P now s h stake"
| "state_step P s (now, RemoveValidator h) = snd (state_remove_validator P now s h)"
| "state_step P s (now, AddChallenge c) = add_challenge P now s c"
| "state_step P s (now, RemoveChallenge i) = snd (remove_challenge P now s i)"
| "state_step P s (now, AddEvaluation r) = add_evaluation P now s r"
| "state_step P s (now, AddValidatorEvaluation i h ev sig) = snd (add_validator_evaluation P now s i h ev sig)"
| "state_step P s (now, FinalizeEvaluation i) = snd (finalize_evaluation P now s i)"
| "state_step P s (now, AddWeightVote h ws e sig) = snd (add_weight_vote_verified P now s h ws e sig)"
| "state_step P s (now, FinalizeWeights) = snd (finalize_weights P now s)"
| "state_step P s (now, NextEpoch) = next_epoch P now s"
| "state_step P s (now, ApplySync s') = snd (apply_sync_state P now s s')"

definition hash_of :: "platform \<Rightarrow> ChainState \<Rightarrow> bytes" where
  "hash_of P s = (case hash_data P (state_hash_input s) of Inr h \<Rightarrow> h | Inl _ \<Rightarrow> zero_hash)"

definition hash_ok :: "platform \<Rightarrow> ChainState \<Rightarrow> bool" where
  "hash_ok P s \<longleftrightarrow> cs_state_hash s = hash_of P s"

lemma update_hash_eq: "update_hash P now s = s\<lparr>cs_last_updated := now, cs_state_hash := hash_of P s\<rparr>"
  by (simp add: update_hash_def hash_of_def)

lemma hash_of_irrelevant [simp]:
  "hash_of P (s\<lparr>cs_last_updated := a\<rparr>) = hash_of P s"
  "hash_of P (s\<lparr>cs_state_hash := b\<rparr>) = hash_of P s"
  "hash_of P (s\<lparr>cs_weight_votes := c\<rparr>) = hash_of P s"
  by (simp_all add: hash_of_def state_hash_input_def)

lemma hash_ok_update_hash [simp]: "hash_ok P (update_hash P now s)"
  by (simp add: hash_ok_def update_hash_eq)

lemma hash_ok_increment [simp]: "hash_ok P (increment_sequence P now s)"
  by (simp add: increment_sequence_def)

lemma sequence_update_hash [simp]: "cs_sequence (update_hash P now s) = cs_sequence s"
  by (simp add: update_hash_def)

lemma sequence_increment [simp]: "cs_sequence (increment_sequence P now s) = cs_sequence s + 1"
  by (simp add: increment_sequence_def)

lemma apply_sync_state_cases:
  "apply_sync_state P now s s' =
     (if cs_sequence s' \<le> cs_sequence s then (Inl (SequenceTooOld (cs_sequence s) (cs_sequence s')), s)
      else if hash_ok P s' then (Inr (), s')
      else (Inl (HashMismatch (hex_encode P (cs_state_hash s')) (hex_encode P (hash_of P s'))), s))"
  by (simp add: apply_sync_state_def Let_def hash_ok_def update_hash_eq)

lemma remove_absent:
  "\<not> hm_contains (cs_validators s) h \<Longrightarrow> state_remove_validator P now s h = (False, s)"
  "\<not> hm_contains (cs_challenges s) i \<Longrightarrow> remove_challenge P now s i = (None, s)"
  by (simp_all add: state_remove_validator_def remove_challenge_def Let_def hm_remove_absent hm_contains_def)

lemma remove_present:
  "hm_contains (cs_validators s) h \<Longrightarrow> state_remove_validator P now s h =
     (True, increment_sequence P now (s\<lparr>cs_validators := hm_remove h (cs_validators s)\<rparr>))"
  "hm_get (cs_challenges s) i = Some c \<Longrightarrow> remove_challenge P now s i =
     (Some c, increment_sequence P now (s\<lparr>cs_challenges := hm_remove i (cs_challenges s)\<rparr>))"
  by (simp_all add: state_remove_validator_def remove_challenge_def Let_def)

text \<open>
  Every call leaves the state as it is, opens the weight votes of an epoch, ends with the hash of
  what it wrote, or takes over a synchronised state whose hash it has checked.
\<close>

inductive state_effect :: "platform \<Rightarrow> i64 \<Rightarrow> ChainState \<Rightarrow> ChainState \<Rightarrow> bool" for P now s where
  kept: "state_effect P now s s"
| opened: "state_effect P now s (s\<lparr>cs_weight_votes := Some w\<rparr>)"
| hashed: "cs_sequence s' = cs_sequence s \<Longrightarrow> state_effect P now s (update_hash P now s')"
| bumped: "cs_sequence s' = cs_sequence s \<Longrightarrow> state_effect P now s (increment_sequence P now s')"
| synced: "cs_sequence s < cs_sequence s' \<Longrightarrow> hash_ok P s' \<Longrightarrow> state_effect P now s s'"

lemma state_step_effect: "state_effect P now s (state_step P s (now, ev))"
proof (cases ev)
  case (RemoveValidator h)
  then show ?thesis
    by (cases "hm_contains (cs_validators s) h") (auto simp: remove_absent remove_present intro: state_effect.intros)
next
  case (RemoveChallenge i)
  then show ?thesis
    by (cases "hm_get (cs_challenges s) i")
      (auto simp: remove_absent remove_present hm_contains_def intro: state_effect.intros)
next
  case (ApplySync s')
  then show ?thesis by (auto simp: apply_sync_state_cases intro: state_effect.intros)
next
  case (AddValidatorEvaluation i h ev sig)
  then show ?thesis
    by (auto simp: add_validator_evaluation_def Let_def intro: state_effect.intros split: sum.splits option.splits)
next
  case (FinalizeEvaluation i)
  then show ?thesis
    by (auto simp: finalize_evaluation_def Let_def intro: state_effect.intros split: option.splits prod.splits)
next
  case (AddWeightVote h ws e sig)
  then show ?thesis
    by (auto simp: add_weight_vote_verified_def Let_def intro: state_effect.intros split: sum.splits)
next
  case FinalizeWeights
  then show ?thesis
    by (auto simp: finalize_weights_def Let_def intro: state_effect.intros split: option.splits prod.splits)
next
  case NextEpoch
  then show ?thesis by (simp add: next_epoch_def Let_def bumped)
qed (auto simp: link_to_bittensor_block_def update_validator_def add_challenge_def add_evaluation_def
    intro!: state_effect.intros)

lemma hash_ok_effect: "state_effect P now s s' \<Longrightarrow> hash_ok P s \<Longrightarrow> hash_ok P s'"
  by (induction rule: state_effect.induct) (simp_all, simp add: hash_ok_def)

interpretation chain: machine "state_step P" "hash_ok P" for P
  using hash_ok_effect [OF state_step_effect] by unfold_locales auto

lemma hash_ok_with_sudo: "hash_ok P (with_sudo P now k netuid)"
  by (simp add: with_sudo_def)

section \<open>Aggregated evaluations\<close>

declare of_nat_unat [simp del]

definition known_evaluations ::
  "(Hotkey, u64) hashmap \<Rightarrow> (Hotkey \<times> ValidatorEvaluation) list \<Rightarrow> (u64 \<times> f64) list" where
  "known_evaluations validators es =
     List.map_filter (\<lambda>(h, e). map_option (\<lambda>stake. (stake, ve_score e)) (hm_get validators h)) es"

lemma known_evaluations_simps [simp]:
  "known_evaluations vs [] = []"
  "known_evaluations vs ((h, e) # es) =
     (case hm_get vs h of Some stake \<Rightarrow> (stake, ve_score e) # known_evaluations vs es | None \<Rightarrow> known_evaluations vs es)"
  by (simp_all add: known_evaluations_def map_filter_simps split: option.splits)

lemma evaluation_sums_eq:
  "evaluation_sums vs es t w =
     (t + sum_list (map fst (known_evaluations vs es)),
      w + (\<Sum>p \<leftarrow> known_evaluations vs es. snd p * real (unat (fst p))))"
  by (induction es arbitrary: t w) (auto simp: add.assoc split: option.splits)

lemma weighted_mean_bounds:
  fixes lo hi :: real
  assumes "\<And>a x. (a, x) \<in> set xs \<Longrightarrow> lo \<le> x \<and> x \<le> hi"
  shows "lo * real (\<Sum>p \<leftarrow> xs. unat (fst p)) \<le> (\<Sum>p \<leftarrow> xs. snd p * real (unat (fst p))) \<and>
         (\<Sum>p \<leftarrow> xs. snd p * real (unat (fst p))) \<le> hi * real (\<Sum>p \<leftarrow> xs. unat (fst p :: u64))"
  using assms
proof (induction xs)
  case (Cons p xs)
  obtain a x where p: "p = (a, x)" by force
  have "lo * real (unat a) \<le> x * real (unat a)" "x * real (unat a) \<le> hi * real (unat a)"
    using Cons.prems [of a x] p by (auto intro: mult_right_mono)
  moreover have "lo * real (\<Sum>p \<leftarrow> xs. unat (fst p)) \<le> (\<Sum>p \<leftarrow> xs. snd p * real (unat (fst p))) \<and>
      (\<Sum>p \<leftarrow> xs. snd p * real (unat (fst p))) \<le> hi * real (\<Sum>p \<leftarrow> xs. unat (fst p))"
    using Cons.prems by (intro Cons.IH) auto
  ultimately show ?case unfolding p by (simp add: distrib_left)
qed simp

lemma finalize_evaluation_eq:
  assumes "hm_get (cs_pending_evaluations s) i = Some r"
    and "known = known_evaluations (cs_validators s) (hm_iter (er_evaluations r))"
    and "(\<Sum>p \<leftarrow> known. unat (fst p)) < 2 ^ 64" and "0 < (\<Sum>p \<leftarrow> known. unat (fst p))"
  shows "fst (finalize_evaluation P now s i) =
      Inr ((\<Sum>p \<leftarrow> known. snd p * real (unat (fst p))) / real (\<Sum>p \<leftarrow> known. unat (fst p)))"
    and "hm_get (cs_pending_evaluations (snd (finalize_evaluation P now s i))) i = None"
proof -
  have tot: "unat (sum_list (map fst known)) = (\<Sum>p \<leftarrow> known. unat (fst p))"
    using unat_sum_list_no_wrap [of "map fst known"] assms(3) by (simp add: comp_def)
  with assms(4) have nz: "sum_list (map fst known) \<noteq> 0" by (metis less_irrefl unat_0)
  note sums = evaluation_sums_eq [of "cs_validators s" "hm_iter (er_evaluations r)" 0 0, folded assms(2)]
  show "fst (finalize_evaluation P now s i) =
      Inr ((\<Sum>p \<leftarrow> known. snd p * real (unat (fst p))) / real (\<Sum>p \<leftarrow> known. unat (fst p)))"
    using nz tot by (simp add: finalize_evaluation_def assms(1) sums Let_def)
  show "hm_get (cs_pending_evaluations (snd (finalize_evaluation P now s i))) i = None"
    using nz by (simp add: finalize_evaluation_def assms(1) sums Let_def increment_sequence_def update_hash_def lookup_delete)
qed

section \<open>Weight votes\<close>

lemma foldl_max:
  fixes a :: real
  shows "a \<le> foldl max a xs \<and> (\<forall>x \<in> set xs. x \<le> foldl max a xs) \<and> foldl max a xs \<in> insert a (set xs)"
proof (induction xs arbitrary: a)
  case (Cons x xs)
  have "max a x \<le> foldl max (max a x) xs" "foldl max (max a x) xs \<in> insert (max a x) (set xs)"
    "\<forall>y \<in> set xs. y \<le> foldl max (max a x) xs"
    using Cons.IH [of "max a x"] by blast+
  then show ?case by (cases "a \<le> x") (auto simp: max_absorb1 max_absorb2)
qed simp

lemma f64_as_u16_max: "f64_as_u16 65535 = 65535"
  by (simp add: f64_as_u16_def)

lemma distinct_normalize: "distinct (map fst (normalize_uid_weights m))"
  by (simp add: normalize_uid_weights_def Let_def comp_def case_prod_beta)

lemma normalize_top:
  assumes "normalize_uid_weights m \<noteq> []"
  shows "\<exists>uid. (uid, 65535) \<in> set (normalize_uid_weights m)"
proof -
  let ?max = "foldl max 0 (hm_values m)"
  have pos: "0 < ?max" using assms by (auto simp: normalize_uid_weights_def Let_def split: if_splits)
  then have "?max \<in> set (hm_values m)" using foldl_max [of 0 "hm_values m"] by auto
  then obtain uid where "(uid, ?max) \<in> set (hm_iter m)" by (auto simp: hm_values_def)
  then have "(uid, f64_as_u16 ((?max / ?max) * 65535)) \<in> set (normalize_uid_weights m)"
    using pos by (force simp: normalize_uid_weights_def Let_def)
  then show ?thesis using pos f64_as_u16_max by auto
qed

lemma finalize_weights_result:
  assumes "cs_weight_votes s = Some votes" and "\<not> wvs_finalized votes"
    and "fst (finalize_weights P now s) = Some ws"
  obtains m where "ws = normalize_uid_weights m"
    and "snd (finalize_weights P now s) = increment_sequence P now
      (s\<lparr>cs_weight_votes := Some (votes\<lparr>wvs_final_weights := Some ws, wvs_finalized := True\<rparr>),
         cs_historical_weights := hm_insert (wvs_epoch votes) ws (cs_historical_weights s)\<rparr>)"
  using assms by (auto simp: finalize_weights_def Let_def split: prod.splits if_splits)

lemma increment_sequence_frame [simp]:
  "cs_weight_votes (increment_sequence P now s) = cs_weight_votes s"
  "cs_historical_weights (increment_sequence P now s) = cs_historical_weights s"
  "cs_epoch (increment_sequence P now s) = cs_epoch s"
  by (simp_all add: increment_sequence_def update_hash_def)

section \<open>Sample states\<close>

definition sample_genesis :: ChainState where
  "sample_genesis = with_sudo sample_platform 0 (Hotkey [1]) 100"

definition sample_next :: ChainState where
  "sample_next = state_step sample_platform sample_genesis (1, UpdateValidator (Hotkey [2]) 10)"

definition sample_forged :: ChainState where
  "sample_forged = sample_next\<lparr>cs_validators := hm_insert (Hotkey [3]) 1000000 hm_new\<rparr>"

definition sample_evaluation :: "f64 \<Rightarrow> ValidatorEvaluation" where
  "sample_evaluation x = \<lparr>ve_score = x, ve_stake = 999, ve_timestamp = 0, ve_signature = []\<rparr>"

definition sample_record :: EvaluationRecord where
  "sample_record =
     \<lparr>er_submission_id = ''s1'', er_challenge_id = 1, er_miner = Hotkey [8], er_agent_hash = ''h'',
      er_evaluations = hm_insert (Hotkey [9]) (sample_evaluation 100)
        (hm_insert (Hotkey [3]) (sample_evaluation 1) (hm_insert (Hotkey [2]) (sample_evaluation 0) hm_new)),
      er_aggregated_score = None, er_finalized = False, er_created_at = 0, er_finalized_at = None\<rparr>"

definition sample_evaluated :: ChainState where
  "sample_evaluated = sample_genesis
     \<lparr>cs_validators := hm_insert (Hotkey [3]) 30 (hm_insert (Hotkey [2]) 10 hm_new),
      cs_pending_evaluations := hm_insert ''s1'' sample_record hm_new\<rparr>"

definition sample_voted :: ChainState where
  "sample_voted = sample_evaluated
     \<lparr>cs_weight_votes := Some
        \<lparr>wvs_epoch = 0, wvs_netuid = 100,
         wvs_votes = hm_insert (Hotkey [3]) [(7, 100)] (hm_insert (Hotkey [2]) [(7, 50), (8, 200)] hm_new),
         wvs_finalized = False, wvs_final_weights = None\<rparr>\<rparr>"

definition sample_vote_sig :: "u8 \<Rightarrow> u64 \<Rightarrow> (u16 \<times> u16) list \<Rightarrow> bytes" where
  "sample_vote_sig i epoch ws = sample_sign [i] (sample_encode (STuple [SU64 epoch, SU16 100, weights_serde ws]))"

definition sample_captured :: ChainState where
  "sample_captured = snd (add_weight_vote_verified sample_platform 5 sample_genesis (Hotkey [9]) [] 77 (sample_vote_sig 9 77 []))"

lemma saturating_sub_less: "saturating_sub a b < x \<Longrightarrow> unat a < unat x + unat b"
  by (auto simp: saturating_sub_def word_less_nat_alt unat_sub_if' split: if_splits)

section \<open>Properties\<close>

text \<open>
  C18. A reached state can be synchronised. Every state that the operations reach from a fresh one carries
  the hash that the receiver recomputes, so \<^verbatim>\<open>apply_sync_state\<close> on any other node takes it over exactly
  when its sequence is higher, and otherwise refuses it as too old without a change.
\<close>

theorem reached_state_syncs:
  "apply_sync_state P now s2 (foldl (state_step P) (with_sudo P t k netuid) es) =
     (if cs_sequence (foldl (state_step P) (with_sudo P t k netuid) es) \<le> cs_sequence s2
      then (Inl (SequenceTooOld (cs_sequence s2) (cs_sequence (foldl (state_step P) (with_sudo P t k netuid) es))), s2)
      else (Inr (), foldl (state_step P) (with_sudo P t k netuid) es))"
  using chain.run_inv [OF hash_ok_with_sudo] by (simp add: apply_sync_state_cases)

text \<open>
  The hash covers counts, not contents. When a node takes over a synchronised state, it takes over just
  as well every state that agrees with it on the sequence, the epoch, the network id, the hash and the
  numbers of validators, challenges and pending evaluations, whatever stakes, challenges or scores
  that state holds.
\<close>

theorem sync_accepts_forged_contents:
  assumes "fst (apply_sync_state P now s s') = Inr ()"
    and "cs_sequence s'' = cs_sequence s'" "cs_epoch s'' = cs_epoch s'" "cs_netuid s'' = cs_netuid s'"
    and "cs_state_hash s'' = cs_state_hash s'" "hm_len (cs_validators s'') = hm_len (cs_validators s')"
    and "hm_len (cs_challenges s'') = hm_len (cs_challenges s')"
    and "hm_len (cs_pending_evaluations s'') = hm_len (cs_pending_evaluations s')"
  shows "apply_sync_state P now s s'' = (Inr (), s'')"
  using assms
  by (auto simp: apply_sync_state_cases hash_ok_def hash_of_def state_hash_input_def split: if_splits)

theorem sync_accepts_forged_contents_witness:
  "hm_get (cs_validators sample_forged) (Hotkey [3]) = Some 1000000 \<and>
   apply_sync_state sample_platform 5 sample_genesis sample_forged = (Inr (), sample_forged)"
proof
  show "hm_get (cs_validators sample_forged) (Hotkey [3]) = Some 1000000" by code_simp
  show "apply_sync_state sample_platform 5 sample_genesis sample_forged = (Inr (), sample_forged)"
  proof (rule sync_accepts_forged_contents)
    show "fst (apply_sync_state sample_platform 5 sample_genesis sample_next) = Inr ()" by code_simp
    show "hm_len (cs_validators sample_forged) = hm_len (cs_validators sample_next)" by code_simp
  qed (simp_all add: sample_forged_def)
qed

text \<open>
  An evaluation is finalised to the stake-weighted mean of the known validators. When the stakes of the
  evaluating validators in the validators map add up to a positive number below 2 ^ 64, the score is
  their weighted mean, so it lies between any bounds on the scores of those validators; evaluations of
  unknown validators have no influence whatever stake they report, and the record leaves the pending
  ones.
\<close>

theorem finalize_evaluation_mean:
  assumes "hm_get (cs_pending_evaluations s) i = Some r"
    and "known = known_evaluations (cs_validators s) (hm_iter (er_evaluations r))"
    and "(\<Sum>p \<leftarrow> known. unat (fst p)) < 2 ^ 64" and "0 < (\<Sum>p \<leftarrow> known. unat (fst p))"
    and "\<And>stake score. (stake, score) \<in> set known \<Longrightarrow> lo \<le> score \<and> score \<le> hi"
  shows "\<exists>a. fst (finalize_evaluation P now s i) = Inr a \<and>
    a * real (\<Sum>p \<leftarrow> known. unat (fst p)) = (\<Sum>p \<leftarrow> known. snd p * real (unat (fst p))) \<and> lo \<le> a \<and> a \<le> hi \<and>
    hm_get (cs_pending_evaluations (snd (finalize_evaluation P now s i))) i = None"
proof -
  let ?t = "real (\<Sum>p \<leftarrow> known. unat (fst p))" and ?w = "\<Sum>p \<leftarrow> known. snd p * real (unat (fst p))"
  have t: "0 < ?t" using assms(4) by simp
  have "lo * ?t \<le> ?w" "?w \<le> hi * ?t" using weighted_mean_bounds [of known lo hi] assms(5) by blast+
  then have "lo \<le> ?w / ?t" "?w / ?t \<le> hi" using t by (simp_all add: pos_le_divide_eq pos_divide_le_eq)
  moreover have "?w / ?t * ?t = ?w" by (rule nonzero_eq_divide_eq [THEN iffD1, OF _ refl]) (use t in linarith)
  ultimately show ?thesis using finalize_evaluation_eq [OF assms(1-4)] by blast
qed

theorem finalize_evaluation_mean_witness:
  "\<exists>a. fst (finalize_evaluation sample_platform 5 sample_evaluated ''s1'') = Inr a \<and> a * 40 = 30 \<and> 0 \<le> a \<and> a \<le> 1"
proof -
  let ?known = "[(10, 0), (30, 1)] :: (u64 \<times> f64) list"
  have r: "hm_get (cs_pending_evaluations sample_evaluated) ''s1'' = Some sample_record"
    by (simp add: sample_evaluated_def lookup_update)
  have k: "?known = known_evaluations (cs_validators sample_evaluated) (hm_iter (er_evaluations sample_record))"
    by (simp add: sample_evaluated_def sample_record_def sample_evaluation_def hm_simps lookup_update)
  have u: "unat (10 :: u64) = 10" "unat (30 :: u64) = 30" by simp_all
  have "\<exists>a. fst (finalize_evaluation sample_platform 5 sample_evaluated ''s1'') = Inr a \<and>
    a * real (\<Sum>p \<leftarrow> ?known. unat (fst p)) = (\<Sum>p \<leftarrow> ?known. snd p * real (unat (fst p))) \<and> 0 \<le> a \<and> a \<le> 1 \<and>
    hm_get (cs_pending_evaluations (snd (finalize_evaluation sample_platform 5 sample_evaluated ''s1''))) ''s1'' = None"
    by (rule finalize_evaluation_mean [OF r k]) auto
  then show ?thesis by (auto simp: u)
qed

text \<open>
  Finalised weights are normalised and final. When \<^verbatim>\<open>finalize_weights\<close> first returns weights for an epoch,
  every uid occurs once, and the heaviest uid (if there is one) has the maximum weight 65535. The
  weights are in the history of the epoch as fractions between 0 and 1, and every later call returns
  the same weights without changing the state.
\<close>

theorem finalize_weights_normalised:
  assumes "cs_weight_votes s = Some votes" and "\<not> wvs_finalized votes"
    and "fst (finalize_weights P now s) = Some ws"
  shows "distinct (map fst ws) \<and> (if ws = [] then True else \<exists>uid. (uid, 65535) \<in> set ws) \<and>
    hm_get (cs_historical_weights (snd (finalize_weights P now s))) (wvs_epoch votes) = Some ws \<and>
    list_all (\<lambda>(uid, w). 0 \<le> w \<and> w \<le> 1)
      (get_aggregated_weights (snd (finalize_weights P now s)) (wvs_epoch votes)) \<and>
    finalize_weights P now' (snd (finalize_weights P now s)) = (Some ws, snd (finalize_weights P now s))"
proof -
  from assms obtain m where ws: "ws = normalize_uid_weights m"
    and s': "snd (finalize_weights P now s) = increment_sequence P now
      (s\<lparr>cs_weight_votes := Some (votes\<lparr>wvs_final_weights := Some ws, wvs_finalized := True\<rparr>),
         cs_historical_weights := hm_insert (wvs_epoch votes) ws (cs_historical_weights s)\<rparr>)"
    by (rule finalize_weights_result)
  have hist: "hm_get (cs_historical_weights (snd (finalize_weights P now s))) (wvs_epoch votes) = Some ws"
    unfolding s' by simp
  moreover have "real (unat w) / 65535 \<le> 1" for w :: u16
    using unsigned_less [of w, where 'a = nat] by (simp add: divide_le_eq)
  then have "list_all (\<lambda>(uid, w). 0 \<le> w \<and> w \<le> 1)
      (get_aggregated_weights (snd (finalize_weights P now s)) (wvs_epoch votes))"
    by (auto simp: get_aggregated_weights_def hist list_all_iff)
  moreover have "finalize_weights P now' (snd (finalize_weights P now s)) = (Some ws, snd (finalize_weights P now s))"
    unfolding s' by (subst finalize_weights_def) simp
  ultimately show ?thesis
    using distinct_normalize normalize_top unfolding ws by auto
qed

theorem finalize_weights_normalised_witness:
  "\<exists>ws. fst (finalize_weights sample_platform 5 sample_voted) = Some ws \<and> distinct (map fst ws)"
proof -
  have v: "cs_weight_votes sample_voted = Some (the (cs_weight_votes sample_voted))" "\<not> wvs_finalized (the (cs_weight_votes sample_voted))"
    by (simp_all add: sample_voted_def)
  have "fst (finalize_weights sample_platform 5 sample_voted) \<noteq> None"
    by (simp add: finalize_weights_def sample_voted_def sample_evaluated_def hm_simps lookup_update Let_def)
  then obtain ws where ws: "fst (finalize_weights sample_platform 5 sample_voted) = Some ws" by blast
  then show ?thesis using finalize_weights_normalised [OF v ws] by blast
qed

text \<open>
  The first signed vote decides which epoch is voted on. \<^verbatim>\<open>add_weight_vote_verified\<close> opens the votes for whatever
  epoch the first vote names, without comparing it with the epoch of the state or asking whether the
  signer is a validator. From then on every vote for another epoch, also for the current one, is
  reported as accepted but leaves the state unchanged until the next epoch.
\<close>

theorem first_vote_captures_epoch:
  assumes "cs_weight_votes s = None"
    and "fst (add_weight_vote_verified P now s h ws epoch sig) = Inr ()" and "epoch' \<noteq> epoch"
    and "fst (add_weight_vote_verified P now' (snd (add_weight_vote_verified P now s h ws epoch sig)) h' ws' epoch' sig') = Inr ()"
  shows "snd (add_weight_vote_verified P now' (snd (add_weight_vote_verified P now s h ws epoch sig)) h' ws' epoch' sig') =
    snd (add_weight_vote_verified P now s h ws epoch sig)"
proof -
  have "\<exists>v. cs_weight_votes (snd (add_weight_vote_verified P now s h ws epoch sig)) = Some v \<and> wvs_epoch v = epoch"
    using assms(1,2) by (auto simp: add_weight_vote_verified_def Let_def update_hash_def split: sum.splits if_splits)
  then obtain v where v: "cs_weight_votes (snd (add_weight_vote_verified P now s h ws epoch sig)) = Some v" "wvs_epoch v = epoch"
    by blast
  show ?thesis
    using assms(3,4) v by (subst add_weight_vote_verified_def) (auto simp: Let_def split: sum.splits)
qed

theorem first_vote_captures_epoch_witness:
  "snd (add_weight_vote_verified sample_platform 6 sample_captured (Hotkey [2]) [(1, 5)] 0 (sample_vote_sig 2 0 [(1, 5)])) =
     sample_captured"
  unfolding sample_captured_def
proof (rule first_vote_captures_epoch)
  show "cs_weight_votes sample_genesis = None" by code_simp
  show "fst (add_weight_vote_verified sample_platform 5 sample_genesis (Hotkey [9]) [] 77 (sample_vote_sig 9 77 [])) = Inr ()"
    by code_simp
  show "fst (add_weight_vote_verified sample_platform 6
      (snd (add_weight_vote_verified sample_platform 5 sample_genesis (Hotkey [9]) [] 77 (sample_vote_sig 9 77 [])))
      (Hotkey [2]) [(1, 5)] 0 (sample_vote_sig 2 0 [(1, 5)])) = Inr ()"
    by code_simp
qed simp

text \<open>
  The history of weights is bounded. As long as the history holds no epoch beyond the current one and the
  epoch counter does not wrap around, \<^verbatim>\<open>next_epoch\<close> leaves at most 100 epochs in it.
\<close>

theorem next_epoch_bounds_history:
  assumes "\<And>e ws. hm_get (cs_historical_weights s) e = Some ws \<Longrightarrow> e \<le> cs_epoch s" and "cs_epoch s \<noteq> - 1"
  shows "hm_len (cs_historical_weights (next_epoch P now s)) \<le> MAX_HISTORICAL_EPOCHS"
proof (cases "hm_len (cs_historical_weights s) > MAX_HISTORICAL_EPOCHS")
  case True
  let ?e = "unat (cs_epoch s)"
  let ?h = "hm_retain (\<lambda>epoch _. epoch > saturating_sub (cs_epoch s + 1) 100) (cs_historical_weights s)"
  have "unat ` dom (hm_get ?h) \<subseteq> {?e - 98..?e}"
  proof
    fix n assume "n \<in> unat ` dom (hm_get ?h)"
    then obtain x ws where n: "n = unat x" "hm_get (cs_historical_weights s) x = Some ws"
        "saturating_sub (cs_epoch s + 1) 100 < x"
      by (auto simp: hm_get_retain split: option.splits if_splits)
    then have "unat x \<le> ?e" "Suc ?e < unat x + 100"
      using assms saturating_sub_less [OF n(3)] by (auto simp: word_le_nat_alt unat_inc_no_wrap)
    then show "n \<in> {?e - 98..?e}" using n(1) by simp
  qed
  then have "card (unat ` dom (hm_get ?h)) \<le> card {?e - 98..?e}" by (intro card_mono) auto
  also have "\<dots> \<le> 99" by simp
  finally have "card (dom (hm_get ?h)) \<le> 99"
    by (subst (asm) card_image) (auto intro: inj_onI unsigned_word_eqI)
  then show ?thesis
    using True by (simp add: next_epoch_def Let_def MAX_HISTORICAL_EPOCHS_def hm_len_card)
qed (simp add: next_epoch_def Let_def)

theorem next_epoch_bounds_history_witness:
  "hm_len (cs_historical_weights (next_epoch sample_platform 5 sample_genesis)) \<le> MAX_HISTORICAL_EPOCHS"
proof (rule next_epoch_bounds_history)
  show "hm_get (cs_historical_weights sample_genesis) e = Some ws \<Longrightarrow> e \<le> cs_epoch sample_genesis" for e ws
    by (simp add: sample_genesis_def with_sudo_def ChainState_default_def update_hash_def)
  show "cs_epoch sample_genesis \<noteq> - 1"
    by (simp add: sample_genesis_def with_sudo_def ChainState_default_def update_hash_def)
qed

end
