(* ===== verification/Network.thy ===== *)
theory Network
  imports Messages
begin

text \<open>
  The message gate of \<^verbatim>\<open>p2p-consensus/src/network.rs\<close>: signing and verifying the envelope of a message,
  the rate limit per signer, the protection against replays by nonces, and the mapping between peers
  and hotkeys. The serialisation of the envelope is the record \<^verbatim>\<open>codec\<close> and the gossip layer's \<^verbatim>\<open>publish\<close>
  is an argument. Every clock read of the code is an argument of its own.
\<close>

section \<open>Definitions\<close>

datatype NetworkError =
    Transport string
  | Gossipsub string
  | Dht string
  | NetSerialization string
  | NoPeers
  | Channel string
  | ReplayAttack string u64 \<comment> \<open>signer, nonce\<close>
  | RateLimitExceeded string u32 \<comment> \<open>signer, count\<close>

type_synonym PeerId = nat

text \<open>The bincode functions of the envelope and of its signing data.\<close>

record codec =
  encode_signing :: "P2PMessage \<Rightarrow> u64 \<Rightarrow> string + bytes"
  encode_signed :: "SignedP2PMessage \<Rightarrow> string + bytes"
  decode_signed :: "bytes \<Rightarrow> string + SignedP2PMessage"

definition signing_bytes :: "codec \<Rightarrow> SignedP2PMessage \<Rightarrow> string + bytes" where
  "signing_bytes C s = encode_signing C (sp_message s) (sp_nonce s)"

fun type_name :: "P2PMessage \<Rightarrow> string" where
  "type_name (P2P_Proposal _) = ''Proposal''"
| "type_name (P2P_PrePrepare _) = ''PrePrepare''"
| "type_name (P2P_Prepare _) = ''Prepare''"
| "type_name (P2P_Commit _) = ''Commit''"
| "type_name (P2P_ViewChange _) = ''ViewChange''"
| "type_name (P2P_NewView _) = ''NewView''"
| "type_name (P2P_StateRequest _) = ''StateRequest''"
| "type_name (P2P_StateResponse _) = ''StateResponse''"
| "type_name (P2P_Submission _) = ''Submission''"
| "type_name (P2P_Evaluation _) = ''Evaluation''"
| "type_name (P2P_WeightVote _) = ''WeightVote''"
| "type_name (P2P_Heartbeat _) = ''Heartbeat''"
| "type_name (P2P_PeerAnnounce _) = ''PeerAnnounce''"

record PeerMapping =
  peer_to_hotkey :: "(PeerId, Hotkey) hashmap"
  hotkey_to_peer :: "(Hotkey, PeerId) hashmap"

definition PeerMapping_new :: PeerMapping where
  "PeerMapping_new = \<lparr>peer_to_hotkey = hm_new, hotkey_to_peer = hm_new\<rparr>"

definition peer_insert :: "PeerMapping \<Rightarrow> PeerId \<Rightarrow> Hotkey \<Rightarrow> PeerMapping" where
  "peer_insert m peer_id h =
     m\<lparr>peer_to_hotkey := hm_insert peer_id h (peer_to_hotkey m),
       hotkey_to_peer := hm_insert h peer_id (hotkey_to_peer m)\<rparr>"

definition get_hotkey :: "PeerMapping \<Rightarrow> PeerId \<Rightarrow> Hotkey option" where
  "get_hotkey m peer_id = hm_get (peer_to_hotkey m) peer_id"

definition get_peer :: "PeerMapping \<Rightarrow> Hotkey \<Rightarrow> PeerId option" where
  "get_peer m h = hm_get (hotkey_to_peer m) h"

definition remove_peer :: "PeerMapping \<Rightarrow> PeerId \<Rightarrow> PeerMapping" where
  "remove_peer m peer_id =
     (let m' = m\<lparr>peer_to_hotkey := hm_remove peer_id (peer_to_hotkey m)\<rparr>
      in case hm_get (peer_to_hotkey m) peer_id of
           Some h \<Rightarrow> m'\<lparr>hotkey_to_peer := hm_remove h (hotkey_to_peer m)\<rparr>
         | None \<Rightarrow> m')"

definition peer_mapping_len :: "PeerMapping \<Rightarrow> usize" where
  "peer_mapping_len m = hm_len (peer_to_hotkey m)"

definition DEFAULT_RATE_LIMIT :: nat where
  "DEFAULT_RATE_LIMIT = 100"

definition RATE_LIMIT_WINDOW_MS :: i64 where
  "RATE_LIMIT_WINDOW_MS = 1000"

definition NONCE_EXPIRY_MS :: i64 where
  "NONCE_EXPIRY_MS = 5 * 60 * 1000"

record P2PNetwork =
  pn_keypair :: Keypair
  pn_peer_mapping :: PeerMapping
  pn_nonce :: u64
  pn_seen_nonces :: "(Hotkey, (u64, i64) hashmap) hashmap"
  pn_message_timestamps :: "(Hotkey, i64 list) hashmap"

definition P2PNetwork_new :: "Keypair \<Rightarrow> P2PNetwork" where
  "P2PNetwork_new k =
     \<lparr>pn_keypair = k, pn_peer_mapping = PeerMapping_new, pn_nonce = 0, pn_seen_nonces = hm_new,
      pn_message_timestamps = hm_new\<rparr>"

definition sign_message ::
  "codec \<Rightarrow> platform \<Rightarrow> P2PNetwork \<Rightarrow> P2PMessage \<Rightarrow> (NetworkError + SignedP2PMessage) \<times> P2PNetwork" where
  "sign_message C P n message =
     (let nonce = pn_nonce n + 1;
          n' = n\<lparr>pn_nonce := nonce\<rparr>;
          env = \<lparr>sp_message = message, sp_signer = hotkey P (pn_keypair n), sp_signature = [], sp_nonce = nonce\<rparr>
      in case signing_bytes C env of
           Inl e \<Rightarrow> (Inl (NetSerialization e), n')
         | Inr bs \<Rightarrow>
             (case sign_bytes P (pn_keypair n) bs of
                Inl e \<Rightarrow> (Inl (NetSerialization (MiniChainError_to_string e)), n')
              | Inr signature \<Rightarrow> (Inr (env\<lparr>sp_signature := signature\<rparr>), n')))"

text \<open>
  \<^verbatim>\<open>broadcast_consensus\<close> and \<^verbatim>\<open>broadcast_challenge\<close> differ in the topic only; the last component is
  what they hand to \<^verbatim>\<open>publish\<close>.
\<close>

definition broadcast ::
  "codec \<Rightarrow> platform \<Rightarrow> (bytes \<Rightarrow> string + unit) \<Rightarrow> P2PNetwork \<Rightarrow> P2PMessage \<Rightarrow>
   (NetworkError + unit) \<times> P2PNetwork \<times> bytes list" where
  "broadcast C P publish n message =
     (case sign_message C P n message of
        (Inl e, n') \<Rightarrow> (Inl e, n', [])
      | (Inr env, n') \<Rightarrow>
          (case encode_signed C env of
             Inl e \<Rightarrow> (Inl (NetSerialization e), n', [])
           | Inr bs \<Rightarrow>
               (case publish bs of
                  Inl e \<Rightarrow> (Inl (Gossipsub e), n', [bs])
                | Inr _ \<Rightarrow> (Inr (), n', [bs]))))"

definition verify_message :: "codec \<Rightarrow> platform \<Rightarrow> SignedP2PMessage \<Rightarrow> bool" where
  "verify_message C P env =
     (case signing_bytes C env of
        Inl _ \<Rightarrow> False
      | Inr bs \<Rightarrow>
          (case verify P \<lparr>sm_message = bs, sm_signature = sp_signature env, sm_signer = sp_signer env\<rparr> of
             Inr valid \<Rightarrow> valid
           | Inl _ \<Rightarrow> False))"

definition entry_or_default :: "('k, 'v) hashmap \<Rightarrow> 'k \<Rightarrow> 'v \<Rightarrow> 'v" where
  "entry_or_default m k d = (case hm_get m k of Some v \<Rightarrow> v | None \<Rightarrow> d)"

definition check_replay ::
  "platform \<Rightarrow> i64 \<Rightarrow> P2PNetwork \<Rightarrow> Hotkey \<Rightarrow> u64 \<Rightarrow> (NetworkError + unit) \<times> P2PNetwork" where
  "check_replay P now_ms n signer nonce =
     (let nonces = hm_retain (\<lambda>_ timestamp. now_ms - timestamp < NONCE_EXPIRY_MS)
            (entry_or_default (pn_seen_nonces n) signer hm_new)
      in if hm_contains nonces nonce
         then (Inl (ReplayAttack (to_hex P signer) nonce),
               n\<lparr>pn_seen_nonces := hm_insert signer nonces (pn_seen_nonces n)\<rparr>)
         else (Inr (), n\<lparr>pn_seen_nonces := hm_insert signer (hm_insert nonce now_ms nonces) (pn_seen_nonces n)\<rparr>))"

text \<open>The loop that removes the timestamps in front that are older than the window.\<close>

fun pop_old :: "i64 \<Rightarrow> i64 list \<Rightarrow> i64 list" where
  "pop_old now_ms [] = []"
| "pop_old now_ms (front # queue) =
     (if now_ms - front > RATE_LIMIT_WINDOW_MS then pop_old now_ms queue else front # queue)"

definition check_rate_limit ::
  "platform \<Rightarrow> i64 \<Rightarrow> P2PNetwork \<Rightarrow> Hotkey \<Rightarrow> (NetworkError + unit) \<times> P2PNetwork" where
  "check_rate_limit P now_ms n signer =
     (let queue = pop_old now_ms (entry_or_default (pn_message_timestamps n) signer [])
      in if length queue \<ge> DEFAULT_RATE_LIMIT
         then (Inl (RateLimitExceeded (to_hex P signer) (of_nat (length queue))),
               n\<lparr>pn_message_timestamps := hm_insert signer queue (pn_message_timestamps n)\<rparr>)
         else (Inr (), n\<lparr>pn_message_timestamps := hm_insert signer (queue @ [now_ms]) (pn_message_timestamps n)\<rparr>))"

definition handle_gossipsub_message ::
  "codec \<Rightarrow> platform \<Rightarrow> i64 \<Rightarrow> i64 \<Rightarrow> P2PNetwork \<Rightarrow> PeerId \<Rightarrow> bytes \<Rightarrow> (NetworkError + P2PMessage) \<times> P2PNetwork" where
  "handle_gossipsub_message C P now1 now2 n source data =
     (case decode_signed C data of
        Inl e \<Rightarrow> (Inl (NetSerialization e), n)
      | Inr env \<Rightarrow>
          if \<not> verify_message C P env then (Inl (Gossipsub ''Invalid message signature''), n)
          else
            case check_rate_limit P now1 n (sp_signer env) of
              (Inl e, n1) \<Rightarrow> (Inl e, n1)
            | (Inr _, n1) \<Rightarrow>
                (case check_replay P now2 n1 (sp_signer env) (sp_nonce env) of
                   (Inl e, n2) \<Rightarrow> (Inl e, n2)
                 | (Inr _, n2) \<Rightarrow>
                     (Inr (sp_message env),
                      if get_hotkey (pn_peer_mapping n2) source = None
                      then n2\<lparr>pn_peer_mapping := peer_insert (pn_peer_mapping n2) source (sp_signer env)\<rparr>
                      else n2)))"

definition clean_old_nonces :: "i64 \<Rightarrow> P2PNetwork \<Rightarrow> u64 \<Rightarrow> P2PNetwork" where
  "clean_old_nonces now_ms n max_age_secs =
     (let max_age_ms = sint (max_age_secs * 1000);
          cleaned = hm_values_mut (hm_retain (\<lambda>_ timestamp. now_ms - timestamp < max_age_ms)) (pn_seen_nonces n)
      in n\<lparr>pn_seen_nonces := hm_retain (\<lambda>_ nonces. hm_len nonces \<noteq> 0) cleaned\<rparr>)"

definition clean_rate_limit_entries :: "i64 \<Rightarrow> P2PNetwork \<Rightarrow> P2PNetwork" where
  "clean_rate_limit_entries now_ms n =
     n\<lparr>pn_message_timestamps :=
         hm_retain (\<lambda>_ queue. queue \<noteq> []) (hm_values_mut (pop_old now_ms) (pn_message_timestamps n))\<rparr>"

definition handle_connection_closed :: "P2PNetwork \<Rightarrow> PeerId \<Rightarrow> P2PNetwork" where
  "handle_connection_closed n peer_id = n\<lparr>pn_peer_mapping := remove_peer (pn_peer_mapping n) peer_id\<rparr>"

section \<open>Replay protection\<close>

datatype net_event =
    Gossip i64 i64 PeerId bytes
  | Send P2PMessage
  | CleanNonces i64 u64
  | CleanRates i64
  | Closed PeerId

fun net_step :: "codec \<Rightarrow> platform \<Rightarrow> P2PNetwork \<Rightarrow> net_event \<Rightarrow> P2PNetwork" where
  "net_step C P n (Gossip now1 now2 source data) = snd (handle_gossipsub_message C P now1 now2 n source data)"
| "net_step C P n (Send m) = snd (sign_message C P n m)"
| "net_step C P n (CleanNonces now age) = clean_old_nonces now n age"
| "net_step C P n (CleanRates now) = clean_rate_limit_entries now n"
| "net_step C P n (Closed peer) = handle_connection_closed n peer"

definition seen_at :: "P2PNetwork \<Rightarrow> Hotkey \<Rightarrow> u64 \<Rightarrow> i64 option" where
  "seen_at n h k = Option.bind (hm_get (pn_seen_nonces n) h) (\<lambda>m. hm_get m k)"

text \<open>An event happens before a nonce recorded at time \<open>t\<close> expires.\<close>

fun before_expiry :: "i64 \<Rightarrow> net_event \<Rightarrow> bool" where
  "before_expiry t (Gossip now1 now2 source data) \<longleftrightarrow> now2 - t < NONCE_EXPIRY_MS"
| "before_expiry t (CleanNonces now age) \<longleftrightarrow> now - t < sint (age * 1000)"
| "before_expiry t _ \<longleftrightarrow> True"

lemma check_rate_limit_frame [simp]:
  "pn_seen_nonces (snd (check_rate_limit P now n h)) = pn_seen_nonces n"
  "pn_peer_mapping (snd (check_rate_limit P now n h)) = pn_peer_mapping n"
  by (simp_all add: check_rate_limit_def Let_def)

lemma check_replay_frame [simp]:
  "pn_message_timestamps (snd (check_replay P now n h k)) = pn_message_timestamps n"
  by (simp add: check_replay_def Let_def)

lemma check_replay_keeps:
  assumes "seen_at n h k = Some t" and "now - t < NONCE_EXPIRY_MS"
  shows "seen_at (snd (check_replay P now n g j)) h k = Some t"
  using assms
  by (auto simp: check_replay_def seen_at_def entry_or_default_def Let_def lookup_update hm_get_retain hm_contains_def
      bind_eq_Some_conv split: if_splits)

lemma check_replay_rejects:
  assumes "seen_at n h k = Some t" and "now - t < NONCE_EXPIRY_MS"
  shows "fst (check_replay P now n h k) = Inl (ReplayAttack (to_hex P h) k)"
  using assms
  by (auto simp: check_replay_def seen_at_def entry_or_default_def Let_def hm_get_retain hm_contains_def bind_eq_Some_conv)

lemma check_replay_records:
  "fst (check_replay P now n h k) = Inr () \<Longrightarrow> seen_at (snd (check_replay P now n h k)) h k = Some now"
  by (auto simp: check_replay_def seen_at_def Let_def split: if_splits)

lemma seen_at_cong: "pn_seen_nonces n = pn_seen_nonces n' \<Longrightarrow> seen_at n h k = seen_at n' h k"
  by (simp add: seen_at_def)

text \<open>The cases of a received message: refused before the nonce is looked at, refused as a replay, or accepted.\<close>

lemma gossip_cases:
  obtains (refused) err where "fst (handle_gossipsub_message C P now1 now2 n source data) = Inl err"
    "pn_seen_nonces (snd (handle_gossipsub_message C P now1 now2 n source data)) = pn_seen_nonces n"
  | (checked) env n1 where "decode_signed C data = Inr env" "verify_message C P env"
    "check_rate_limit P now1 n (sp_signer env) = (Inr (), n1)" "pn_seen_nonces n1 = pn_seen_nonces n"
    "pn_seen_nonces (snd (handle_gossipsub_message C P now1 now2 n source data)) =
       pn_seen_nonces (snd (check_replay P now2 n1 (sp_signer env) (sp_nonce env)))"
    "isl (fst (handle_gossipsub_message C P now1 now2 n source data)) =
       isl (fst (check_replay P now2 n1 (sp_signer env) (sp_nonce env)))"
proof (cases "decode_signed C data")
  case (Inl e)
  then show thesis by (intro refused) (auto simp: handle_gossipsub_message_def)
next
  case (Inr env)
  show thesis
  proof (cases "verify_message C P env")
    case False
    with Inr show thesis by (intro refused) (auto simp: handle_gossipsub_message_def)
  next
    case valid: True
    obtain r n1 where rate: "check_rate_limit P now1 n (sp_signer env) = (r, n1)" by force
    then have same: "pn_seen_nonces n1 = pn_seen_nonces n" using check_rate_limit_frame(1) by (metis snd_conv)
    show thesis
    proof (cases r)
      case (Inl e)
      then show thesis by (intro refused [of e]) (use Inr valid rate same in \<open>auto simp: handle_gossipsub_message_def\<close>)
    next
      case (Inr u)
      then have ok: "check_rate_limit P now1 n (sp_signer env) = (Inr (), n1)" using rate by simp
      obtain r' n2 where "check_replay P now2 n1 (sp_signer env) (sp_nonce env) = (r', n2)" by force
      then show thesis
        by (intro checked [OF \<open>decode_signed C data = Inr env\<close> valid ok same])
          (auto simp: handle_gossipsub_message_def \<open>decode_signed C data = Inr env\<close> valid ok split: sum.splits)
    qed
  qed
qed

lemma net_step_keeps_seen:
  assumes "seen_at n h k = Some t" and "before_expiry t ev"
  shows "seen_at (net_step C P n ev) h k = Some t"
proof (cases ev)
  case (Gossip now1 now2 source data)
  then show ?thesis
    using assms
    by (cases rule: gossip_cases [of C P now1 now2 n source data])
      (auto simp: check_replay_keeps cong: seen_at_cong)
next
  case (Send m)
  then show ?thesis using assms by (auto simp: sign_message_def Let_def seen_at_def split: sum.splits)
next
  case (CleanNonces now age)
  then show ?thesis
    using assms
    by (auto simp: clean_old_nonces_def seen_at_def Let_def hm_get_retain hm_get_values_mut bind_eq_Some_conv hm_len_card
        card_eq_0_iff split: option.splits) (drule fun_cong [of _ _ k], simp add: hm_get_retain)
next
  case (CleanRates now)
  then show ?thesis using assms by (simp add: clean_rate_limit_entries_def seen_at_def)
next
  case (Closed peer)
  then show ?thesis using assms by (simp add: handle_connection_closed_def seen_at_def)
qed

lemma net_run_keeps_seen:
  "seen_at n h k = Some t \<Longrightarrow> list_all (before_expiry t) es \<Longrightarrow> seen_at (foldl (net_step C P) n es) h k = Some t"
  by (induction es arbitrary: n) (auto simp: net_step_keeps_seen)

section \<open>Rate limit\<close>

text \<open>The times at which a sequence of calls lets messages of one signer pass.\<close>

fun passed :: "platform \<Rightarrow> P2PNetwork \<Rightarrow> (Hotkey \<times> i64) list \<Rightarrow> Hotkey \<Rightarrow> i64 list" where
  "passed P n [] h = []"
| "passed P n ((g, now) # calls) h =
     (if g = h \<and> fst (check_rate_limit P now n g) = Inr () then [now] else []) @
     passed P (snd (check_rate_limit P now n g)) calls h"

definition queue_of :: "P2PNetwork \<Rightarrow> Hotkey \<Rightarrow> i64 list" where
  "queue_of n h = entry_or_default (pn_message_timestamps n) h []"

lemma queue_of_check_other: "g \<noteq> h \<Longrightarrow> queue_of (snd (check_rate_limit P now n g)) h = queue_of n h"
  by (simp add: check_rate_limit_def queue_of_def entry_or_default_def Let_def lookup_update)

lemma check_rate_limit_own:
  "check_rate_limit P now n h =
     (if DEFAULT_RATE_LIMIT \<le> length (pop_old now (queue_of n h))
      then (Inl (RateLimitExceeded (to_hex P h) (of_nat (length (pop_old now (queue_of n h))))),
            n\<lparr>pn_message_timestamps := hm_insert h (pop_old now (queue_of n h)) (pn_message_timestamps n)\<rparr>)
      else (Inr (), n\<lparr>pn_message_timestamps := hm_insert h (pop_old now (queue_of n h) @ [now]) (pn_message_timestamps n)\<rparr>))"
  by (simp add: check_rate_limit_def queue_of_def Let_def)

lemma queue_of_insert: "queue_of (n\<lparr>pn_message_timestamps := hm_insert h q ts\<rparr>) h = q"
  by (simp add: queue_of_def entry_or_default_def)

lemma pop_old_suffix: "\<exists>old. q = old @ pop_old now q \<and> (\<forall>x \<in> set old. RATE_LIMIT_WINDOW_MS < now - x)"
proof (induction q)
  case (Cons x q)
  then obtain old where "q = old @ pop_old now q" "\<forall>x \<in> set old. RATE_LIMIT_WINDOW_MS < now - x" by blast
  then show ?case by (cases "RATE_LIMIT_WINDOW_MS < now - x") (force intro: exI [of _ "x # old"])+
qed simp

text \<open>
  With the messages \<open>hist\<close> that have passed so far: the queue is what is left of them after dropping
  times that are out of the window at \<open>now\<close>, and no window within them has more than the limit.
\<close>

definition in_window :: "i64 \<Rightarrow> i64 list \<Rightarrow> i64 list" where
  "in_window t xs = filter (\<lambda>x. t \<le> x \<and> x \<le> t + RATE_LIMIT_WINDOW_MS) xs"

definition rate_inv :: "i64 \<Rightarrow> i64 list \<Rightarrow> i64 list \<Rightarrow> bool" where
  "rate_inv now hist q \<longleftrightarrow>
     (\<exists>old. hist = old @ q \<and> (\<forall>x \<in> set old. RATE_LIMIT_WINDOW_MS < now - x)) \<and>
     (\<forall>x \<in> set hist. x \<le> now) \<and> (\<forall>t. length (in_window t hist) \<le> DEFAULT_RATE_LIMIT)"

lemma rate_inv_pop:
  assumes "rate_inv now hist q" and "now \<le> now'"
  shows "rate_inv now' hist (pop_old now' q)"
proof -
  from assms obtain old where old: "hist = old @ q" "\<forall>x \<in> set old. RATE_LIMIT_WINDOW_MS < now' - x"
    unfolding rate_inv_def by force
  obtain old' where "q = old' @ pop_old now' q" "\<forall>x \<in> set old'. RATE_LIMIT_WINDOW_MS < now' - x"
    using pop_old_suffix by blast
  with old have "hist = (old @ old') @ pop_old now' q \<and> (\<forall>x \<in> set (old @ old'). RATE_LIMIT_WINDOW_MS < now' - x)" by auto
  moreover have "\<forall>x \<in> set hist. x \<le> now'" using assms by (force simp: rate_inv_def)
  ultimately show ?thesis using assms(1) unfolding rate_inv_def by blast
qed

lemma rate_inv_push:
  assumes "rate_inv now hist q" and "length q < DEFAULT_RATE_LIMIT"
  shows "rate_inv now (hist @ [now]) (q @ [now])"
proof -
  from assms obtain old where old: "hist = old @ q" "\<forall>x \<in> set old. RATE_LIMIT_WINDOW_MS < now - x"
    unfolding rate_inv_def by blast
  have "length (in_window t (hist @ [now])) \<le> DEFAULT_RATE_LIMIT" for t
  proof (cases "t \<le> now \<and> now \<le> t + RATE_LIMIT_WINDOW_MS")
    case True
    then have "in_window t old = []" using old(2) by (force simp: in_window_def filter_empty_conv)
    then have "length (in_window t (hist @ [now])) \<le> length (q @ [now])"
      by (simp add: old(1) in_window_def le_SucI)
    then show ?thesis using assms(2) by simp
  next
    case False
    then have "in_window t (hist @ [now]) = in_window t hist" by (auto simp: in_window_def)
    then show ?thesis using assms(1) by (simp add: rate_inv_def)
  qed
  then show ?thesis using assms(1) old unfolding rate_inv_def by force
qed

lemma passed_bounded:
  assumes "sorted (map snd calls)" and "\<forall>(g, now') \<in> set calls. now \<le> now'" and "rate_inv now hist (queue_of n h)"
  shows "length (in_window t (hist @ passed P n calls h)) \<le> DEFAULT_RATE_LIMIT"
  using assms
proof (induction calls arbitrary: n now hist)
  case Nil
  then show ?case by (simp add: rate_inv_def)
next
  case (Cons c calls)
  obtain g now' where c: "c = (g, now')" by force
  let ?n = "snd (check_rate_limit P now' n g)"
  have later: "sorted (map snd calls)" "\<forall>(g, now'') \<in> set calls. now' \<le> now''" "now \<le> now'"
    using Cons.prems c by auto
  have pop: "rate_inv now' hist (pop_old now' (queue_of n h))"
    using Cons.prems(3) later(3) by (rule rate_inv_pop)
  show ?case
  proof (cases "g = h \<and> fst (check_rate_limit P now' n g) = Inr ()")
    case True
    then have "length (pop_old now' (queue_of n h)) < DEFAULT_RATE_LIMIT" "queue_of ?n h = pop_old now' (queue_of n h) @ [now']"
      by (auto simp: check_rate_limit_own queue_of_insert split: if_splits)
    then have "rate_inv now' (hist @ [now']) (queue_of ?n h)" using rate_inv_push [OF pop] by simp
    from Cons.IH [OF later(1,2) this] True show ?thesis by (auto simp: c)
  next
    case False
    have "rate_inv now' hist (queue_of ?n h)"
    proof (cases "g = h")
      case True
      then have "queue_of ?n h = pop_old now' (queue_of n h)"
        using False by (auto simp: check_rate_limit_own queue_of_insert split: if_splits)
      then show ?thesis using pop by simp
    next
      case neq: False
      have "rate_inv now' hist (queue_of n h)"
        using Cons.prems(3) later(3) unfolding rate_inv_def by force
      then show ?thesis using neq by (simp add: queue_of_check_other)
    qed
    from Cons.IH [OF later(1,2) this] False show ?thesis by (auto simp: c)
  qed
qed

section \<open>A sample codec\<close>

definition sample_heartbeat :: P2PMessage where
  "sample_heartbeat = P2P_Heartbeat
     \<lparr>hb_validator = Hotkey [1], hb_state_hash = [], hb_sequence = 0, hb_stake = 5, hb_timestamp = 0, hb_signature = []\<rparr>"

definition sample_env :: SignedP2PMessage where
  "sample_env = \<lparr>sp_message = sample_heartbeat, sp_signer = Hotkey [1], sp_signature = sample_sign [1] [1], sp_nonce = 1\<rparr>"

definition sample_codec :: codec where
  "sample_codec =
     \<lparr>encode_signing = (\<lambda>m k. Inr [ucast k]),
      encode_signed = (\<lambda>e. if e = sample_env then Inr [1] else Inl ''unsupported''),
      decode_signed = (\<lambda>d. if d = [1] then Inr sample_env else Inl ''unexpected end'')\<rparr>"

definition sample_net :: "u8 \<Rightarrow> P2PNetwork" where
  "sample_net i = P2PNetwork_new (sample_key i)"

section \<open>Properties\<close>

lemma gossip_accepted_records:
  assumes "decode_signed C data = Inr env" and "fst (handle_gossipsub_message C P now1 now2 n source data) = Inr m"
  shows "seen_at (snd (handle_gossipsub_message C P now1 now2 n source data)) (sp_signer env) (sp_nonce env) = Some now2"
proof (cases rule: gossip_cases [of C P now1 now2 n source data])
  case (checked env' n1)
  then have "fst (check_replay P now2 n1 (sp_signer env) (sp_nonce env)) = Inr ()"
    using assms by (cases "fst (check_replay P now2 n1 (sp_signer env) (sp_nonce env))") auto
  from check_replay_records [OF this] checked assms(1) show ?thesis by (auto cong: seen_at_cong)
qed (use assms in auto)

text \<open>
  C11. No replay within five minutes. Once the gate has accepted a message with some signer and nonce at time
  \<^verbatim>\<open>t\<close>, it refuses every message with the same signer and nonce before \<^verbatim>\<open>t + NONCE_EXPIRY_MS\<close>, whatever other
  messages, cleanups of the rate limits, closed connections and own messages come in between, and
  whatever cleanups of nonces whose age limit has not been reached.
\<close>

theorem no_replay_before_expiry:
  assumes "decode_signed C d = Inr env" and "fst (handle_gossipsub_message C P t1 t n source d) = Inr m"
    and "list_all (before_expiry t) es" and "t2 - t < NONCE_EXPIRY_MS"
    and "decode_signed C d' = Inr env'" "sp_signer env' = sp_signer env" "sp_nonce env' = sp_nonce env"
  shows "isl (fst (handle_gossipsub_message C P t1' t2
    (foldl (net_step C P) (snd (handle_gossipsub_message C P t1 t n source d)) es) source' d'))"
proof -
  let ?n = "foldl (net_step C P) (snd (handle_gossipsub_message C P t1 t n source d)) es"
  have seen: "seen_at ?n (sp_signer env) (sp_nonce env) = Some t"
    using net_run_keeps_seen [OF gossip_accepted_records [OF assms(1,2)] assms(3)] .
  show ?thesis
  proof (cases rule: gossip_cases [of C P t1' t2 ?n source' d'])
    case (checked e n1)
    then have "seen_at n1 (sp_signer env) (sp_nonce env) = Some t" using seen by (simp add: seen_at_def)
    from check_replay_rejects [OF this assms(4)] checked assms(5-7) show ?thesis by simp
  qed simp
qed

theorem no_replay_before_expiry_witness:
  "isl (fst (handle_gossipsub_message sample_codec sample_platform 70000 70000
    (foldl (net_step sample_codec sample_platform)
       (snd (handle_gossipsub_message sample_codec sample_platform 10 10 (sample_net 2) 4 [1]))
       [CleanNonces 60000 300, CleanRates 60000]) 5 [1]))"
proof (rule no_replay_before_expiry [where env = sample_env and env' = sample_env and m = sample_heartbeat])
  show "decode_signed sample_codec [1] = Inr sample_env" "decode_signed sample_codec [1] = Inr sample_env"
    by (simp_all add: sample_codec_def)
  show "fst (handle_gossipsub_message sample_codec sample_platform 10 10 (sample_net 2) 4 [1]) = Inr sample_heartbeat"
    by code_simp
  show "list_all (before_expiry 10) [CleanNonces 60000 300, CleanRates 60000]"
    by code_simp
  show "70000 - 10 < NONCE_EXPIRY_MS" by (simp add: NONCE_EXPIRY_MS_def)
qed simp_all

text \<open>
  C12. The rate limit holds for every window. For any sequence of calls with a clock that does not go
  back, on a network without earlier messages, at most 100 messages of a signer pass in any span of
  1000 milliseconds, not only in the spans between two resets.
\<close>

theorem rate_limit_sliding:
  assumes "sorted (map snd calls)"
  shows "length (in_window t (passed P (P2PNetwork_new k) calls h)) \<le> 100"
proof -
  have "queue_of (P2PNetwork_new k) h = []" by (simp add: queue_of_def P2PNetwork_new_def entry_or_default_def)
  then have inv: "rate_inv now [] (queue_of (P2PNetwork_new k) h)" for now by (simp add: rate_inv_def in_window_def)
  show ?thesis
  proof (cases calls)
    case (Cons c cs)
    then have "\<forall>(g, now') \<in> set calls. snd c \<le> now'" using assms by auto
    from passed_bounded [OF assms this inv, of t P] show ?thesis by (simp add: DEFAULT_RATE_LIMIT_def)
  qed (simp add: in_window_def)
qed

theorem rate_limit_sliding_witness:
  "length (in_window 0 (passed sample_platform (P2PNetwork_new (sample_key 2)) [(Hotkey [1], 3), (Hotkey [1], 8)] (Hotkey [1]))) \<le> 100"
  by (rule rate_limit_sliding) simp

text \<open>
  C13. What a node broadcasts is accepted. When the envelope can be read back from its bytes, the bytes that
  \<^verbatim>\<open>broadcast_consensus\<close> or \<^verbatim>\<open>broadcast_challenge\<close> hands to the gossip layer are accepted by every node that
  has not seen the nonce and is below the rate limit for the sender, which obtains the original
  message and learns a hotkey for the peer it came from.
\<close>

theorem broadcast_accepted:
  assumes "signing_correct P" and "\<And>e bs. encode_signed C e = Inr bs \<Longrightarrow> decode_signed C bs = Inr e"
    and "broadcast C P publish n m = (r, n', [bs])"
    and "seen_at receiver (hotkey P (pn_keypair n)) (pn_nonce n + 1) = None"
    and "length (queue_of receiver (hotkey P (pn_keypair n))) < 100"
  shows "fst (handle_gossipsub_message C P t1 t2 receiver source bs) = Inr m \<and>
    get_hotkey (pn_peer_mapping (snd (handle_gossipsub_message C P t1 t2 receiver source bs))) source \<noteq> None \<and>
    pn_nonce n' = pn_nonce n + 1"
proof -
  let ?h = "hotkey P (pn_keypair n)"
  from assms(3) obtain sb where sb: "encode_signing C m (pn_nonce n + 1) = Inr sb" and n': "n' = n\<lparr>pn_nonce := pn_nonce n + 1\<rparr>"
    and enc: "encode_signed C \<lparr>sp_message = m, sp_signer = ?h, sp_signature = sr_sign P (pair (pn_keypair n)) sb,
      sp_nonce = pn_nonce n + 1\<rparr> = Inr bs"
    by (auto simp: broadcast_def sign_message_def signing_bytes_def sign_bytes_def Let_def split: sum.splits prod.splits)
  let ?env = "\<lparr>sp_message = m, sp_signer = ?h, sp_signature = sr_sign P (pair (pn_keypair n)) sb, sp_nonce = pn_nonce n + 1\<rparr>"
  have dec: "decode_signed C bs = Inr ?env" using assms(2) enc .
  have ver: "verify_message C P ?env"
    using signed_by_own [OF assms(1), of "pn_keypair n" sb]
    by (simp add: verify_message_def signing_bytes_def sb signed_by_def)
  obtain old where "queue_of receiver ?h = old @ pop_old t1 (queue_of receiver ?h)" using pop_old_suffix by blast
  then have "length (pop_old t1 (queue_of receiver ?h)) < 100"
    using assms(5) by (metis length_append le_add2 order_le_less_trans)
  then obtain n1 where n1: "check_rate_limit P t1 receiver ?h = (Inr (), n1)" and same: "pn_seen_nonces n1 = pn_seen_nonces receiver"
    by (simp add: check_rate_limit_own DEFAULT_RATE_LIMIT_def)
  have "fst (check_replay P t2 n1 ?h (pn_nonce n + 1)) = Inr ()"
    using assms(4) same
    by (auto simp: check_replay_def seen_at_def entry_or_default_def hm_contains_def hm_get_retain Let_def split: option.splits)
  then obtain n2 where n2: "check_replay P t2 n1 ?h (pn_nonce n + 1) = (Inr (), n2)"
    by (cases "check_replay P t2 n1 ?h (pn_nonce n + 1)") auto
  show ?thesis
    by (auto simp: handle_gossipsub_message_def dec ver n1 n2 n' get_hotkey_def peer_insert_def)
qed

theorem broadcast_accepted_witness:
  "fst (handle_gossipsub_message sample_codec sample_platform 5 5 (sample_net 2) 4 [1]) = Inr sample_heartbeat"
proof -
  have b: "broadcast sample_codec sample_platform (\<lambda>_. Inr ()) (sample_net 1) sample_heartbeat =
      (Inr (), (sample_net 1)\<lparr>pn_nonce := 1\<rparr>, [[1]])"
    by code_simp
  have law: "encode_signed sample_codec e = Inr bs \<Longrightarrow> decode_signed sample_codec bs = Inr e" for e bs
    by (simp add: sample_codec_def split: if_splits)
  have seen: "seen_at (sample_net 2) (hotkey sample_platform (pn_keypair (sample_net 1))) (pn_nonce (sample_net 1) + 1) = None"
    by (simp add: sample_net_def P2PNetwork_new_def seen_at_def)
  have queue: "length (queue_of (sample_net 2) (hotkey sample_platform (pn_keypair (sample_net 1)))) < 100"
    by (simp add: sample_net_def P2PNetwork_new_def queue_of_def entry_or_default_def)
  show ?thesis using broadcast_accepted [OF sample_platform_correct law b seen queue] by blast
qed

text \<open>
  A replay uses up the rate limit of its victim. The rate limit is counted before the nonce is checked, so a
  message that is refused as a replay still adds an entry to the signer's queue: replaying an old
  message of a validator 100 times in a second blocks that validator's new messages.
\<close>

theorem replay_counts_against_signer:
  assumes "decode_signed C d = Inr env" and "verify_message C P env"
    and "length (pop_old t1 (queue_of n (sp_signer env))) < 100"
  shows "queue_of (snd (handle_gossipsub_message C P t1 t2 n source d)) (sp_signer env) =
    pop_old t1 (queue_of n (sp_signer env)) @ [t1]"
  using assms check_replay_frame
  by (auto simp: handle_gossipsub_message_def check_rate_limit_own DEFAULT_RATE_LIMIT_def check_replay_def Let_def
      queue_of_def entry_or_default_def)

theorem replay_counts_against_signer_witness:
  "queue_of (snd (handle_gossipsub_message sample_codec sample_platform 7 7
      (snd (handle_gossipsub_message sample_codec sample_platform 5 5 (sample_net 2) 4 [1])) 4 [1])) (Hotkey [1]) = [5, 7]"
proof -
  let ?n = "snd (handle_gossipsub_message sample_codec sample_platform 5 5 (sample_net 2) 4 [1])"
  have d: "decode_signed sample_codec [1] = Inr sample_env" by (simp add: sample_codec_def)
  have v: "verify_message sample_codec sample_platform sample_env" by code_simp
  have q: "pop_old 7 (queue_of ?n (sp_signer sample_env)) = [5]" by code_simp
  have "sp_signer sample_env = Hotkey [1]" by (simp add: sample_env_def)
  then show ?thesis using replay_counts_against_signer [OF d v, of 7 ?n 7 4] q by simp
qed

text \<open>
  Two connections of one validator share the entry of the hotkey: when the first is closed, the
  hotkey has no peer any more although the second is still mapped to it.
\<close>

theorem remove_peer_unmaps_other:
  "get_peer (remove_peer (peer_insert (peer_insert PeerMapping_new 1 h) 2 h) 1) h = None \<and>
   get_hotkey (remove_peer (peer_insert (peer_insert PeerMapping_new 1 h) 2 h) 1) 2 = Some h"
  by (simp add: get_peer_def get_hotkey_def remove_peer_def peer_insert_def PeerMapping_new_def Let_def lookup_update lookup_delete)

end
