(* ===== verification/Epoch_Manager.thy ===== *)
theory Epoch_Manager
  imports State
begin

text \<open>
  The epoch clock (\<^verbatim>\<open>epoch/src/lib.rs\<close> and \<^verbatim>\<open>epoch/src/manager.rs\<close>): epochs of a fixed number of blocks, split
  into an evaluation, a commit, a reveal and a finalisation phase. Block numbers are 64-bit words. A
  division by a zero \<^verbatim>\<open>blocks_per_epoch\<close> panics in the code, which is the value \<^verbatim>\<open>None\<close> here.
\<close>

section \<open>Definitions\<close>

record EpochConfig =
  ec_blocks_per_epoch :: u64
  ec_evaluation_blocks :: u64
  ec_commit_blocks :: u64
  ec_reveal_blocks :: u64
  ec_min_validators_for_consensus :: usize
  ec_weight_smoothing :: f64

definition EpochConfig_default :: EpochConfig where
  "EpochConfig_default =
     \<lparr>ec_blocks_per_epoch = 360, ec_evaluation_blocks = 270, ec_commit_blocks = 45, ec_reveal_blocks = 45,
      ec_min_validators_for_consensus = 3, ec_weight_smoothing = 3 / 10\<rparr>"

datatype EpochPhase = Evaluation | Commit | Reveal | Finalization

fun EpochPhase_display :: "EpochPhase \<Rightarrow> string" where
  "EpochPhase_display Evaluation = ''evaluation''"
| "EpochPhase_display Commit = ''commit''"
| "EpochPhase_display Reveal = ''reveal''"
| "EpochPhase_display Finalization = ''finalization''"

record EpochState =
  es_epoch :: u64
  es_phase :: EpochPhase
  es_start_block :: u64
  es_current_block :: u64
  es_blocks_remaining :: u64

definition EpochState_new :: "u64 \<Rightarrow> u64 \<Rightarrow> EpochConfig \<Rightarrow> EpochState" where
  "EpochState_new epoch start_block config =
     \<lparr>es_epoch = epoch, es_phase = Evaluation, es_start_block = start_block, es_current_block = start_block,
      es_blocks_remaining = ec_evaluation_blocks config\<rparr>"

record EpochManager =
  em_config :: EpochConfig
  em_state :: EpochState

definition EpochManager_new :: "EpochConfig \<Rightarrow> u64 \<Rightarrow> EpochManager option" where
  "EpochManager_new config current_block =
     (if ec_blocks_per_epoch config = 0 then None
      else
        let epoch = current_block div ec_blocks_per_epoch config;
            start_block = epoch * ec_blocks_per_epoch config
        in Some \<lparr>em_config = config, em_state = EpochState_new epoch start_block config\<rparr>)"

definition update_config :: "EpochManager \<Rightarrow> EpochConfig \<Rightarrow> EpochManager" where
  "update_config m new_config = m\<lparr>em_config := new_config\<rparr>"

datatype EpochTransition =
    NewEpoch u64 u64 \<comment> \<open>old epoch, new epoch\<close>
  | PhaseChange u64 EpochPhase EpochPhase \<comment> \<open>epoch, old phase, new phase\<close>

text \<open>The phase and the blocks left in it, from the position within the epoch.\<close>

definition phase_and_remaining :: "EpochConfig \<Rightarrow> u64 \<Rightarrow> EpochPhase \<times> u64" where
  "phase_and_remaining config blocks_into_epoch =
     (if blocks_into_epoch < ec_evaluation_blocks config
      then (Evaluation, saturating_sub (ec_evaluation_blocks config) blocks_into_epoch)
      else if blocks_into_epoch < ec_evaluation_blocks config + ec_commit_blocks config
      then (Commit, saturating_sub (ec_evaluation_blocks config + ec_commit_blocks config) blocks_into_epoch)
      else if blocks_into_epoch < ec_evaluation_blocks config + ec_commit_blocks config + ec_reveal_blocks config
      then (Reveal, saturating_sub
              (ec_evaluation_blocks config + ec_commit_blocks config + ec_reveal_blocks config) blocks_into_epoch)
      else (Finalization, saturating_sub (ec_blocks_per_epoch config) blocks_into_epoch))"

definition on_new_block :: "EpochManager \<Rightarrow> u64 \<Rightarrow> (EpochTransition option \<times> EpochManager) option" where
  "on_new_block m block_number =
     (if ec_blocks_per_epoch (em_config m) = 0 then None
      else
        let config = em_config m;
            state = (em_state m)\<lparr>es_current_block := block_number\<rparr>;
            new_epoch = block_number div ec_blocks_per_epoch config
        in if new_epoch > es_epoch state
           then Some (Some (NewEpoch (es_epoch state) new_epoch),
                  m\<lparr>em_state := state\<lparr>es_epoch := new_epoch,
                      es_start_block := new_epoch * ec_blocks_per_epoch config, es_phase := Evaluation,
                      es_blocks_remaining := ec_evaluation_blocks config\<rparr>\<rparr>)
           else
             let blocks_into_epoch = block_number - es_start_block state;
                 (new_phase, blocks_remaining) = phase_and_remaining config blocks_into_epoch
             in if new_phase \<noteq> es_phase state
                then Some (Some (PhaseChange (es_epoch state) (es_phase state) new_phase),
                       m\<lparr>em_state := state\<lparr>es_phase := new_phase, es_blocks_remaining := blocks_remaining\<rparr>\<rparr>)
                else Some (None, m\<lparr>em_state := state\<lparr>es_blocks_remaining := blocks_remaining\<rparr>\<rparr>))"

definition can_commit :: "EpochManager \<Rightarrow> bool" where
  "can_commit m = (es_phase (em_state m) = Commit)"

definition can_reveal :: "EpochManager \<Rightarrow> bool" where
  "can_reveal m = (es_phase (em_state m) = Reveal)"

definition is_finalizing :: "EpochManager \<Rightarrow> bool" where
  "is_finalizing m = (es_phase (em_state m) = Finalization)"

definition blocks_until_next_phase :: "EpochManager \<Rightarrow> u64" where
  "blocks_until_next_phase m = es_blocks_remaining (em_state m)"

definition epoch_for_block :: "EpochManager \<Rightarrow> u64 \<Rightarrow> u64 option" where
  "epoch_for_block m block =
     (if ec_blocks_per_epoch (em_config m) = 0 then None else Some (block div ec_blocks_per_epoch (em_config m)))"

definition start_block_for_epoch :: "EpochManager \<Rightarrow> u64 \<Rightarrow> u64" where
  "start_block_for_epoch m epoch = epoch * ec_blocks_per_epoch (em_config m)"

definition phase_for_block :: "EpochManager \<Rightarrow> u64 \<Rightarrow> EpochPhase option" where
  "phase_for_block m block =
     (case epoch_for_block m block of
        None \<Rightarrow> None
      | Some epoch \<Rightarrow>
          let config = em_config m;
              blocks_into_epoch = block - start_block_for_epoch m epoch
          in Some
            (if blocks_into_epoch < ec_evaluation_blocks config then Evaluation
             else if blocks_into_epoch < ec_evaluation_blocks config + ec_commit_blocks config then Commit
             else if blocks_into_epoch < ec_evaluation_blocks config + ec_commit_blocks config + ec_reveal_blocks config
             then Reveal
             else Finalization))"

section \<open>The clock\<close>

text \<open>A manager as \<^verbatim>\<open>new\<close> and \<^verbatim>\<open>on_new_block\<close> leave it: the start block is the start of its epoch.\<close>

definition manager_ok :: "EpochManager \<Rightarrow> bool" where
  "manager_ok m \<longleftrightarrow> ec_blocks_per_epoch (em_config m) \<noteq> 0 \<and>
     es_start_block (em_state m) = start_block_for_epoch m (es_epoch (em_state m))"

lemma manager_ok_new: "EpochManager_new config b = Some m \<Longrightarrow> manager_ok m"
  by (auto simp: EpochManager_new_def manager_ok_def start_block_for_epoch_def EpochState_new_def Let_def split: if_splits)

lemma on_new_block_config: "on_new_block m b = Some (t, m') \<Longrightarrow> em_config m' = em_config m"
  by (auto simp: on_new_block_def Let_def split: if_splits prod.splits)

lemma manager_ok_on_new_block:
  assumes "manager_ok m" and "on_new_block m b = Some (t, m')"
  shows "manager_ok m'"
  using assms
  by (auto simp: on_new_block_def manager_ok_def start_block_for_epoch_def Let_def split: if_splits prod.splits)

definition clock_step :: "EpochManager \<Rightarrow> u64 \<Rightarrow> EpochManager" where
  "clock_step m b = (case on_new_block m b of Some (_, m') \<Rightarrow> m' | None \<Rightarrow> m)"

interpretation clock: machine clock_step manager_ok
  using manager_ok_on_new_block by unfold_locales (auto simp: clock_step_def split: option.splits)

lemma phase_and_remaining_phase:
  "fst (phase_and_remaining (em_config m) (b - start_block_for_epoch m (b div ec_blocks_per_epoch (em_config m)))) =
     the (phase_for_block m b)" if "ec_blocks_per_epoch (em_config m) \<noteq> 0"
  using that by (simp add: phase_and_remaining_def phase_for_block_def epoch_for_block_def Let_def)

section \<open>Phases by position\<close>

text \<open>The phase and the remaining blocks on natural numbers, for a configuration whose phases fit into the epoch.\<close>

definition config_ok :: "EpochConfig \<Rightarrow> bool" where
  "config_ok c \<longleftrightarrow> 0 < unat (ec_evaluation_blocks c) \<and> unat (ec_evaluation_blocks c) < unat (ec_blocks_per_epoch c) \<and>
     unat (ec_evaluation_blocks c) + unat (ec_commit_blocks c) + unat (ec_reveal_blocks c) \<le> unat (ec_blocks_per_epoch c)"

definition nat_phase :: "EpochConfig \<Rightarrow> nat \<Rightarrow> EpochPhase" where
  "nat_phase c p =
     (if p < unat (ec_evaluation_blocks c) then Evaluation
      else if p < unat (ec_evaluation_blocks c) + unat (ec_commit_blocks c) then Commit
      else if p < unat (ec_evaluation_blocks c) + unat (ec_commit_blocks c) + unat (ec_reveal_blocks c) then Reveal
      else Finalization)"

definition nat_remaining :: "EpochConfig \<Rightarrow> nat \<Rightarrow> nat" where
  "nat_remaining c p =
     (if p < unat (ec_evaluation_blocks c) then unat (ec_evaluation_blocks c) - p
      else if p < unat (ec_evaluation_blocks c) + unat (ec_commit_blocks c)
      then unat (ec_evaluation_blocks c) + unat (ec_commit_blocks c) - p
      else if p < unat (ec_evaluation_blocks c) + unat (ec_commit_blocks c) + unat (ec_reveal_blocks c)
      then unat (ec_evaluation_blocks c) + unat (ec_commit_blocks c) + unat (ec_reveal_blocks c) - p
      else unat (ec_blocks_per_epoch c) - p)"

lemma unat_saturating_sub: "unat (saturating_sub a b) = unat a - unat b"
  by (auto simp: saturating_sub_def word_less_nat_alt unat_sub_if')

lemma config_ok_sums:
  assumes "config_ok c"
  shows "unat (ec_evaluation_blocks c + ec_commit_blocks c) = unat (ec_evaluation_blocks c) + unat (ec_commit_blocks c)"
    and "unat (ec_evaluation_blocks c + ec_commit_blocks c + ec_reveal_blocks c) =
      unat (ec_evaluation_blocks c) + unat (ec_commit_blocks c) + unat (ec_reveal_blocks c)"
proof -
  have lt: "unat (ec_evaluation_blocks c) + unat (ec_commit_blocks c) + unat (ec_reveal_blocks c) < 2 ^ 64"
    using assms unsigned_less [of "ec_blocks_per_epoch c", where 'a = nat] by (simp add: config_ok_def)
  then show ec: "unat (ec_evaluation_blocks c + ec_commit_blocks c) = unat (ec_evaluation_blocks c) + unat (ec_commit_blocks c)"
    by (simp add: unat_word_ariths)
  show "unat (ec_evaluation_blocks c + ec_commit_blocks c + ec_reveal_blocks c) =
      unat (ec_evaluation_blocks c) + unat (ec_commit_blocks c) + unat (ec_reveal_blocks c)"
    using lt by (subst unat_word_ariths) (simp add: ec)
qed

lemma phase_and_remaining_nat:
  assumes "config_ok c"
  shows "fst (phase_and_remaining c p) = nat_phase c (unat p)"
    and "unat (snd (phase_and_remaining c p)) = nat_remaining c (unat p)"
  by (simp_all add: phase_and_remaining_def nat_phase_def nat_remaining_def unat_saturating_sub word_less_nat_alt
      config_ok_sums [OF assms])

lemma phase_for_block_nat:
  assumes "config_ok (em_config m)"
  shows "phase_for_block m b = Some (nat_phase (em_config m) (unat b mod unat (ec_blocks_per_epoch (em_config m))))"
proof -
  have nz: "ec_blocks_per_epoch (em_config m) \<noteq> 0" using assms by (auto simp: config_ok_def)
  have "unat (b - b div ec_blocks_per_epoch (em_config m) * ec_blocks_per_epoch (em_config m)) =
      unat b mod unat (ec_blocks_per_epoch (em_config m))"
    by (simp add: minus_div_mult_eq_mod unat_mod_distrib)
  then show ?thesis
    using nz by (simp add: phase_for_block_def epoch_for_block_def start_block_for_epoch_def Let_def nat_phase_def
        word_less_nat_alt config_ok_sums [OF assms])
qed

lemma nat_remaining_exact:
  assumes "config_ok c" and "p < unat (ec_blocks_per_epoch c)"
  shows "k < nat_remaining c p \<Longrightarrow> nat_phase c ((p + k) mod unat (ec_blocks_per_epoch c)) = nat_phase c p"
    and "nat_phase c ((p + nat_remaining c p) mod unat (ec_blocks_per_epoch c)) \<noteq> nat_phase c p"
    and "p + nat_remaining c p \<le> unat (ec_blocks_per_epoch c)"
proof -
  show le: "p + nat_remaining c p \<le> unat (ec_blocks_per_epoch c)"
    using assms by (auto simp: nat_remaining_def config_ok_def)
  show "nat_phase c ((p + k) mod unat (ec_blocks_per_epoch c)) = nat_phase c p" if "k < nat_remaining c p"
    using that le by (auto simp: nat_phase_def nat_remaining_def split: if_splits)
  show "nat_phase c ((p + nat_remaining c p) mod unat (ec_blocks_per_epoch c)) \<noteq> nat_phase c p"
  proof (cases "p + nat_remaining c p = unat (ec_blocks_per_epoch c)")
    case True
    then show ?thesis using assms by (auto simp: nat_phase_def nat_remaining_def config_ok_def split: if_splits)
  next
    case False
    then show ?thesis using le assms by (auto simp: nat_phase_def nat_remaining_def config_ok_def split: if_splits)
  qed
qed

lemma on_new_block_same_epoch:
  assumes "manager_ok m" and "b div ec_blocks_per_epoch (em_config m) = es_epoch (em_state m)"
    and "on_new_block m b = Some (t, m')"
  shows "es_epoch (em_state m') = es_epoch (em_state m)" and "es_current_block (em_state m') = b"
    and "(es_phase (em_state m'), blocks_until_next_phase m') =
      phase_and_remaining (em_config m) (b mod ec_blocks_per_epoch (em_config m))"
proof -
  have pos: "b - es_start_block (em_state m) = b mod ec_blocks_per_epoch (em_config m)"
    using assms(1,2) by (simp add: manager_ok_def start_block_for_epoch_def flip: minus_div_mult_eq_mod)
  show "es_epoch (em_state m') = es_epoch (em_state m)" "es_current_block (em_state m') = b"
    "(es_phase (em_state m'), blocks_until_next_phase m') =
      phase_and_remaining (em_config m) (b mod ec_blocks_per_epoch (em_config m))"
    using assms by (auto simp: on_new_block_def blocks_until_next_phase_def pos Let_def split: if_splits prod.splits)
qed

section \<open>Properties\<close>



text \<open>
  Epochs advance with the blocks. When a block of a later epoch is reported, the manager announces the
  step from its epoch to the block's epoch and moves to the start of that epoch in the evaluation
  phase. Reporting any block, also an old one, never takes the manager back to an earlier epoch.
\<close>

theorem epoch_advances:
  assumes "manager_ok m"
  shows "\<exists>t m'. on_new_block m b = Some (t, m') \<and> es_epoch (em_state m) \<le> es_epoch (em_state m') \<and>
    (if es_epoch (em_state m) < b div ec_blocks_per_epoch (em_config m)
     then t = Some (NewEpoch (es_epoch (em_state m)) (b div ec_blocks_per_epoch (em_config m))) \<and>
       epoch_for_block m b = Some (es_epoch (em_state m')) \<and> es_phase (em_state m') = Evaluation \<and>
       es_start_block (em_state m') \<le> b \<and> es_start_block (em_state m') = start_block_for_epoch m (es_epoch (em_state m'))
     else es_epoch (em_state m') = es_epoch (em_state m))"
proof -
  have "b div n * n \<le> b" for n :: u64
  proof -
    have "unat (b mod n) \<le> unat b" by (simp add: unat_mod_distrib)
    then have "b - b mod n \<le> b" by (simp add: word_le_nat_alt unat_sub_if')
    then show ?thesis by (simp add: minus_mod_eq_div_mult)
  qed
  then show ?thesis
    using assms
    by (auto simp: manager_ok_def on_new_block_def epoch_for_block_def start_block_for_epoch_def Let_def split: prod.splits)
qed

definition sample_clock :: "u64 \<Rightarrow> EpochManager" where
  "sample_clock b = the (EpochManager_new EpochConfig_default b)"

theorem epoch_advances_witness:
  "\<exists>m'. on_new_block (sample_clock 0) 725 = Some (Some (NewEpoch 0 2), m') \<and> es_epoch (em_state m') = 2"
proof -
  have ok: "manager_ok (sample_clock 0)"
    by (rule manager_ok_new [of EpochConfig_default 0])
      (simp add: sample_clock_def EpochManager_new_def EpochConfig_default_def Let_def)
  have "es_epoch (em_state (sample_clock 0)) = 0" "ec_blocks_per_epoch (em_config (sample_clock 0)) = 360"
    by (simp_all add: sample_clock_def EpochManager_new_def EpochConfig_default_def EpochState_new_def Let_def)
  then show ?thesis using epoch_advances [OF ok, of 725] by (auto simp: epoch_for_block_def)
qed

text \<open>
  A node that starts, or receives its first block of an epoch, in the middle of the epoch is put into the
  evaluation phase whatever the position in the epoch is; and a block before the current epoch makes the
  position wrap around, which puts the manager into the finalisation phase of the current epoch.
\<close>

theorem epoch_manager_wrong_phase:
  "es_phase (em_state (sample_clock 300)) = Evaluation \<and> phase_for_block (sample_clock 300) 300 = Some Commit \<and>
   map_option (\<lambda>(t, m). es_phase (em_state m)) (on_new_block (sample_clock 0) 660) = Some Evaluation \<and>
   phase_for_block (sample_clock 0) 660 = Some Commit \<and>
   map_option (\<lambda>(t, m). es_phase (em_state m)) (on_new_block (sample_clock 720) 719) = Some Finalization"
  by code_simp

end
