(* ===== verification/Bytes.thy ===== *)
theory Bytes
  imports Prelude
begin

text \<open>
  Byte strings: the bytes of a Rust string and the UTF-8 check of \<^verbatim>\<open>std::str::from_utf8\<close>,
  \<^verbatim>\<open>split_once\<close>, big-endian words, and the lexicographic order that ordered key-value trees
  iterate in. A \<^typ>\<open>string\<close> stands for the UTF-8 bytes of a Rust string, one character a byte.
\<close>

section \<open>Strings and bytes\<close>

definition as_bytes :: "string \<Rightarrow> bytes" where
  "as_bytes s = map of_char s"

definition of_bytes :: "bytes \<Rightarrow> string" where
  "of_bytes bs = map (\<lambda>b. char_of (unat b)) bs"

definition cont_byte :: "u8 \<Rightarrow> bool" where
  "cont_byte b \<longleftrightarrow> 0x80 \<le> b \<and> b \<le> 0xBF"

text \<open>Well-formed UTF-8, by the table of the Unicode standard.\<close>

fun valid_utf8 :: "bytes \<Rightarrow> bool" where
  "valid_utf8 [] = True"
| "valid_utf8 (a # rest) =
     (if a < 0x80 then valid_utf8 rest
      else if 0xC2 \<le> a \<and> a \<le> 0xDF then
        (case rest of b # r \<Rightarrow> cont_byte b \<and> valid_utf8 r | _ \<Rightarrow> False)
      else if 0xE0 \<le> a \<and> a \<le> 0xEF then
        (case rest of b # c # r \<Rightarrow>
             (if a = 0xE0 then 0xA0 \<le> b \<and> b \<le> 0xBF else if a = 0xED then 0x80 \<le> b \<and> b \<le> 0x9F else cont_byte b) \<and>
             cont_byte c \<and> valid_utf8 r
         | _ \<Rightarrow> False)
      else if 0xF0 \<le> a \<and> a \<le> 0xF4 then
        (case rest of b # c # d # r \<Rightarrow>
             (if a = 0xF0 then 0x90 \<le> b \<and> b \<le> 0xBF else if a = 0xF4 then 0x80 \<le> b \<and> b \<le> 0x8F else cont_byte b) \<and>
             cont_byte c \<and> cont_byte d \<and> valid_utf8 r
         | _ \<Rightarrow> False)
      else False)"

definition from_utf8 :: "bytes \<Rightarrow> string option" where
  "from_utf8 bs = (if valid_utf8 bs then Some (of_bytes bs) else None)"

definition split_once :: "char \<Rightarrow> string \<Rightarrow> (string \<times> string) option" where
  "split_once c s = map_option (\<lambda>i. (take i s, drop (Suc i) s)) (position (\<lambda>x. x = c) s)"

definition starts_with :: "bytes \<Rightarrow> bytes \<Rightarrow> bool" where
  "starts_with bs p \<longleftrightarrow> take (length p) bs = p"

definition colon :: u8 where
  "colon = 0x3A"

lemma of_bytes_as_bytes [simp]: "of_bytes (as_bytes s) = s"
proof -
  have "char_of (unat (of_char c :: u8)) = c" for c :: char
  proof -
    have "(of_char c :: nat) < 256" by simp
    then have "unat (of_nat (of_char c :: nat) :: u8) = of_char c"
      by (simp only: unsigned_of_nat) (simp add: take_bit_nat_eq_self)
    then show ?thesis by (simp only: of_nat_of_char) simp
  qed
  then show ?thesis by (simp add: of_bytes_def as_bytes_def map_idI)
qed

lemma as_bytes_inject [simp]: "as_bytes s = as_bytes t \<longleftrightarrow> s = t"
  by (metis of_bytes_as_bytes)

lemma as_bytes_append [simp]: "as_bytes (s @ t) = as_bytes s @ as_bytes t"
  by (simp add: as_bytes_def)

lemma length_as_bytes [simp]: "length (as_bytes s) = length s"
  by (simp add: as_bytes_def)

lemma as_bytes_of_bytes [simp]: "as_bytes (of_bytes bs) = bs"
proof -
  have "of_char (char_of (unat b)) = b" for b :: u8
  proof -
    have "unat b < 256" using unsigned_less [of b, where 'a = nat] by simp
    then have "(of_char (char_of (unat b)) :: nat) = unat b" by (simp add: of_char_of take_bit_nat_eq_self)
    then have "(of_nat (of_char (char_of (unat b)) :: nat) :: u8) = b" by simp
    then show ?thesis by (simp only: of_nat_of_char)
  qed
  then show ?thesis by (simp add: of_bytes_def as_bytes_def comp_def)
qed

lemma colon_char [simp]: "(of_char CHR '':'' :: u8) = colon"
  by (simp add: colon_def of_char_def)

lemma colon_in_as_bytes [simp]: "colon \<in> set (as_bytes s) \<longleftrightarrow> CHR '':'' \<in> set s"
proof -
  have "of_char c = colon \<longleftrightarrow> c = CHR '':''" for c
    using as_bytes_inject [of "[c]" "[CHR '':'']"] by (simp add: as_bytes_def colon_def)
  then have "colon \<in> of_char ` set s \<longleftrightarrow> CHR '':'' \<in> set s" unfolding image_iff by metis
  then show ?thesis by (simp add: as_bytes_def)
qed

lemma valid_utf8_append: "valid_utf8 xs \<Longrightarrow> valid_utf8 (xs @ ys) = valid_utf8 ys"
proof (induction xs rule: length_induct)
  case (1 xs)
  show ?case
  proof (cases xs)
    case (Cons a rest)
    have IH: "valid_utf8 r \<Longrightarrow> valid_utf8 (r @ ys) = valid_utf8 ys" if "length r < Suc (length rest)" for r
      using "1.IH" that Cons by simp
    consider "a < 0x80"
      | "\<not> a < 0x80" "0xC2 \<le> a \<and> a \<le> 0xDF"
      | "\<not> a < 0x80" "\<not> (0xC2 \<le> a \<and> a \<le> 0xDF)" "0xE0 \<le> a \<and> a \<le> 0xEF"
      | "\<not> a < 0x80" "\<not> (0xC2 \<le> a \<and> a \<le> 0xDF)" "\<not> (0xE0 \<le> a \<and> a \<le> 0xEF)"
      by blast
    then show ?thesis
    proof cases
      case 1 then show ?thesis using "1.prems" Cons IH by simp
    next
      case 2 then show ?thesis using "1.prems" IH by (simp only: Cons append_Cons valid_utf8.simps if_False if_True) (auto split: list.splits)
    next
      case 3 then show ?thesis using "1.prems" IH by (simp only: Cons append_Cons valid_utf8.simps if_False if_True) (auto split: list.splits)
    next
      case 4 then show ?thesis using "1.prems" IH by (simp only: Cons append_Cons valid_utf8.simps if_False if_True) (auto split: list.splits if_split_asm)
    qed
  qed simp
qed

lemma valid_utf8_colon [simp]: "valid_utf8 (colon # bs) = valid_utf8 bs"
  by (simp add: colon_def)

declare valid_utf8.simps(2) [simp del]

lemma position_append_first: "(\<forall>x \<in> set xs. \<not> Q x) \<Longrightarrow> Q y \<Longrightarrow> position Q (xs @ y # ys) = Some (length xs)"
  by (induction xs) auto

lemma split_once_first: "c \<notin> set s \<Longrightarrow> split_once c (s @ c # t) = Some (s, t)"
  by (subst split_once_def, subst position_append_first) auto

section \<open>Big-endian words\<close>

primrec be_digits :: "nat \<Rightarrow> nat \<Rightarrow> bytes" where
  "be_digits 0 x = []"
| "be_digits (Suc n) x = be_digits n (x div 256) @ [of_nat x]"

definition to_be_bytes :: "u64 \<Rightarrow> bytes" where
  "to_be_bytes w = be_digits 8 (unat w)"

definition be_val :: "bytes \<Rightarrow> nat" where
  "be_val bs = foldl (\<lambda>acc b. acc * 256 + unat b) 0 bs"

definition from_be_bytes :: "bytes \<Rightarrow> u64" where
  "from_be_bytes bs = of_nat (be_val bs)"

lemma length_be_digits [simp]: "length (be_digits n x) = n"
  by (induction n arbitrary: x) auto

lemma length_to_be_bytes [simp]: "length (to_be_bytes w) = 8"
  by (simp add: to_be_bytes_def)

lemma be_val_snoc [simp]: "be_val (bs @ [b]) = be_val bs * 256 + unat b"
  by (simp add: be_val_def)

lemma be_val_Nil [simp]: "be_val [] = 0"
  by (simp add: be_val_def)

lemma unat_u8_less: "unat (b :: u8) < 256"
  using unsigned_less [of b, where 'a = nat] by simp

lemma be_val_less: "be_val bs < 256 ^ length bs"
proof (induction bs rule: rev_induct)
  case (snoc b bs)
  then show ?case using unat_u8_less [of b] by simp
qed simp

lemma be_val_digits: "x < 256 ^ n \<Longrightarrow> be_val (be_digits n x) = x"
proof (induction n arbitrary: x)
  case (Suc n)
  then have "x div 256 < 256 ^ n" by (simp add: less_mult_imp_div_less mult.commute)
  moreover have "unat (of_nat x :: u8) = x mod 256"
    by (simp add: unsigned_of_nat take_bit_eq_mod)
  ultimately show ?case using Suc.IH [of "x div 256"] by simp
qed simp

lemma be_val_to_be_bytes [simp]: "be_val (to_be_bytes w) = unat w"
  unfolding to_be_bytes_def
  by (rule be_val_digits) (use unsigned_less [of w, where 'a = nat] in simp)

lemma from_to_be_bytes [simp]: "from_be_bytes (to_be_bytes w) = w"
  by (simp add: from_be_bytes_def)

lemma digit_inject: "a * 256 + b = c * 256 + d \<Longrightarrow> b < 256 \<Longrightarrow> d < 256 \<Longrightarrow> a = c \<and> b = d" for a b c d :: nat
proof
  assume *: "a * 256 + b = c * 256 + d" "b < 256" "d < 256"
  show "a = c" using arg_cong [OF *(1), of "\<lambda>x. x div 256"] *(2,3) by simp
  then show "b = d" using *(1) by simp
qed

lemma be_val_inject: "length xs = length ys \<Longrightarrow> be_val xs = be_val ys \<Longrightarrow> xs = ys"
proof (induction xs arbitrary: ys rule: rev_induct)
  case (snoc x xs)
  obtain zs z where ys: "ys = zs @ [z]" using snoc.prems(1) by (cases ys rule: rev_cases) auto
  have "be_val xs = be_val zs \<and> unat x = unat z"
    using snoc.prems(2) unfolding ys be_val_snoc by (rule digit_inject) (rule unat_u8_less)+
  then show ?case using snoc.IH [of zs] snoc.prems(1) ys by (simp add: word_unat_eq_iff)
qed simp

lemma less_snoc: "length (xs :: bytes) = length ys \<Longrightarrow> xs @ [x] < ys @ [y] \<longleftrightarrow> xs < ys \<or> xs = ys \<and> x < y"
  by (induction xs ys rule: list_induct2) auto

lemma less_iff_be_val: "length xs = length ys \<Longrightarrow> xs < ys \<longleftrightarrow> be_val xs < be_val ys"
proof (induction xs arbitrary: ys rule: rev_induct)
  case (snoc x xs)
  obtain zs z where ys: "ys = zs @ [z]" using snoc.prems by (cases ys rule: rev_cases) auto
  then have len: "length xs = length zs" using snoc.prems by simp
  have "be_val (xs @ [x]) < be_val (zs @ [z]) \<longleftrightarrow>
      be_val xs < be_val zs \<or> be_val xs = be_val zs \<and> unat x < unat z"
    using unat_u8_less [of x] unat_u8_less [of z] unfolding be_val_snoc by linarith
  then show ?case
    using snoc.IH [OF len] be_val_inject [OF len]
    by (auto simp: ys less_snoc [OF len] word_less_nat_alt simp del: be_val_snoc)
qed simp

lemma to_be_bytes_less [simp]: "to_be_bytes v < to_be_bytes w \<longleftrightarrow> v < w"
  by (simp add: less_iff_be_val word_less_nat_alt)

lemma to_be_bytes_inject [simp]: "to_be_bytes v = to_be_bytes w \<longleftrightarrow> v = w"
  by (metis from_to_be_bytes)

section \<open>The lexicographic order\<close>

lemma append_less_same [simp]: "p @ xs < p @ (ys :: bytes) \<longleftrightarrow> xs < ys"
  by (induction p) auto

lemma append_le_same [simp]: "p @ xs \<le> p @ (ys :: bytes) \<longleftrightarrow> xs \<le> ys"
  by (induction p) auto

lemma less_append_diff: "length xs = length ys \<Longrightarrow> xs \<noteq> ys \<Longrightarrow> xs @ us < ys @ (vs :: bytes) \<longleftrightarrow> xs < ys"
  by (induction xs ys rule: list_induct2) auto

lemma between_prefix: "p @ xs \<le> k \<Longrightarrow> k < p @ ys \<Longrightarrow> \<exists>zs. k = p @ (zs :: bytes)"
proof (induction p arbitrary: k)
  case (Cons a p)
  then obtain b k' where "k = b # k'" by (cases k) auto
  with Cons show ?case by (auto simp: order_le_less)
qed auto

end
