(* ===== verification/Commit_Reveal.thy ===== *)
theory Commit_Reveal
  imports State Bytes
begin

text \<open>
  The commit-reveal scheme for weights (\<^verbatim>\<open>epoch/src/commit_reveal.rs\<close>) with the weight utilities it calls
  (\<^verbatim>\<open>challenge-sdk/src/weights.rs\<close>). The little-endian bytes of a floating-point weight are the function
  argument \<^verbatim>\<open>le_bytes\<close>, since weights are real numbers here. Indexing the first of no submissions
  panics in the code, which is the value \<^verbatim>\<open>None\<close>.
\<close>

section \<open>Weight assignments\<close>

record WeightAssignment =
  wa_hotkey :: string
  wa_weight :: f64

definition WeightAssignment_new :: "string \<Rightarrow> f64 \<Rightarrow> WeightAssignment" where
  "WeightAssignment_new h w = \<lparr>wa_hotkey = h, wa_weight = max 0 (min 1 w)\<rparr>"

text \<open>The ordering of strings by their bytes.\<close>

fun str_le :: "string \<Rightarrow> string \<Rightarrow> bool" where
  "str_le [] b = True"
| "str_le (x # a) [] = False"
| "str_le (x # a) (y # b) = (if x = y then str_le a b else (of_char x :: nat) < of_char y)"

definition hotkey_le :: "WeightAssignment \<Rightarrow> WeightAssignment \<Rightarrow> bool" where
  "hotkey_le a b = str_le (wa_hotkey a) (wa_hotkey b)"

definition commitment_input :: "(f64 \<Rightarrow> bytes) \<Rightarrow> WeightAssignment list \<Rightarrow> bytes \<Rightarrow> bytes" where
  "commitment_input le_bytes weights secret =
     concat (map (\<lambda>w. as_bytes (wa_hotkey w) @ le_bytes (wa_weight w)) (sort_by hotkey_le weights)) @ secret"

definition create_commitment :: "platform \<Rightarrow> (f64 \<Rightarrow> bytes) \<Rightarrow> WeightAssignment list \<Rightarrow> bytes \<Rightarrow> string" where
  "create_commitment P le_bytes weights secret = hex_encode P (sha256 P (commitment_input le_bytes weights secret))"

definition normalize_weights :: "WeightAssignment list \<Rightarrow> WeightAssignment list" where
  "normalize_weights weights =
     (let total = sum_list (map wa_weight weights)
      in if total > 0 then map (\<lambda>w. w\<lparr>wa_weight := wa_weight w / total\<rparr>) weights else weights)"

definition scores_to_weights :: "(string \<times> f64) list \<Rightarrow> WeightAssignment list" where
  "scores_to_weights scores =
     (if scores = [] then []
      else let total = sum_list (map snd scores)
           in if total \<le> 0 then []
              else map (\<lambda>(h, score). WeightAssignment_new h (score / total)) scores)"

section \<open>The commit-reveal state\<close>

record WeightCommitment =
  wc_validator :: Hotkey
  wc_challenge_id :: ChallengeId
  wc_epoch :: u64
  wc_commitment_hash :: string
  wc_timestamp :: i64

record WeightReveal =
  wr_validator :: Hotkey
  wr_challenge_id :: ChallengeId
  wr_epoch :: u64
  wr_weights :: "WeightAssignment list"
  wr_secret :: bytes
  wr_timestamp :: i64

record FinalizedWeights =
  fw_challenge_id :: ChallengeId
  fw_epoch :: u64
  fw_weights :: "WeightAssignment list"
  fw_participating_validators :: "Hotkey list"
  fw_excluded_validators :: "Hotkey list"
  fw_smoothing_applied :: f64
  fw_finalized_at :: i64

datatype CommitRevealError =
    WrongEpoch u64 u64 \<comment> \<open>expected, got\<close>
  | WrongChallenge
  | AlreadyCommitted
  | AlreadyRevealed
  | NoCommitment
  | CommitmentMismatch
  | InsufficientValidators usize usize \<comment> \<open>required, got\<close>
  | AggregationFailed string

record CommitRevealState =
  cr_epoch :: u64
  cr_challenge_id :: ChallengeId
  cr_commitments :: "(Hotkey, WeightCommitment) hashmap"
  cr_reveals :: "(Hotkey, WeightReveal) hashmap"
  cr_missing_reveals :: "Hotkey list"
  cr_mismatched_reveals :: "Hotkey list"

definition CommitRevealState_new :: "u64 \<Rightarrow> ChallengeId \<Rightarrow> CommitRevealState" where
  "CommitRevealState_new epoch challenge_id =
     \<lparr>cr_epoch = epoch, cr_challenge_id = challenge_id, cr_commitments = hm_new, cr_reveals = hm_new,
      cr_missing_reveals = [], cr_mismatched_reveals = []\<rparr>"

definition submit_commitment ::
  "CommitRevealState \<Rightarrow> WeightCommitment \<Rightarrow> (CommitRevealError + unit) \<times> CommitRevealState" where
  "submit_commitment s c =
     (if wc_epoch c \<noteq> cr_epoch s then (Inl (WrongEpoch (cr_epoch s) (wc_epoch c)), s)
      else if wc_challenge_id c \<noteq> cr_challenge_id s then (Inl WrongChallenge, s)
      else if hm_contains (cr_commitments s) (wc_validator c) then (Inl AlreadyCommitted, s)
      else (Inr (), s\<lparr>cr_commitments := hm_insert (wc_validator c) c (cr_commitments s)\<rparr>))"

definition submit_reveal ::
  "platform \<Rightarrow> (f64 \<Rightarrow> bytes) \<Rightarrow> CommitRevealState \<Rightarrow> WeightReveal \<Rightarrow> (CommitRevealError + unit) \<times> CommitRevealState" where
  "submit_reveal P le_bytes s r =
     (if wr_epoch r \<noteq> cr_epoch s then (Inl (WrongEpoch (cr_epoch s) (wr_epoch r)), s)
      else
        case hm_get (cr_commitments s) (wr_validator r) of
          None \<Rightarrow> (Inl NoCommitment, s)
        | Some commitment \<Rightarrow>
            let computed_hash = create_commitment P le_bytes (wr_weights r) (wr_secret r)
            in if computed_hash \<noteq> wc_commitment_hash commitment
               then (Inl CommitmentMismatch,
                     s\<lparr>cr_mismatched_reveals := cr_mismatched_reveals s @ [wr_validator r]\<rparr>)
               else if hm_contains (cr_reveals s) (wr_validator r) then (Inl AlreadyRevealed, s)
               else (Inr (), s\<lparr>cr_reveals := hm_insert (wr_validator r) r (cr_reveals s)\<rparr>))"

text \<open>
  The inner loop of the divergence check: whether some weight of a submission is for a hotkey that
  the first submission does not have or differs from it by more than the tolerance. Collecting into
  a map keeps the last weight of a hotkey. The result of the check is only logged by \<^verbatim>\<open>finalize\<close>.
\<close>

definition WEIGHT_TOLERANCE :: f64 where
  "WEIGHT_TOLERANCE = 1 / 1000"

definition first_weights :: "WeightAssignment list \<Rightarrow> (string, f64) hashmap" where
  "first_weights ws = foldl (\<lambda>m w. hm_insert (wa_hotkey w) (wa_weight w) m) hm_new ws"

fun weights_diverge :: "(string, f64) hashmap \<Rightarrow> WeightAssignment list \<Rightarrow> bool" where
  "weights_diverge m [] = False"
| "weights_diverge m (w # ws) =
     (case hm_get m (wa_hotkey w) of
        None \<Rightarrow> True
      | Some first_weight \<Rightarrow>
          if \<bar>wa_weight w - first_weight\<bar> > WEIGHT_TOLERANCE then True else weights_diverge m ws)"

fun submissions_diverge :: "WeightAssignment list \<Rightarrow> WeightAssignment list list \<Rightarrow> bool" where
  "submissions_diverge first [] = False"
| "submissions_diverge first (ws # rest) =
     (if length ws \<noteq> length first then True
      else if weights_diverge (first_weights first) ws then True
      else submissions_diverge first rest)"

definition check_submission_divergence :: "WeightAssignment list list \<Rightarrow> bool" where
  "check_submission_divergence submissions =
     (if length submissions \<le> 1 then False else submissions_diverge (hd submissions) (tl submissions))"

definition newly_missing :: "CommitRevealState \<Rightarrow> Hotkey list" where
  "newly_missing s =
     filter (\<lambda>v. \<not> hm_contains (cr_reveals s) v \<and> v \<notin> set (cr_mismatched_reveals s)) (hm_keys (cr_commitments s))"

definition finalize ::
  "i64 \<Rightarrow> CommitRevealState \<Rightarrow> f64 \<Rightarrow> usize \<Rightarrow> ((CommitRevealError + FinalizedWeights) \<times> CommitRevealState) option" where
  "finalize now s smoothing min_validators =
     (let s1 = s\<lparr>cr_missing_reveals := cr_missing_reveals s @ newly_missing s\<rparr>;
          submissions = map wr_weights (hm_values (cr_reveals s1))
      in if length submissions < min_validators
         then Some (Inl (InsufficientValidators min_validators (length submissions)), s1)
         else case submissions of
                [] \<Rightarrow> None
              | first # _ \<Rightarrow>
                  Some (Inr \<lparr>fw_challenge_id = cr_challenge_id s1, fw_epoch = cr_epoch s1,
                             fw_weights = normalize_weights first,
                             fw_participating_validators = hm_keys (cr_reveals s1),
                             fw_excluded_validators = cr_missing_reveals s1 @ cr_mismatched_reveals s1,
                             fw_smoothing_applied = 0, fw_finalized_at = now\<rparr>, s1))"

definition commitment_count :: "CommitRevealState \<Rightarrow> usize" where
  "commitment_count s = hm_len (cr_commitments s)"

definition reveal_count :: "CommitRevealState \<Rightarrow> usize" where
  "reveal_count s = hm_len (cr_reveals s)"

definition has_committed :: "CommitRevealState \<Rightarrow> Hotkey \<Rightarrow> bool" where
  "has_committed s v = hm_contains (cr_commitments s) v"

definition has_revealed :: "CommitRevealState \<Rightarrow> Hotkey \<Rightarrow> bool" where
  "has_revealed s v = hm_contains (cr_reveals s) v"

section \<open>The manager of all epochs and challenges\<close>

type_synonym CommitRevealManager = "(u64 \<times> ChallengeId, CommitRevealState) hashmap"

definition get_or_create :: "CommitRevealManager \<Rightarrow> u64 \<Rightarrow> ChallengeId \<Rightarrow> CommitRevealManager" where
  "get_or_create states epoch challenge_id =
     (if hm_contains states (epoch, challenge_id) then states
      else hm_insert (epoch, challenge_id) (CommitRevealState_new epoch challenge_id) states)"

definition manager_commit ::
  "CommitRevealManager \<Rightarrow> u64 \<Rightarrow> ChallengeId \<Rightarrow> WeightCommitment \<Rightarrow> (CommitRevealError + unit) \<times> CommitRevealManager" where
  "manager_commit states epoch challenge_id c =
     (let state = (case hm_get states (epoch, challenge_id) of
                     Some st \<Rightarrow> st | None \<Rightarrow> CommitRevealState_new epoch challenge_id);
          (r, state') = submit_commitment state c
      in (r, hm_insert (epoch, challenge_id) state' states))"

definition manager_reveal ::
  "platform \<Rightarrow> (f64 \<Rightarrow> bytes) \<Rightarrow> CommitRevealManager \<Rightarrow> u64 \<Rightarrow> ChallengeId \<Rightarrow> WeightReveal \<Rightarrow>
   (CommitRevealError + unit) \<times> CommitRevealManager" where
  "manager_reveal P le_bytes states epoch challenge_id r =
     (case hm_get states (epoch, challenge_id) of
        None \<Rightarrow> (Inl NoCommitment, states)
      | Some state \<Rightarrow>
          let (res, state') = submit_reveal P le_bytes state r
          in (res, hm_insert (epoch, challenge_id) state' states))"

definition manager_finalize ::
  "i64 \<Rightarrow> CommitRevealManager \<Rightarrow> u64 \<Rightarrow> ChallengeId \<Rightarrow> f64 \<Rightarrow> usize \<Rightarrow>
   ((CommitRevealError + FinalizedWeights) \<times> CommitRevealManager) option" where
  "manager_finalize now states epoch challenge_id smoothing min_validators =
     (case hm_get states (epoch, challenge_id) of
        None \<Rightarrow> Some (Inl (InsufficientValidators min_validators 0), states)
      | Some state \<Rightarrow>
          map_option (\<lambda>(res, state'). (res, hm_insert (epoch, challenge_id) state' states))
            (finalize now state smoothing min_validators))"

definition cleanup_old_epochs :: "CommitRevealManager \<Rightarrow> u64 \<Rightarrow> u64 \<Rightarrow> CommitRevealManager" where
  "cleanup_old_epochs states current_epoch keep_epochs =
     (let cutoff = saturating_sub current_epoch keep_epochs
      in hm_retain (\<lambda>(epoch, _) _. epoch \<ge> cutoff) states)"

section \<open>The order of assignments does not matter\<close>

lemma str_le_total: "str_le a b \<or> str_le b a"
  by (induction a b rule: str_le.induct) (auto simp: less_le)

lemma str_le_antisym: "str_le a b \<Longrightarrow> str_le b a \<Longrightarrow> a = b"
proof (induction a b rule: str_le.induct)
  case (1 b)
  then show ?case by (cases b) auto
qed (auto split: if_splits)

lemma str_le_trans: "str_le a b \<Longrightarrow> str_le b c \<Longrightarrow> str_le a c"
proof (induction a b arbitrary: c rule: str_le.induct)
  case (3 x a y b)
  then show ?case by (cases c) (auto split: if_splits)
qed auto

interpretation by_hotkey: comparator hotkey_le
  by unfold_locales (auto simp: hotkey_le_def str_le_total intro: str_le_trans)

lemma commitment_input_perm:
  assumes "mset ws = mset ws'" and "distinct (map wa_hotkey ws)"
  shows "commitment_input le_bytes ws secret = commitment_input le_bytes ws' secret"
proof -
  have "a = b" if "a \<in> set ws" "b \<in> set ws" "hotkey_le a b" "hotkey_le b a" for a b
    using that assms(2) str_le_antisym by (auto simp: hotkey_le_def distinct_map dest: inj_onD)
  then have "sort_by hotkey_le ws = sort_by hotkey_le ws'" using assms(1) by (intro by_hotkey.sort_by_unique)
  then show ?thesis by (simp add: commitment_input_def)
qed

section \<open>Reveals open commitments\<close>

datatype cr_event =
    SubmitCommitment WeightCommitment
  | SubmitReveal WeightReveal
  | Finalize i64 f64 usize

fun cr_step :: "platform \<Rightarrow> (f64 \<Rightarrow> bytes) \<Rightarrow> CommitRevealState \<Rightarrow> cr_event \<Rightarrow> CommitRevealState" where
  "cr_step P le_bytes s (SubmitCommitment c) = snd (submit_commitment s c)"
| "cr_step P le_bytes s (SubmitReveal r) = snd (submit_reveal P le_bytes s r)"
| "cr_step P le_bytes s (Finalize now smoothing min_validators) =
     (case finalize now s smoothing min_validators of Some (_, s') \<Rightarrow> s' | None \<Rightarrow> s)"

definition cr_inv :: "platform \<Rightarrow> (f64 \<Rightarrow> bytes) \<Rightarrow> CommitRevealState \<Rightarrow> bool" where
  "cr_inv P le_bytes s \<longleftrightarrow>
     (\<forall>v c. hm_get (cr_commitments s) v = Some c \<longrightarrow>
        wc_validator c = v \<and> wc_epoch c = cr_epoch s \<and> wc_challenge_id c = cr_challenge_id s) \<and>
     (\<forall>v r. hm_get (cr_reveals s) v = Some r \<longrightarrow> wr_validator r = v \<and> wr_epoch r = cr_epoch s \<and>
        (\<exists>c. hm_get (cr_commitments s) v = Some c \<and>
          create_commitment P le_bytes (wr_weights r) (wr_secret r) = wc_commitment_hash c))"

lemma finalize_frame:
  "finalize now s smoothing k = Some (res, s') \<Longrightarrow>
     s' = s\<lparr>cr_missing_reveals := cr_missing_reveals s @ newly_missing s\<rparr>"
  by (auto simp: finalize_def Let_def split: if_splits list.splits)

lemma cr_inv_submit_commitment: "cr_inv P le_bytes s \<Longrightarrow> cr_inv P le_bytes (snd (submit_commitment s c))"
  by (auto simp: submit_commitment_def cr_inv_def lookup_update hm_contains_def) force

lemma cr_inv_submit_reveal: "cr_inv P le_bytes s \<Longrightarrow> cr_inv P le_bytes (snd (submit_reveal P le_bytes s r))"
  by (auto simp: submit_reveal_def cr_inv_def lookup_update Let_def split: option.splits)

interpretation commit_reveal: machine "cr_step P le_bytes" "cr_inv P le_bytes" for P le_bytes
proof
  fix s e
  assume inv: "cr_inv P le_bytes s"
  show "cr_inv P le_bytes (cr_step P le_bytes s e)"
  proof (cases e)
    case (Finalize now sm k)
    then show ?thesis
      using inv by (auto simp: cr_inv_def dest: finalize_frame split: option.splits)
  qed (use inv cr_inv_submit_commitment cr_inv_submit_reveal in auto)
qed

lemma cr_inv_new: "cr_inv P le_bytes (CommitRevealState_new epoch challenge_id)"
  by (simp add: cr_inv_def CommitRevealState_new_def)

lemma normalize_weights_sum:
  "0 < sum_list (map wa_weight ws) \<Longrightarrow> sum_list (map wa_weight (normalize_weights ws)) = 1"
  by (simp add: normalize_weights_def Let_def comp_def sum_list_map_divide)

lemma normalize_weights_nonneg:
  "list_all (\<lambda>w. 0 \<le> wa_weight w) ws \<Longrightarrow> list_all (\<lambda>w. 0 \<le> wa_weight w) (normalize_weights ws)"
  by (auto simp: normalize_weights_def Let_def list_all_iff)

section \<open>A sample epoch\<close>

definition sample_le :: "f64 \<Rightarrow> bytes" where
  "sample_le w = replicate 8 0"

definition sample_commitment :: "u8 \<Rightarrow> WeightAssignment list \<Rightarrow> bytes \<Rightarrow> WeightCommitment" where
  "sample_commitment i ws secret =
     \<lparr>wc_validator = Hotkey [i], wc_challenge_id = 1, wc_epoch = 4,
      wc_commitment_hash = create_commitment sample_platform sample_le ws secret, wc_timestamp = 0\<rparr>"

definition sample_reveal :: "u8 \<Rightarrow> WeightAssignment list \<Rightarrow> bytes \<Rightarrow> WeightReveal" where
  "sample_reveal i ws secret =
     \<lparr>wr_validator = Hotkey [i], wr_challenge_id = 1, wr_epoch = 4, wr_weights = ws, wr_secret = secret, wr_timestamp = 0\<rparr>"

definition sample_epoch :: "cr_event list \<Rightarrow> CommitRevealState" where
  "sample_epoch es = foldl (cr_step sample_platform sample_le) (CommitRevealState_new 4 1) es"

definition sample_events :: "cr_event list" where
  "sample_events = [SubmitCommitment (sample_commitment 1 [] [9]), SubmitReveal (sample_reveal 1 [] [9])]"

definition sample_double :: "cr_event list" where
  "sample_double =
     [SubmitCommitment (sample_commitment 1 [] [9]), SubmitReveal (sample_reveal 1 [] [8]),
      SubmitReveal (sample_reveal 1 [] [9])]"

definition sample_weights :: "string \<Rightarrow> WeightAssignment list" where
  "sample_weights h = [\<lparr>wa_hotkey = h, wa_weight = 1\<rparr>]"

section \<open>Properties\<close>

text \<open>
  C16. Accepted reveals open their commitments. In every state of an epoch that commitments, reveals and
  attempts to finalise reach, each recorded reveal is by a validator that committed in this epoch and
  challenge, and its weights and secret hash to the recorded commitment. When \<^verbatim>\<open>finalize\<close> succeeds, it
  reports exactly the validators with such a reveal as participating, at least the required number of
  them, and each of them once.
\<close>

theorem participants_opened_commitments:
  assumes "s = foldl (cr_step P le_bytes) (CommitRevealState_new epoch challenge_id) es"
    and "finalize now s smoothing k = Some (Inr fw, s')"
  shows "k \<le> length (fw_participating_validators fw) \<and> distinct (fw_participating_validators fw) \<and>
    (\<forall>v. v \<in> set (fw_participating_validators fw) \<longleftrightarrow> has_revealed s v) \<and>
    list_all (\<lambda>v. \<exists>c r. hm_get (cr_commitments s) v = Some c \<and> hm_get (cr_reveals s) v = Some r \<and>
      wc_epoch c = cr_epoch s \<and> wc_challenge_id c = cr_challenge_id s \<and>
      create_commitment P le_bytes (wr_weights r) (wr_secret r) = wc_commitment_hash c)
      (fw_participating_validators fw)"
proof -
  have inv: "cr_inv P le_bytes s" unfolding assms(1) by (rule commit_reveal.run_inv [OF cr_inv_new])
  have part: "fw_participating_validators fw = hm_keys (cr_reveals s)" "k \<le> hm_len (cr_reveals s)"
    using assms(2) by (auto simp: finalize_def Let_def hm_len_def hm_values_def split: if_splits list.splits)
  have "\<exists>c r. hm_get (cr_commitments s) v = Some c \<and> hm_get (cr_reveals s) v = Some r \<and>
      wc_epoch c = cr_epoch s \<and> wc_challenge_id c = cr_challenge_id s \<and>
      create_commitment P le_bytes (wr_weights r) (wr_secret r) = wc_commitment_hash c"
    if "v \<in> set (hm_keys (cr_reveals s))" for v
    using that inv unfolding cr_inv_def set_hm_keys by (metis domD)
  then show ?thesis
    using part by (auto simp: list_all_iff has_revealed_def hm_contains_iter hm_len_def hm_keys_def)
qed

theorem participants_opened_commitments_witness:
  "\<exists>fw s'. finalize 7 (sample_epoch sample_events) 0 1 = Some (Inr fw, s') \<and> 1 \<le> length (fw_participating_validators fw)"
proof -
  have "(case finalize 7 (sample_epoch sample_events) 0 1 of Some (Inr fw, s') \<Rightarrow> True | _ \<Rightarrow> False)" by code_simp
  then obtain fw s' where f: "finalize 7 (sample_epoch sample_events) 0 1 = Some (Inr fw, s')"
    by (auto split: option.splits sum.splits prod.splits)
  then show ?thesis using participants_opened_commitments [OF sample_epoch_def f] by blast
qed

text \<open>
  The commitment does not depend on the order of the assignments. Two lists with the same assignments, one
  for each hotkey, have the same commitment for the same secret, so validators that read the same
  weights in a different order commit to the same hash.
\<close>

theorem commitment_order_independent:
  assumes "mset ws = mset ws'" and "distinct (map wa_hotkey ws)"
  shows "create_commitment P le_bytes ws secret = create_commitment P le_bytes ws' secret"
  unfolding create_commitment_def commitment_input_perm [OF assms] ..

theorem commitment_order_independent_witness:
  "create_commitment sample_platform sample_le (sample_weights ''a'' @ sample_weights ''b'') [1] =
   create_commitment sample_platform sample_le (sample_weights ''b'' @ sample_weights ''a'') [1]"
  by (rule commitment_order_independent) (simp_all add: sample_weights_def add_mset_commute)

text \<open>
  Finalised weights add up to one. When \<^verbatim>\<open>finalize\<close> succeeds and every revealed list has non-negative weights
  and a positive total, the finalised weights are non-negative and their sum is 1.
\<close>

theorem finalized_weights_normalised:
  assumes "finalize now s smoothing k = Some (Inr fw, s')"
    and "\<And>v r. hm_get (cr_reveals s) v = Some r \<Longrightarrow>
      list_all (\<lambda>w. 0 \<le> wa_weight w) (wr_weights r) \<and> 0 < sum_list (map wa_weight (wr_weights r))"
  shows "sum_list (map wa_weight (fw_weights fw)) = 1 \<and> list_all (\<lambda>w. 0 \<le> wa_weight w) (fw_weights fw)"
proof -
  from assms(1) obtain r rs where "hm_values (cr_reveals s) = r # rs" and fw: "fw_weights fw = normalize_weights (wr_weights r)"
    by (auto simp: finalize_def Let_def split: if_splits list.splits)
  then have "r \<in> ran (hm_get (cr_reveals s))" by (metis list.set_intros(1) set_hm_values)
  then show ?thesis
    using assms(2) normalize_weights_sum normalize_weights_nonneg by (auto simp: fw ran_def)
qed

theorem finalized_weights_normalised_witness:
  "\<exists>fw s'. finalize 7 ((CommitRevealState_new 4 1)\<lparr>cr_reveals := hm_insert (Hotkey [1]) (sample_reveal 1 (sample_weights ''a'') []) hm_new\<rparr>) 0 1 =
     Some (Inr fw, s') \<and> sum_list (map wa_weight (fw_weights fw)) = 1"
proof -
  let ?s = "(CommitRevealState_new 4 1)\<lparr>cr_reveals := hm_insert (Hotkey [1]) (sample_reveal 1 (sample_weights ''a'') []) hm_new\<rparr>"
  obtain fw s' where f: "finalize 7 ?s 0 1 = Some (Inr fw, s')"
    by (simp add: finalize_def Let_def hm_values_def hm_simps)
  have nn: "list_all (\<lambda>w. 0 \<le> wa_weight w) (wr_weights r) \<and> 0 < sum_list (map wa_weight (wr_weights r))"
    if "hm_get (cr_reveals ?s) v = Some r" for v r
    using that by (auto simp: lookup_update sample_reveal_def sample_weights_def split: if_splits)
  have "sum_list (map wa_weight (fw_weights fw)) = 1 \<and> list_all (\<lambda>w. 0 \<le> wa_weight w) (fw_weights fw)"
    by (rule finalized_weights_normalised [OF f]) (use nn in blast)
  with f show ?thesis by blast
qed

text \<open>
  The commitment is not binding. The hashed bytes carry no lengths, so the bytes of an assignment can be
  read as part of the secret: whoever committed to one assignment with a secret can instead reveal no
  assignment at all with a longer secret, and \<^verbatim>\<open>submit_reveal\<close> accepts either of the two.
\<close>

theorem commitment_not_binding:
  assumes "hm_get (cr_commitments s) v = Some c" and "\<not> hm_contains (cr_reveals s) v"
    and "wc_commitment_hash c = create_commitment P le_bytes [w] secret"
  shows "fst (submit_reveal P le_bytes s \<lparr>wr_validator = v, wr_challenge_id = i, wr_epoch = cr_epoch s, wr_weights = [w],
      wr_secret = secret, wr_timestamp = t\<rparr>) = Inr () \<and>
    fst (submit_reveal P le_bytes s \<lparr>wr_validator = v, wr_challenge_id = i, wr_epoch = cr_epoch s, wr_weights = [],
      wr_secret = as_bytes (wa_hotkey w) @ le_bytes (wa_weight w) @ secret, wr_timestamp = t\<rparr>) = Inr ()"
proof -
  have "create_commitment P le_bytes [] (as_bytes (wa_hotkey w) @ le_bytes (wa_weight w) @ secret) =
      create_commitment P le_bytes [w] secret"
    by (simp add: create_commitment_def commitment_input_def sort_by_def)
  then show ?thesis using assms by (simp add: submit_reveal_def Let_def)
qed

theorem commitment_not_binding_witness:
  "fst (submit_reveal sample_platform sample_le
      (sample_epoch [SubmitCommitment (sample_commitment 1 (sample_weights ''a'') [9])])
      \<lparr>wr_validator = Hotkey [1], wr_challenge_id = 1, wr_epoch = cr_epoch (sample_epoch [SubmitCommitment (sample_commitment 1 (sample_weights ''a'') [9])]),
       wr_weights = [], wr_secret = as_bytes ''a'' @ sample_le 1 @ [9], wr_timestamp = 0\<rparr>) = Inr ()"
proof -
  let ?s = "sample_epoch [SubmitCommitment (sample_commitment 1 (sample_weights ''a'') [9])]"
  have c: "hm_get (cr_commitments ?s) (Hotkey [1]) = Some (sample_commitment 1 (sample_weights ''a'') [9])"
    "\<not> hm_contains (cr_reveals ?s) (Hotkey [1])"
    by (simp_all add: sample_epoch_def submit_commitment_def CommitRevealState_new_def sample_commitment_def)
  have h: "wc_commitment_hash (sample_commitment 1 (sample_weights ''a'') [9]) =
      create_commitment sample_platform sample_le [\<lparr>wa_hotkey = ''a'', wa_weight = 1\<rparr>] [9]"
    by (simp add: sample_commitment_def sample_weights_def)
  show ?thesis using commitment_not_binding [OF c h, of 1 0] by simp
qed

text \<open>
  A failed attempt stays on the list of mismatches: a validator whose reveal is recorded after a wrong
  one is reported both as participating and as excluded. Since \<^verbatim>\<open>submit_reveal\<close> does not authenticate
  the sender of a reveal, the wrong one need not come from that validator.
\<close>

theorem participant_also_excluded:
  "map_option (map_sum id (\<lambda>fw. (fw_participating_validators fw, fw_excluded_validators fw)) \<circ> fst)
     (finalize 7 (sample_epoch sample_double) 0 1) = Some (Inr ([Hotkey [1]], [Hotkey [1]]))"
  by code_simp

text \<open>With no required validators and no reveals, \<^verbatim>\<open>finalize\<close> indexes an empty list and panics.\<close>

theorem finalize_panics: "finalize now (CommitRevealState_new epoch challenge_id) smoothing 0 = None"
  by (simp add: finalize_def CommitRevealState_new_def hm_values_def Let_def)

end
