(* ===== verification/Store.thy ===== *)
theory Store
  imports Core_Types Bytes
begin

text \<open>
  Keys and values of the distributed storage (\<^verbatim>\<open>distributed-storage/src/store.rs\<close>) and its errors
  (\<^verbatim>\<open>distributed-storage/src/error.rs\<close>). Timestamps are integers of milliseconds.
\<close>

section \<open>Errors\<close>

datatype StorageError =
    Database string
  | Serialization string
  | NotFound string string
  | NamespaceNotFound string
  | Dht string
  | Replication string
  | QuorumNotReached usize usize
  | Conflict string
  | InvalidData string
  | Timeout string
  | NotInitialized
  | Internal string

section \<open>Keys\<close>

record StorageKey =
  sk_namespace :: string
  sk_key :: bytes

definition StorageKey_new :: "string \<Rightarrow> bytes \<Rightarrow> StorageKey" where
  "StorageKey_new namespace key = \<lparr>sk_namespace = namespace, sk_key = key\<rparr>"

definition submission_key :: "string \<Rightarrow> string \<Rightarrow> StorageKey" where
  "submission_key challenge_id h = StorageKey_new ''submissions'' (as_bytes (challenge_id @ '':'' @ h))"

definition evaluation_key :: "string \<Rightarrow> string \<Rightarrow> string \<Rightarrow> StorageKey" where
  "evaluation_key challenge_id submission_hash validator =
     StorageKey_new ''evaluations'' (as_bytes (challenge_id @ '':'' @ submission_hash @ '':'' @ validator))"

definition weights_key :: "string \<Rightarrow> u64 \<Rightarrow> StorageKey" where
  "weights_key challenge_id epoch = StorageKey_new ''weights'' (as_bytes (challenge_id @ '':'' @ decimal (unat epoch)))"

definition challenge_key :: "string \<Rightarrow> StorageKey" where
  "challenge_key challenge_id = StorageKey_new ''challenges'' (as_bytes challenge_id)"

definition to_bytes :: "StorageKey \<Rightarrow> bytes" where
  "to_bytes k = as_bytes (sk_namespace k) @ [colon] @ sk_key k"

definition key_hash :: "platform \<Rightarrow> StorageKey \<Rightarrow> bytes" where
  "key_hash P k = sha256 P (to_bytes k)"

section \<open>Values\<close>

record ValueMetadata =
  vm_created_at :: i64
  vm_updated_at :: i64
  vm_version :: u64
  vm_origin_node :: "string option"
  vm_value_hash :: bytes
  vm_size :: usize
  vm_ttl_seconds :: u64

definition ValueMetadata_new :: "platform \<Rightarrow> i64 \<Rightarrow> bytes \<Rightarrow> string option \<Rightarrow> ValueMetadata" where
  "ValueMetadata_new P now value origin_node =
     \<lparr>vm_created_at = now, vm_updated_at = now, vm_version = 1, vm_origin_node = origin_node,
      vm_value_hash = sha256 P value, vm_size = length value, vm_ttl_seconds = 0\<rparr>"

definition metadata_update :: "platform \<Rightarrow> i64 \<Rightarrow> ValueMetadata \<Rightarrow> bytes \<Rightarrow> string option \<Rightarrow> ValueMetadata" where
  "metadata_update P now m value origin_node =
     \<lparr>vm_created_at = vm_created_at m, vm_updated_at = now, vm_version = vm_version m + 1, vm_origin_node = origin_node,
      vm_value_hash = sha256 P value, vm_size = length value, vm_ttl_seconds = vm_ttl_seconds m\<rparr>"

text \<open>Signed 64-bit arithmetic in a release build.\<close>

definition wrap_i64 :: "int \<Rightarrow> i64" where
  "wrap_i64 x = sint (word_of_int x :: u64)"

definition is_expired :: "i64 \<Rightarrow> ValueMetadata \<Rightarrow> bool" where
  "is_expired now m =
     (if vm_ttl_seconds m = 0 then False
      else now > wrap_i64 (vm_created_at m + wrap_i64 (sint (vm_ttl_seconds m) * 1000)))"

record StoredValue =
  sv_data :: bytes
  sv_metadata :: ValueMetadata

definition StoredValue_new :: "platform \<Rightarrow> i64 \<Rightarrow> bytes \<Rightarrow> string option \<Rightarrow> StoredValue" where
  "StoredValue_new P now data origin_node = \<lparr>sv_data = data, sv_metadata = ValueMetadata_new P now data origin_node\<rparr>"

definition is_newer_than :: "StoredValue \<Rightarrow> StoredValue \<Rightarrow> bool" where
  "is_newer_than a b =
     (if vm_version (sv_metadata a) \<noteq> vm_version (sv_metadata b)
      then vm_version (sv_metadata a) > vm_version (sv_metadata b)
      else vm_updated_at (sv_metadata a) > vm_updated_at (sv_metadata b))"

section \<open>Options and results\<close>

record GetOptions =
  go_local_only :: bool
  go_quorum_read :: bool
  go_quorum_size :: "usize option"

record PutOptions =
  po_local_only :: bool
  po_quorum_write :: bool
  po_quorum_size :: "usize option"
  po_ttl_seconds :: u64
  po_expected_version :: "u64 option"

definition PutOptions_default :: PutOptions where
  "PutOptions_default =
     \<lparr>po_local_only = False, po_quorum_write = False, po_quorum_size = None, po_ttl_seconds = 0,
      po_expected_version = None\<rparr>"

record ListResult =
  lr_items :: "(StorageKey \<times> StoredValue) list"
  lr_has_more :: bool
  lr_continuation_token :: "bytes option"

record StorageStats =
  ss_total_keys :: u64
  ss_total_bytes :: u64
  ss_keys_per_namespace :: "(string, u64) hashmap"
  ss_local_replicas :: u64
  ss_remote_peers :: u64

section \<open>Keys as bytes\<close>

definition wf_key :: "StorageKey \<Rightarrow> bool" where
  "wf_key k \<longleftrightarrow> CHR '':'' \<notin> set (sk_namespace k) \<and> valid_utf8 (as_bytes (sk_namespace k))"

lemma first_colon_inject:
  assumes "c \<notin> set xs" "c \<notin> set ys" "xs @ c # us = ys @ c # vs"
  shows "xs = ys \<and> us = vs"
  using assms
proof (induction xs arbitrary: ys)
  case Nil then show ?case by (cases ys) auto
next
  case (Cons x xs) then show ?case by (cases ys) auto
qed

lemma to_bytes_inject: "wf_key k \<Longrightarrow> wf_key k' \<Longrightarrow> to_bytes k = to_bytes k' \<longleftrightarrow> k = k'"
  using first_colon_inject [of colon "as_bytes (sk_namespace k)" "as_bytes (sk_namespace k')" "sk_key k" "sk_key k'"]
  by (auto simp: wf_key_def to_bytes_def)

end
