(* ===== verification/Replication.thy ===== *)
theory Replication
  imports Store
begin

text \<open>
  Replication of stored values (\<^verbatim>\<open>distributed-storage/src/replication.rs\<close>): read and write quorums, acknowledgements, retries, the choice among
  divergent values, and the dynamic quorum. Instants are integers of seconds, since the code only
  compares whole seconds.
\<close>

section \<open>Configuration\<close>

record ReplicationConfig =
  rc_replication_factor :: usize
  rc_write_quorum :: usize
  rc_read_quorum :: usize
  rc_retry_interval_secs :: u64
  rc_max_retries :: u32
  rc_node_timeout_secs :: u64

definition ReplicationConfig_default :: ReplicationConfig where
  "ReplicationConfig_default =
     \<lparr>rc_replication_factor = 3, rc_write_quorum = 2, rc_read_quorum = 2, rc_retry_interval_secs = 30,
      rc_max_retries = 3, rc_node_timeout_secs = 10\<rparr>"

definition strong_consistency :: ReplicationConfig where
  "strong_consistency =
     \<lparr>rc_replication_factor = 3, rc_write_quorum = 3, rc_read_quorum = 2, rc_retry_interval_secs = 10,
      rc_max_retries = 5, rc_node_timeout_secs = 5\<rparr>"

definition high_availability :: ReplicationConfig where
  "high_availability =
     \<lparr>rc_replication_factor = 3, rc_write_quorum = 1, rc_read_quorum = 1, rc_retry_interval_secs = 5,
      rc_max_retries = 10, rc_node_timeout_secs = 30\<rparr>"

definition single_node :: ReplicationConfig where
  "single_node =
     \<lparr>rc_replication_factor = 1, rc_write_quorum = 1, rc_read_quorum = 1, rc_retry_interval_secs = 0,
      rc_max_retries = 0, rc_node_timeout_secs = 0\<rparr>"

definition config_validate :: "ReplicationConfig \<Rightarrow> string + unit" where
  "config_validate c =
     (if rc_write_quorum c > rc_replication_factor c
      then Inl (''Write quorum ('' @ decimal (rc_write_quorum c) @ '') cannot exceed replication factor ('' @
             decimal (rc_replication_factor c) @ '')'')
      else if rc_read_quorum c > rc_replication_factor c
      then Inl (''Read quorum ('' @ decimal (rc_read_quorum c) @ '') cannot exceed replication factor ('' @
             decimal (rc_replication_factor c) @ '')'')
      else if rc_write_quorum c = 0 then Inl ''Write quorum must be at least 1''
      else if rc_read_quorum c = 0 then Inl ''Read quorum must be at least 1''
      else Inr ())"

datatype ConflictResolution = LastWriteWins | HighestVersion | Custom

record ReplicationPolicy =
  rp_config :: ReplicationConfig
  rp_conflict_resolution :: ConflictResolution
  rp_enable_anti_entropy :: bool
  rp_anti_entropy_interval_secs :: u64

definition ReplicationPolicy_default :: ReplicationPolicy where
  "ReplicationPolicy_default =
     \<lparr>rp_config = ReplicationConfig_default, rp_conflict_resolution = LastWriteWins,
      rp_enable_anti_entropy = True, rp_anti_entropy_interval_secs = 300\<rparr>"

definition with_config :: "ReplicationPolicy \<Rightarrow> ReplicationConfig \<Rightarrow> ReplicationPolicy" where
  "with_config p c = p\<lparr>rp_config := c\<rparr>"

definition with_conflict_resolution :: "ReplicationPolicy \<Rightarrow> ConflictResolution \<Rightarrow> ReplicationPolicy" where
  "with_conflict_resolution p strategy = p\<lparr>rp_conflict_resolution := strategy\<rparr>"

definition with_anti_entropy :: "ReplicationPolicy \<Rightarrow> bool \<Rightarrow> ReplicationPolicy" where
  "with_anti_entropy p enabled = p\<lparr>rp_enable_anti_entropy := enabled\<rparr>"

section \<open>Conflict resolution\<close>

text \<open>\<^verbatim>\<open>max_by_key\<close> of the standard library: the last of the elements with the greatest key.\<close>

fun max_by_key :: "('a \<Rightarrow> 'b :: linorder) \<Rightarrow> 'a list \<Rightarrow> 'a option" where
  "max_by_key f [] = None"
| "max_by_key f (x # xs) =
     (case max_by_key f xs of
        None \<Rightarrow> Some x
      | Some y \<Rightarrow> if f x > f y then Some x else Some y)"

definition resolve_lww :: "StoredValue list \<Rightarrow> StoredValue option" where
  "resolve_lww values = max_by_key (\<lambda>v. vm_updated_at (sv_metadata v)) values"

definition resolve_version :: "StoredValue list \<Rightarrow> StoredValue option" where
  "resolve_version values = max_by_key (\<lambda>v. vm_version (sv_metadata v)) values"

definition resolve :: "ConflictResolution \<Rightarrow> StoredValue list \<Rightarrow> StoredValue option" where
  "resolve strategy values =
     (if values = [] then None
      else if length values = 1 then Some (hd values)
      else case strategy of
             LastWriteWins \<Rightarrow> resolve_lww values
           | HighestVersion \<Rightarrow> resolve_version values
           | Custom \<Rightarrow> resolve_lww values)"

section \<open>Tracking acknowledgements\<close>

record ReplicationState =
  rs_key :: string
  rs_acknowledged_by :: "string list"
  rs_pending :: "string list"
  rs_last_attempt :: "i64 option"
  rs_attempt_count :: u32
  rs_is_complete :: bool

definition ReplicationState_new :: "string \<Rightarrow> string list \<Rightarrow> ReplicationState" where
  "ReplicationState_new key target_nodes =
     \<lparr>rs_key = key, rs_acknowledged_by = [], rs_pending = target_nodes, rs_last_attempt = None,
      rs_attempt_count = 0, rs_is_complete = False\<rparr>"

definition state_acknowledge :: "ReplicationState \<Rightarrow> string \<Rightarrow> ReplicationState" where
  "state_acknowledge s node_id =
     (case position (\<lambda>n. n = node_id) (rs_pending s) of
        Some pos \<Rightarrow>
          s\<lparr>rs_pending := remove_at pos (rs_pending s), rs_acknowledged_by := rs_acknowledged_by s @ [node_id]\<rparr>
      | None \<Rightarrow> s)"

definition mark_attempt :: "i64 \<Rightarrow> ReplicationState \<Rightarrow> ReplicationState" where
  "mark_attempt now s = s\<lparr>rs_last_attempt := Some now, rs_attempt_count := rs_attempt_count s + 1\<rparr>"

definition has_quorum :: "ReplicationState \<Rightarrow> usize \<Rightarrow> bool" where
  "has_quorum s quorum = (length (rs_acknowledged_by s) \<ge> quorum)"

definition should_retry :: "i64 \<Rightarrow> ReplicationState \<Rightarrow> ReplicationConfig \<Rightarrow> bool" where
  "should_retry now s config =
     (if rs_is_complete s then False
      else if rs_attempt_count s \<ge> rc_max_retries config then False
      else if rs_pending s = [] then False
      else case rs_last_attempt s of
             Some last_attempt \<Rightarrow> now - last_attempt \<ge> sint (rc_retry_interval_secs config)
           | None \<Rightarrow> True)"

definition complete :: "ReplicationState \<Rightarrow> ReplicationState" where
  "complete s = s\<lparr>rs_is_complete := True\<rparr>"

record ReplicationManager =
  rm_policy :: ReplicationPolicy
  rm_states :: "(string, ReplicationState) hashmap"
  rm_resolver :: ConflictResolution

definition ReplicationManager_new :: "ReplicationPolicy \<Rightarrow> ReplicationManager" where
  "ReplicationManager_new policy =
     \<lparr>rm_policy = policy, rm_states = hm_new, rm_resolver = rp_conflict_resolution policy\<rparr>"

definition track :: "ReplicationManager \<Rightarrow> string \<Rightarrow> string list \<Rightarrow> ReplicationManager" where
  "track m key target_nodes = m\<lparr>rm_states := hm_insert key (ReplicationState_new key target_nodes) (rm_states m)\<rparr>"

definition untrack :: "ReplicationManager \<Rightarrow> string \<Rightarrow> ReplicationManager" where
  "untrack m key = m\<lparr>rm_states := hm_remove key (rm_states m)\<rparr>"

definition acknowledge :: "ReplicationManager \<Rightarrow> string \<Rightarrow> string \<Rightarrow> ReplicationManager" where
  "acknowledge m key node_id =
     (case hm_get (rm_states m) key of
        Some state \<Rightarrow>
          let state1 = state_acknowledge state node_id;
              state2 = (if has_quorum state1 (rc_write_quorum (rp_config (rm_policy m))) then complete state1 else state1)
          in m\<lparr>rm_states := hm_insert key state2 (rm_states m)\<rparr>
      | None \<Rightarrow> m)"

definition get_pending_retries :: "i64 \<Rightarrow> ReplicationManager \<Rightarrow> string list" where
  "get_pending_retries now m =
     map fst (filter (\<lambda>(_, state). should_retry now state (rp_config (rm_policy m))) (hm_iter (rm_states m)))"

definition resolve_conflict :: "ReplicationManager \<Rightarrow> StoredValue list \<Rightarrow> StoredValue option" where
  "resolve_conflict m values = resolve (rm_resolver m) values"

definition completed_count :: "ReplicationManager \<Rightarrow> usize" where
  "completed_count m = length (filter rs_is_complete (hm_values (rm_states m)))"

definition pending_count :: "ReplicationManager \<Rightarrow> usize" where
  "pending_count m = length (filter (\<lambda>s. \<not> rs_is_complete s) (hm_values (rm_states m)))"

definition cleanup_completed :: "i64 \<Rightarrow> ReplicationManager \<Rightarrow> i64 \<Rightarrow> ReplicationManager" where
  "cleanup_completed now m max_age_secs =
     m\<lparr>rm_states := hm_retain (\<lambda>_ state.
         if \<not> rs_is_complete state then True
         else case rs_last_attempt state of Some last_attempt \<Rightarrow> now - last_attempt < max_age_secs | None \<Rightarrow> True) (rm_states m)\<rparr>"

section \<open>Dynamic quorums\<close>

record QuorumCalculator =
  qc_min_quorum :: usize
  qc_target_quorum :: usize
  qc_total_nodes :: usize

definition calculate :: "QuorumCalculator \<Rightarrow> usize \<Rightarrow> usize" where
  "calculate q available_nodes =
     (if available_nodes = 0 then qc_min_quorum q
      else let majority = available_nodes div 2 + 1;
               effective = min majority (qc_target_quorum q)
           in max effective (qc_min_quorum q))"

definition can_achieve_quorum :: "QuorumCalculator \<Rightarrow> usize \<Rightarrow> bool" where
  "can_achieve_quorum q available_nodes = (available_nodes \<ge> qc_min_quorum q)"

section \<open>Runs of the manager\<close>

text \<open>The replica set of a key is given by \<open>placement\<close>; keys are tracked, acknowledged, dropped and swept.\<close>

datatype repl_event = Track string | Untrack string | Ack string string | Sweep i64 i64

fun repl_step :: "(string \<Rightarrow> string list) \<Rightarrow> ReplicationManager \<Rightarrow> repl_event \<Rightarrow> ReplicationManager" where
  "repl_step placement m (Track key) = track m key (placement key)"
| "repl_step placement m (Untrack key) = untrack m key"
| "repl_step placement m (Ack key node_id) = acknowledge m key node_id"
| "repl_step placement m (Sweep now max_age) = cleanup_completed now m max_age"

definition repl_ok :: "(string \<Rightarrow> string list) \<Rightarrow> ReplicationPolicy \<Rightarrow> string \<Rightarrow> ReplicationState \<Rightarrow> bool" where
  "repl_ok placement p key s \<longleftrightarrow>
     mset (rs_acknowledged_by s) + mset (rs_pending s) = mset (placement key) \<and>
     (rs_is_complete s \<longrightarrow> rc_write_quorum (rp_config p) \<le> length (rs_acknowledged_by s)) \<and>
     rs_last_attempt s = None \<and> rs_attempt_count s = 0"

definition repl_inv :: "(string \<Rightarrow> string list) \<Rightarrow> ReplicationPolicy \<Rightarrow> ReplicationManager \<Rightarrow> bool" where
  "repl_inv placement p m \<longleftrightarrow>
     rm_policy m = p \<and> (\<forall>key s. hm_get (rm_states m) key = Some s \<longrightarrow> repl_ok placement p key s)"

definition repl_run :: "(string \<Rightarrow> string list) \<Rightarrow> ReplicationPolicy \<Rightarrow> repl_event list \<Rightarrow> ReplicationManager" where
  "repl_run placement p es = foldl (repl_step placement) (ReplicationManager_new p) es"

definition sample_placement :: "string \<Rightarrow> string list" where
  "sample_placement key = [''a'', ''b'', ''c'']"

definition sample_stored :: "u64 \<Rightarrow> StoredValue" where
  "sample_stored v = \<lparr>sv_data = [], sv_metadata =
     \<lparr>vm_created_at = 0, vm_updated_at = 0, vm_version = v, vm_origin_node = None, vm_value_hash = [], vm_size = 0,
      vm_ttl_seconds = 0\<rparr>\<rparr>"

lemma hm_retain_all:
  assumes "\<And>k v. hm_get m k = Some v \<Longrightarrow> P k v"
  shows "hm_retain P m = m"
proof -
  have "hm_iter (hm_retain P m) = hm_iter m"
    using assms by (auto simp: hm_iter_retain hm_in_iter intro!: filter_True)
  then show ?thesis by (simp add: DAList.impl_of_inject)
qed

lemma acknowledge_ok:
  assumes "repl_ok placement p key s"
  shows "mset (rs_acknowledged_by (state_acknowledge s node)) + mset (rs_pending (state_acknowledge s node)) = mset (placement key)"
    and "length (rs_acknowledged_by s) \<le> length (rs_acknowledged_by (state_acknowledge s node))"
proof -
  have *: "{#node#} + mset (remove_at pos (rs_pending s)) = mset (rs_pending s)"
    if "position (\<lambda>n. n = node) (rs_pending s) = Some pos" for pos
    using that remove_at_mset [of pos "rs_pending s"] by (simp add: position_eq_Some)
  show "mset (rs_acknowledged_by (state_acknowledge s node)) + mset (rs_pending (state_acknowledge s node)) = mset (placement key)"
  proof (cases "position (\<lambda>n. n = node) (rs_pending s)")
    case None
    then show ?thesis using assms by (simp add: state_acknowledge_def repl_ok_def)
  next
    case (Some pos)
    have "mset (rs_acknowledged_by s) + {#node#} + mset (remove_at pos (rs_pending s)) = mset (placement key)"
      using *[OF Some] assms by (simp add: repl_ok_def add.assoc flip: * [OF Some])
    then show ?thesis using Some by (simp add: state_acknowledge_def)
  qed
  show "length (rs_acknowledged_by s) \<le> length (rs_acknowledged_by (state_acknowledge s node))"
    by (simp add: state_acknowledge_def split: option.split)
qed

lemma acknowledge_keeps_rest [simp]:
  "rs_is_complete (state_acknowledge s node) = rs_is_complete s"
  "rs_last_attempt (state_acknowledge s node) = rs_last_attempt s"
  "rs_attempt_count (state_acknowledge s node) = rs_attempt_count s"
  by (auto simp: state_acknowledge_def split: option.split)

lemma acknowledge_step_ok:
  assumes "repl_ok placement p key s"
  shows "repl_ok placement p key (state_acknowledge s node)"
    and "has_quorum (state_acknowledge s node) (rc_write_quorum (rp_config p)) \<Longrightarrow>
      repl_ok placement p key (complete (state_acknowledge s node))"
  using assms acknowledge_ok [OF assms, of node]
  by (auto simp: repl_ok_def has_quorum_def complete_def)

lemma new_ok: "repl_ok placement p key (ReplicationState_new key (placement key))"
  by (simp add: repl_ok_def ReplicationState_new_def)

interpretation replicas: machine "repl_step placement" "repl_inv placement p"
proof
  fix m e assume inv: "repl_inv placement p m"
  show "repl_inv placement p (repl_step placement m e)"
  proof (cases e)
    case (Ack key node)
    with inv show ?thesis
      using acknowledge_step_ok [of placement p key _ node]
      by (force simp: repl_inv_def acknowledge_def Let_def lookup_update split: option.split)
  qed (use inv in \<open>auto simp: repl_inv_def track_def untrack_def cleanup_completed_def lookup_update lookup_delete
         hm_get_retain new_ok split: if_splits option.splits\<close>)
qed

lemma repl_run_inv: "repl_inv placement p (repl_run placement p es)"
  unfolding repl_run_def
  by (rule replicas.run_inv) (simp add: repl_inv_def ReplicationManager_new_def)

interpretation default_quorums: rw_quorum "rc_replication_factor ReplicationConfig_default"
  "rc_read_quorum ReplicationConfig_default" "rc_write_quorum ReplicationConfig_default"
  by unfold_locales (simp add: ReplicationConfig_default_def)

interpretation strong_quorums: rw_quorum "rc_replication_factor strong_consistency"
  "rc_read_quorum strong_consistency" "rc_write_quorum strong_consistency"
  by unfold_locales (simp add: strong_consistency_def)

lemma max_by_key_None [simp]: "max_by_key f xs = None \<longleftrightarrow> xs = []"
  by (cases xs) (auto split: option.split)

lemma max_by_key_in: "max_by_key f xs = Some y \<Longrightarrow> y \<in> set xs"
  by (induction xs arbitrary: y) (auto split: option.splits if_splits)

lemma max_by_key_max: "x \<in> set xs \<Longrightarrow> \<exists>y. max_by_key f xs = Some y \<and> y \<in> set xs \<and> f x \<le> f y"
proof (induction xs)
  case (Cons a xs)
  then show ?case
    using max_by_key_in [of f xs] by (cases "max_by_key f xs") (auto split: if_splits)
qed simp

lemma resolve_version_ge:
  assumes "x \<in> set xs"
  shows "\<exists>y. resolve HighestVersion xs = Some y \<and> y \<in> set xs \<and>
    vm_version (sv_metadata x) \<le> vm_version (sv_metadata y)"
  using assms max_by_key_max [OF assms, of "\<lambda>v. vm_version (sv_metadata v)"]
  by (cases xs) (auto simp: resolve_def resolve_version_def)

lemma complete_quorum:
  assumes "hm_get (rm_states (repl_run placement p es)) key = Some s" "rs_is_complete s" "distinct (placement key)"
  shows "set (rs_acknowledged_by s) \<subseteq> set (placement key)"
    and "rc_write_quorum (rp_config p) \<le> card (set (rs_acknowledged_by s))"
proof -
  have ok: "repl_ok placement p key s"
    using repl_run_inv [of placement p es] assms(1) by (simp add: repl_inv_def)
  then have *: "mset (rs_acknowledged_by s @ rs_pending s) = mset (placement key)"
    by (simp add: repl_ok_def)
  then have "distinct (rs_acknowledged_by s @ rs_pending s)"
    using assms(3) mset_eq_imp_distinct_iff by blast
  then show "rc_write_quorum (rp_config p) \<le> card (set (rs_acknowledged_by s))"
    using ok assms(2) by (simp add: repl_ok_def distinct_card)
  show "set (rs_acknowledged_by s) \<subseteq> set (placement key)"
    using mset_eq_setD [OF *] by auto
qed

section \<open>Properties\<close>



text \<open>
  Validation accepts policies whose read and write quorums need not meet, the shipped high-availability
  configuration among them: a key is complete once a single node acknowledged, and a read of another node
  returns the old value.
\<close>

theorem validated_quorums_may_miss:
  "config_validate high_availability = Inr () \<and>
   rc_read_quorum high_availability + rc_write_quorum high_availability \<le> rc_replication_factor high_availability"
  by code_simp

text \<open>
  Nothing records replication attempts: the manager never marks one and hands out only shared references to
  its states. In every run each tracked state has no last attempt and no counted attempt, so sweeping completed
  replications of any age removes nothing, and, with at least one retry allowed, the keys reported for retry are
  exactly those not complete that still have pending nodes, at every instant.
\<close>

theorem attempts_never_recorded:
  "cleanup_completed now (repl_run placement p es) max_age = repl_run placement p es \<and>
   (0 < rc_max_retries (rp_config p) \<longrightarrow>
     set (get_pending_retries now (repl_run placement p es)) =
       {key. \<exists>s. hm_get (rm_states (repl_run placement p es)) key = Some s \<and> \<not> rs_is_complete s \<and> rs_pending s \<noteq> []})"
proof -
  have ok: "repl_ok placement p key s" if "hm_get (rm_states (repl_run placement p es)) key = Some s" for key s
    using repl_run_inv [of placement p es] that by (simp add: repl_inv_def)
  have policy: "rm_policy (repl_run placement p es) = p"
    using repl_run_inv [of placement p es] by (simp add: repl_inv_def)
  have "hm_retain (\<lambda>_ state. if \<not> rs_is_complete state then True
      else case rs_last_attempt state of Some last_attempt \<Rightarrow> now - last_attempt < max_age | None \<Rightarrow> True)
      (rm_states (repl_run placement p es)) = rm_states (repl_run placement p es)"
    by (rule hm_retain_all) (use ok in \<open>auto simp: repl_ok_def\<close>)
  moreover have "should_retry now s (rp_config p) \<longleftrightarrow> \<not> rs_is_complete s \<and> rs_pending s \<noteq> []"
    if "0 < rc_max_retries (rp_config p)" "hm_get (rm_states (repl_run placement p es)) key = Some s" for key s
    using ok [OF that(2)] that(1) by (auto simp: should_retry_def repl_ok_def)
  ultimately show ?thesis
    by (auto simp: cleanup_completed_def get_pending_retries_def policy hm_in_iter image_iff)
qed

theorem attempts_never_recorded_witness:
  "get_pending_retries 0 (repl_run sample_placement ReplicationPolicy_default [Track ''k'', Ack ''k'' ''a'']) = [''k''] \<and>
   set (get_pending_retries 0 (repl_run sample_placement ReplicationPolicy_default [Track ''k'', Ack ''k'' ''a''])) =
       {key. \<exists>s. hm_get (rm_states (repl_run sample_placement ReplicationPolicy_default [Track ''k'', Ack ''k'' ''a''])) key =
          Some s \<and> \<not> rs_is_complete s \<and> rs_pending s \<noteq> []}"
proof
  have "0 < rc_max_retries (rp_config ReplicationPolicy_default)" by code_simp
  then show "set (get_pending_retries 0 (repl_run sample_placement ReplicationPolicy_default [Track ''k'', Ack ''k'' ''a''])) =
       {key. \<exists>s. hm_get (rm_states (repl_run sample_placement ReplicationPolicy_default [Track ''k'', Ack ''k'' ''a''])) key =
          Some s \<and> \<not> rs_is_complete s \<and> rs_pending s \<noteq> []}"
    using attempts_never_recorded [of 0 sample_placement ReplicationPolicy_default "[Track ''k'', Ack ''k'' ''a'']" 0]
    by blast
qed code_simp

end
