(* ===== verification/Query.thy ===== *)
theory Query
  imports Store
begin

text \<open>
  Queries over the storage (\<^verbatim>\<open>distributed-storage/src/query.rs\<close>): filters, the query builder, cursors, results
  and the keys of the block index, whose lexicographic order is the order of the block numbers.
\<close>

section \<open>Cursors and results\<close>

record QueryCursor =
  qr_last_block_id :: "u64 option"
  qr_last_key_hash :: "bytes option"
  qr_cursor_namespace :: string

definition QueryCursor_new :: "string \<Rightarrow> QueryCursor" where
  "QueryCursor_new namespace =
     \<lparr>qr_last_block_id = None, qr_last_key_hash = None, qr_cursor_namespace = namespace\<rparr>"

definition from_last_item :: "platform \<Rightarrow> string \<Rightarrow> u64 \<Rightarrow> StorageKey \<Rightarrow> QueryCursor" where
  "from_last_item P namespace block_id key =
     \<lparr>qr_last_block_id = Some block_id, qr_last_key_hash = Some (key_hash P key), qr_cursor_namespace = namespace\<rparr>"

record QueryResult =
  qr_items :: "(StorageKey \<times> StoredValue) list"
  qr_total_count :: "u64 option"
  qr_offset :: usize
  qr_limit :: usize
  qr_has_more :: bool
  qr_next_cursor :: "QueryCursor option"

definition QueryResult_empty :: "usize \<Rightarrow> QueryResult" where
  "QueryResult_empty limit =
     \<lparr>qr_items = [], qr_total_count = None, qr_offset = 0, qr_limit = limit, qr_has_more = False, qr_next_cursor = None\<rparr>"

definition QueryResult_new :: "(StorageKey \<times> StoredValue) list \<Rightarrow> usize \<Rightarrow> usize \<Rightarrow> bool \<Rightarrow> QueryResult" where
  "QueryResult_new items offset limit has_more =
     \<lparr>qr_items = items, qr_total_count = None, qr_offset = offset, qr_limit = limit, qr_has_more = has_more,
      qr_next_cursor = None\<rparr>"

definition with_total_count :: "QueryResult \<Rightarrow> u64 \<Rightarrow> QueryResult" where
  "with_total_count r n = r\<lparr>qr_total_count := Some n\<rparr>"

definition with_cursor :: "QueryResult \<Rightarrow> QueryCursor \<Rightarrow> QueryResult" where
  "with_cursor r cursor = r\<lparr>qr_next_cursor := Some cursor\<rparr>"

section \<open>Filters\<close>

datatype QueryFilter =
    BlockBefore u64
  | BlockAfter u64
  | BlockRange u64 u64
  | CreatedBefore i64
  | CreatedAfter i64
  | KeyPrefix bytes
  | And "QueryFilter list"
  | Or "QueryFilter list"

fun filter_matches :: "QueryFilter \<Rightarrow> u64 option \<Rightarrow> i64 \<Rightarrow> bytes \<Rightarrow> bool" where
  "filter_matches (BlockBefore max_block) block_id created_at key =
     (case block_id of None \<Rightarrow> True | Some b \<Rightarrow> b < max_block)"
| "filter_matches (BlockAfter min_block) block_id created_at key =
     (case block_id of None \<Rightarrow> False | Some b \<Rightarrow> b > min_block)"
| "filter_matches (BlockRange start end_block) block_id created_at key =
     (case block_id of None \<Rightarrow> False | Some b \<Rightarrow> b \<ge> start \<and> b \<le> end_block)"
| "filter_matches (CreatedBefore timestamp) block_id created_at key = (created_at < timestamp)"
| "filter_matches (CreatedAfter timestamp) block_id created_at key = (created_at > timestamp)"
| "filter_matches (KeyPrefix prefix) block_id created_at key = starts_with key prefix"
| "filter_matches (And filters) block_id created_at key =
     (\<forall>f \<in> set filters. filter_matches f block_id created_at key)"
| "filter_matches (Or filters) block_id created_at key =
     (\<exists>f \<in> set filters. filter_matches f block_id created_at key)"

section \<open>The query builder\<close>

record QueryBuilder =
  qb_namespace :: string
  qb_filters :: "QueryFilter list"
  qb_limit :: usize
  qb_offset :: usize
  qb_cursor :: "QueryCursor option"
  qb_include_count :: bool
  qb_order_ascending :: bool

definition QueryBuilder_new :: "string \<Rightarrow> QueryBuilder" where
  "QueryBuilder_new namespace =
     \<lparr>qb_namespace = namespace, qb_filters = [], qb_limit = 100, qb_offset = 0, qb_cursor = None,
      qb_include_count = False, qb_order_ascending = True\<rparr>"

definition before_block :: "QueryBuilder \<Rightarrow> u64 \<Rightarrow> QueryBuilder" where
  "before_block q block_id = q\<lparr>qb_filters := qb_filters q @ [BlockBefore block_id]\<rparr>"

definition after_block :: "QueryBuilder \<Rightarrow> u64 \<Rightarrow> QueryBuilder" where
  "after_block q block_id = q\<lparr>qb_filters := qb_filters q @ [BlockAfter block_id]\<rparr>"

definition block_range :: "QueryBuilder \<Rightarrow> u64 \<Rightarrow> u64 \<Rightarrow> QueryBuilder" where
  "block_range q start end_block = q\<lparr>qb_filters := qb_filters q @ [BlockRange start end_block]\<rparr>"

definition created_before :: "QueryBuilder \<Rightarrow> i64 \<Rightarrow> QueryBuilder" where
  "created_before q timestamp = q\<lparr>qb_filters := qb_filters q @ [CreatedBefore timestamp]\<rparr>"

definition created_after :: "QueryBuilder \<Rightarrow> i64 \<Rightarrow> QueryBuilder" where
  "created_after q timestamp = q\<lparr>qb_filters := qb_filters q @ [CreatedAfter timestamp]\<rparr>"

definition key_prefix :: "QueryBuilder \<Rightarrow> bytes \<Rightarrow> QueryBuilder" where
  "key_prefix q prefix = q\<lparr>qb_filters := qb_filters q @ [KeyPrefix prefix]\<rparr>"

definition set_limit :: "QueryBuilder \<Rightarrow> usize \<Rightarrow> QueryBuilder" where
  "set_limit q limit = q\<lparr>qb_limit := limit\<rparr>"

definition set_offset :: "QueryBuilder \<Rightarrow> usize \<Rightarrow> QueryBuilder" where
  "set_offset q offset = q\<lparr>qb_offset := offset\<rparr>"

definition set_cursor :: "QueryBuilder \<Rightarrow> QueryCursor \<Rightarrow> QueryBuilder" where
  "set_cursor q cursor = q\<lparr>qb_cursor := Some cursor\<rparr>"

definition with_count :: "QueryBuilder \<Rightarrow> QueryBuilder" where
  "with_count q = q\<lparr>qb_include_count := True\<rparr>"

definition ascending :: "QueryBuilder \<Rightarrow> QueryBuilder" where
  "ascending q = q\<lparr>qb_order_ascending := True\<rparr>"

definition descending :: "QueryBuilder \<Rightarrow> QueryBuilder" where
  "descending q = q\<lparr>qb_order_ascending := False\<rparr>"

definition build_filter :: "QueryBuilder \<Rightarrow> QueryFilter option" where
  "build_filter q =
     (if qb_filters q = [] then None
      else if length (qb_filters q) = 1 then Some (qb_filters q ! 0)
      else Some (And (qb_filters q)))"

section \<open>Keys of the block index\<close>

definition block_index_key :: "platform \<Rightarrow> string \<Rightarrow> u64 \<Rightarrow> StorageKey \<Rightarrow> bytes" where
  "block_index_key P namespace block_id key =
     as_bytes namespace @ [colon] @ to_be_bytes block_id @ [colon] @ key_hash P key"

definition parse_block_index_key :: "bytes \<Rightarrow> (string \<times> u64 \<times> bytes) option" where
  "parse_block_index_key key =
     (case position (\<lambda>b. b = colon) key of
        None \<Rightarrow> None
      | Some first_colon \<Rightarrow>
          (case from_utf8 (take first_colon key) of
             None \<Rightarrow> None
           | Some namespace \<Rightarrow>
               let rest = drop (first_colon + 1) key
               in if length rest < 8 + 1 + 32 then None
                  else let block_id = from_be_bytes (take 8 rest)
                       in if rest ! 8 \<noteq> colon then None
                          else Some (namespace, block_id, take 32 (drop 9 rest))))"

definition saturating_add1 :: "u64 \<Rightarrow> u64" where
  "saturating_add1 w = (if w = - 1 then w else w + 1)"

definition block_range_start :: "string \<Rightarrow> u64 \<Rightarrow> bytes" where
  "block_range_start namespace start_block = as_bytes namespace @ [colon] @ to_be_bytes start_block"

definition block_range_end :: "string \<Rightarrow> u64 \<Rightarrow> bytes" where
  "block_range_end namespace end_block =
     as_bytes namespace @ [colon] @ to_be_bytes (saturating_add1 end_block)"

section \<open>Lemmas\<close>

lemma build_filter_matches:
  "(case build_filter q of None \<Rightarrow> True | Some f \<Rightarrow> filter_matches f block_id created_at key) \<longleftrightarrow>
   (\<forall>f \<in> set (qb_filters q). filter_matches f block_id created_at key)"
proof (cases "qb_filters q")
  case (Cons f fs)
  then show ?thesis by (cases fs) (auto simp: build_filter_def)
qed (simp add: build_filter_def)

text \<open>Parsing inverts the construction of an index key.\<close>

lemma parse_block_index_key:
  assumes "CHR '':'' \<notin> set namespace" "valid_utf8 (as_bytes namespace)" "length (key_hash P key) = 32"
  shows "parse_block_index_key (block_index_key P namespace block_id key) = Some (namespace, block_id, key_hash P key)"
proof -
  have pos: "position (\<lambda>b. b = colon) (block_index_key P namespace block_id key) = Some (length namespace)"
    unfolding block_index_key_def append.append_Cons append.append_Nil
    by (subst position_append_first) (use assms(1) in \<open>auto simp: colon_in_as_bytes [symmetric] simp del: colon_in_as_bytes\<close>)
  have "drop (length namespace + 1) (block_index_key P namespace block_id key) =
      to_be_bytes block_id @ colon # key_hash P key"
    by (simp add: block_index_key_def)
  moreover have "take (length namespace) (block_index_key P namespace block_id key) = as_bytes namespace"
    by (simp add: block_index_key_def)
  ultimately show ?thesis
    unfolding parse_block_index_key_def pos using assms(2,3) by (simp add: from_utf8_def nth_append)
qed

lemma index_key_less_start:
  "block_index_key P namespace b key < block_range_start namespace s \<longleftrightarrow> b < s"
proof (cases "b = s")
  case True
  have "\<not> to_be_bytes s @ xs < to_be_bytes s" for xs
    using append_less_same [of "to_be_bytes s" xs "[]"] by simp
  with True show ?thesis by (simp add: block_index_key_def block_range_start_def)
next
  case False
  then show ?thesis
    using less_append_diff [of "to_be_bytes b" "to_be_bytes s" "colon # key_hash P key" "[]"]
    by (simp add: block_index_key_def block_range_start_def)
qed

lemma block_index_key_inject:
  assumes "CHR '':'' \<notin> set n" "CHR '':'' \<notin> set n'"
  shows "block_index_key P n b k = block_index_key P n' b' k' \<longleftrightarrow> n = n' \<and> b = b' \<and> key_hash P k = key_hash P k'"
proof
  assume "block_index_key P n b k = block_index_key P n' b' k'"
  then have "as_bytes n = as_bytes n' \<and>
      to_be_bytes b @ colon # key_hash P k = to_be_bytes b' @ colon # key_hash P k'"
    by (intro first_colon_inject) (use assms in \<open>simp_all add: block_index_key_def\<close>)
  then show "n = n' \<and> b = b' \<and> key_hash P k = key_hash P k'"
    by (simp add: append_eq_append_conv)
qed (simp add: block_index_key_def)

lemma index_key_order:
  "b < b' \<Longrightarrow> block_index_key P n b k < block_index_key P n b' k'"
  using less_append_diff [of "to_be_bytes b" "to_be_bytes b'" "colon # key_hash P k" "colon # key_hash P k'"]
  by (auto simp: block_index_key_def)

end
