(* ===== verification/Local_Storage.thy ===== *)
theory Local_Storage
  imports Query
begin

text \<open>
  The local storage of a node (\<^verbatim>\<open>distributed-storage/src/local.rs\<close>): values with replication metadata in a data
  tree, an index of the keys of each namespace, a secondary index by block, optimistic concurrency, expiry and
  queries. The trees are those of the embedded database sled and the encoding of an entry is bincode's; both are
  arguments of the model. The operations of a tree succeed: failures of the disk are not represented.
\<close>

section \<open>Entries\<close>

definition MAX_ENTRY_SIZE :: nat where
  "MAX_ENTRY_SIZE = 100 * 1024 * 1024"

record ReplicationInfo =
  ri_replicated_to :: "string set"
  ri_last_replication_at :: i64
  ri_replication_attempts :: u32
  ri_needs_replication :: bool

definition ReplicationInfo_default :: ReplicationInfo where
  "ReplicationInfo_default =
     \<lparr>ri_replicated_to = {}, ri_last_replication_at = 0, ri_replication_attempts = 0, ri_needs_replication = True\<rparr>"

definition info_mark_replicated :: "i64 \<Rightarrow> ReplicationInfo \<Rightarrow> string \<Rightarrow> ReplicationInfo" where
  "info_mark_replicated now i node_id =
     i\<lparr>ri_replicated_to := insert node_id (ri_replicated_to i), ri_last_replication_at := now\<rparr>"

definition meets_replication_factor :: "ReplicationInfo \<Rightarrow> usize \<Rightarrow> bool" where
  "meets_replication_factor i factor = (card (ri_replicated_to i) \<ge> factor)"

record LocalEntry =
  le_value :: StoredValue
  le_replication :: ReplicationInfo
  le_block_id :: "u64 option"

text \<open>
  The trees of sled, ordered maps from byte strings to byte strings with iteration in ascending order, and the
  encoding of entries. Decoding is limited to \<^const>\<open>MAX_ENTRY_SIZE\<close> bytes, encoding is not.
\<close>

record 't storage_env =
  se_platform :: platform
  tree_empty :: 't
  tree_get :: "'t \<Rightarrow> bytes \<Rightarrow> bytes option"
  tree_insert :: "'t \<Rightarrow> bytes \<Rightarrow> bytes \<Rightarrow> 't"
  tree_remove :: "'t \<Rightarrow> bytes \<Rightarrow> 't"
  tree_iter :: "'t \<Rightarrow> (bytes \<times> bytes) list"
  entry_encode :: "LocalEntry \<Rightarrow> string + bytes"
  entry_decode :: "bytes \<Rightarrow> string + LocalEntry"

definition tree_range :: "'t storage_env \<Rightarrow> 't \<Rightarrow> bytes \<Rightarrow> bytes option \<Rightarrow> (bytes \<times> bytes) list" where
  "tree_range S t start end_key =
     filter (\<lambda>(k, _). start \<le> k \<and> (case end_key of Some e \<Rightarrow> k < e | None \<Rightarrow> True)) (tree_iter S t)"

text \<open>What the code relies on: the documented behaviour of an ordered map, and that decoding inverts encoding.\<close>

definition trees_ok :: "'t storage_env \<Rightarrow> bool" where
  "trees_ok S \<longleftrightarrow>
     (\<forall>k. tree_get S (tree_empty S) k = None) \<and>
     (\<forall>t k v k'. tree_get S (tree_insert S t k v) k' = (if k' = k then Some v else tree_get S t k')) \<and>
     (\<forall>t k k'. tree_get S (tree_remove S t k) k' = (if k' = k then None else tree_get S t k')) \<and>
     (\<forall>t. sorted_wrt (<) (map fst (tree_iter S t))) \<and>
     (\<forall>t k v. (k, v) \<in> set (tree_iter S t) \<longleftrightarrow> tree_get S t k = Some v)"

definition codec_ok :: "'t storage_env \<Rightarrow> bool" where
  "codec_ok S \<longleftrightarrow>
     (\<forall>e v. entry_encode S e = Inr v \<longrightarrow>
        (if length v \<le> MAX_ENTRY_SIZE then entry_decode S v = Inr e else \<exists>err. entry_decode S v = Inl err)) \<and>
     (\<forall>e e' v. entry_encode S e = Inr v \<longrightarrow> entry_encode S e' = Inr v \<longrightarrow> e = e')"

section \<open>The storage\<close>

record 't LocalStorage =
  ls_data_tree :: 't
  ls_index_tree :: 't
  ls_block_index_tree :: 't
  ls_node_id :: string
  ls_namespace_counts :: "(string, u64) hashmap"

fun count_namespaces :: "(string, u64) hashmap \<Rightarrow> (bytes \<times> bytes) list \<Rightarrow> (string, u64) hashmap" where
  "count_namespaces counts [] = counts"
| "count_namespaces counts ((key, _) # rest) =
     (case from_utf8 key of
        None \<Rightarrow> count_namespaces counts rest
      | Some key_str \<Rightarrow>
          let ns = takeWhile (\<lambda>c. c \<noteq> CHR '':'') key_str
          in count_namespaces
               (hm_insert ns ((case hm_get counts ns of Some n \<Rightarrow> n | None \<Rightarrow> 0) + 1) counts) rest)"

definition rebuild_namespace_counts :: "'t storage_env \<Rightarrow> 't LocalStorage \<Rightarrow> 't LocalStorage" where
  "rebuild_namespace_counts S st =
     st\<lparr>ls_namespace_counts := count_namespaces hm_new (tree_iter S (ls_index_tree st))\<rparr>"

definition open_storage :: "'t storage_env \<Rightarrow> 't \<Rightarrow> 't \<Rightarrow> 't \<Rightarrow> string \<Rightarrow> 't LocalStorage" where
  "open_storage S data_tree index_tree block_index_tree node_id =
     rebuild_namespace_counts S
       \<lparr>ls_data_tree = data_tree, ls_index_tree = index_tree, ls_block_index_tree = block_index_tree,
        ls_node_id = node_id, ls_namespace_counts = hm_new\<rparr>"

definition in_memory :: "'t storage_env \<Rightarrow> string \<Rightarrow> 't LocalStorage" where
  "in_memory S node_id =
     \<lparr>ls_data_tree = tree_empty S, ls_index_tree = tree_empty S, ls_block_index_tree = tree_empty S,
      ls_node_id = node_id, ls_namespace_counts = hm_new\<rparr>"

definition get_entry :: "'t storage_env \<Rightarrow> 't LocalStorage \<Rightarrow> StorageKey \<Rightarrow> StorageError + LocalEntry option" where
  "get_entry S st key =
     (case tree_get S (ls_data_tree st) (to_bytes key) of
        Some bs \<Rightarrow> (case entry_decode S bs of Inl err \<Rightarrow> Inl (Serialization err) | Inr entry \<Rightarrow> Inr (Some entry))
      | None \<Rightarrow> Inr None)"

definition index_key :: "'t storage_env \<Rightarrow> StorageKey \<Rightarrow> bytes" where
  "index_key S key = as_bytes (sk_namespace key @ '':'' @ hex_encode (se_platform S) (sk_key key))"

definition put_entry ::
  "'t storage_env \<Rightarrow> 't LocalStorage \<Rightarrow> StorageKey \<Rightarrow> LocalEntry \<Rightarrow> (StorageError + unit) \<times> 't LocalStorage" where
  "put_entry S st key entry =
     (case entry_encode S entry of
        Inl err \<Rightarrow> (Inl (Serialization err), st)
      | Inr bs \<Rightarrow>
          (case get_entry S st key of
             Inl err \<Rightarrow> (Inl err, st)
           | Inr existing \<Rightarrow>
               let block1 =
                     (case existing of
                        Some old_entry \<Rightarrow>
                          if le_block_id old_entry \<noteq> le_block_id entry
                          then (case le_block_id old_entry of
                                  Some old_block_id \<Rightarrow>
                                    tree_remove S (ls_block_index_tree st)
                                      (block_index_key (se_platform S) (sk_namespace key) old_block_id key)
                                | None \<Rightarrow> ls_block_index_tree st)
                          else ls_block_index_tree st
                      | None \<Rightarrow> ls_block_index_tree st);
                   block2 =
                     (case le_block_id entry of
                        Some block_id \<Rightarrow>
                          tree_insert S block1 (block_index_key (se_platform S) (sk_namespace key) block_id key) (to_bytes key)
                      | None \<Rightarrow> block1);
                   counts = ls_namespace_counts st
               in (Inr (),
                   st\<lparr>ls_data_tree := tree_insert S (ls_data_tree st) (to_bytes key) bs,
                      ls_index_tree := tree_insert S (ls_index_tree st) (index_key S key) (to_bytes key),
                      ls_block_index_tree := block2,
                      ls_namespace_counts :=
                        (if existing = None
                         then hm_insert (sk_namespace key)
                                ((case hm_get counts (sk_namespace key) of Some n \<Rightarrow> n | None \<Rightarrow> 0) + 1) counts
                         else counts)\<rparr>)))"

definition delete_entry :: "'t storage_env \<Rightarrow> 't LocalStorage \<Rightarrow> StorageKey \<Rightarrow> (StorageError + bool) \<times> 't LocalStorage" where
  "delete_entry S st key =
     (case get_entry S st key of
        Inl err \<Rightarrow> (Inl err, st)
      | Inr entry \<Rightarrow>
          if tree_get S (ls_data_tree st) (to_bytes key) \<noteq> None
          then (Inr True,
                st\<lparr>ls_data_tree := tree_remove S (ls_data_tree st) (to_bytes key),
                   ls_index_tree := tree_remove S (ls_index_tree st) (index_key S key),
                   ls_block_index_tree :=
                     (case entry of
                        Some e \<Rightarrow>
                          (case le_block_id e of
                             Some block_id \<Rightarrow>
                               tree_remove S (ls_block_index_tree st)
                                 (block_index_key (se_platform S) (sk_namespace key) block_id key)
                           | None \<Rightarrow> ls_block_index_tree st)
                      | None \<Rightarrow> ls_block_index_tree st),
                   ls_namespace_counts :=
                     (case hm_get (ls_namespace_counts st) (sk_namespace key) of
                        Some n \<Rightarrow> hm_insert (sk_namespace key) (if n = 0 then 0 else n - 1) (ls_namespace_counts st)
                      | None \<Rightarrow> ls_namespace_counts st)\<rparr>)
          else (Inr False, st\<lparr>ls_data_tree := tree_remove S (ls_data_tree st) (to_bytes key)\<rparr>))"

definition mark_replicated ::
  "'t storage_env \<Rightarrow> i64 \<Rightarrow> 't LocalStorage \<Rightarrow> StorageKey \<Rightarrow> string \<Rightarrow> (StorageError + unit) \<times> 't LocalStorage" where
  "mark_replicated S now st key node_id =
     (case get_entry S st key of
        Inl err \<Rightarrow> (Inl err, st)
      | Inr None \<Rightarrow> (Inr (), st)
      | Inr (Some entry) \<Rightarrow>
          put_entry S st key (entry\<lparr>le_replication := info_mark_replicated now (le_replication entry) node_id\<rparr>))"

fun needing_loop :: "'t storage_env \<Rightarrow> usize \<Rightarrow> StorageKey list \<Rightarrow> (bytes \<times> bytes) list \<Rightarrow> StorageError + StorageKey list" where
  "needing_loop S limit keys [] = Inr keys"
| "needing_loop S limit keys ((key_bytes, value_bytes) # rest) =
     (case entry_decode S value_bytes of
        Inl err \<Rightarrow> Inl (Serialization err)
      | Inr entry \<Rightarrow>
          if ri_needs_replication (le_replication entry)
          then (case Option.bind (from_utf8 key_bytes) (split_once CHR '':'') of
                  None \<Rightarrow> needing_loop S limit keys rest
                | Some (namespace, r) \<Rightarrow>
                    let keys' = keys @ [StorageKey_new namespace (as_bytes r)]
                    in if length keys' \<ge> limit then Inr keys' else needing_loop S limit keys' rest)
          else needing_loop S limit keys rest)"

definition keys_needing_replication :: "'t storage_env \<Rightarrow> 't LocalStorage \<Rightarrow> usize \<Rightarrow> StorageError + StorageKey list" where
  "keys_needing_replication S st limit = needing_loop S limit [] (tree_iter S (ls_data_tree st))"

definition get_replication_info ::
  "'t storage_env \<Rightarrow> 't LocalStorage \<Rightarrow> StorageKey \<Rightarrow> StorageError + ReplicationInfo option" where
  "get_replication_info S st key = map_sum id (map_option le_replication) (get_entry S st key)"

definition get_block_id :: "'t storage_env \<Rightarrow> 't LocalStorage \<Rightarrow> StorageKey \<Rightarrow> StorageError + u64 option" where
  "get_block_id S st key = map_sum id (\<lambda>e. Option.bind e le_block_id) (get_entry S st key)"

section \<open>Reading and writing\<close>

text \<open>Optimistic concurrency, the same in both writing operations.\<close>

definition check_version :: "LocalEntry option \<Rightarrow> PutOptions \<Rightarrow> StorageError + unit" where
  "check_version existing options =
     (case po_expected_version options of
        None \<Rightarrow> Inr ()
      | Some expected_version \<Rightarrow>
          (case existing of
             Some e \<Rightarrow>
               if vm_version (sv_metadata (le_value e)) \<noteq> expected_version
               then Inl (Conflict (''Version mismatch: expected '' @ decimal (unat expected_version) @ '', found '' @
                      decimal (unat (vm_version (sv_metadata (le_value e))))))
               else Inr ()
           | None \<Rightarrow>
               if expected_version \<noteq> 0
               then Inl (Conflict (''Key does not exist but expected version '' @ decimal (unat expected_version)))
               else Inr ()))"

definition new_value :: "'t storage_env \<Rightarrow> i64 \<Rightarrow> 't LocalStorage \<Rightarrow> LocalEntry option \<Rightarrow> bytes \<Rightarrow> PutOptions \<Rightarrow> StoredValue" where
  "new_value S now st existing value options =
     (let stored_value =
            (case existing of
               Some e \<Rightarrow> \<lparr>sv_data = value,
                          sv_metadata = metadata_update (se_platform S) now (sv_metadata (le_value e)) value (Some (ls_node_id st))\<rparr>
             | None \<Rightarrow> StoredValue_new (se_platform S) now value (Some (ls_node_id st)))
      in if po_ttl_seconds options > 0
         then stored_value\<lparr>sv_metadata := (sv_metadata stored_value)\<lparr>vm_ttl_seconds := po_ttl_seconds options\<rparr>\<rparr>
         else stored_value)"

definition put_value ::
  "'t storage_env \<Rightarrow> i64 \<Rightarrow> 't LocalStorage \<Rightarrow> StorageKey \<Rightarrow> bytes \<Rightarrow> u64 option \<Rightarrow> PutOptions \<Rightarrow>
     (StorageError + ValueMetadata) \<times> 't LocalStorage" where
  "put_value S now st key value block_id options =
     (case get_entry S st key of
        Inl err \<Rightarrow> (Inl err, st)
      | Inr existing \<Rightarrow>
          (case check_version existing options of
             Inl err \<Rightarrow> (Inl err, st)
           | Inr _ \<Rightarrow>
               let stored_value = new_value S now st existing value options;
                   entry = \<lparr>le_value = stored_value,
                            le_replication = ReplicationInfo_default\<lparr>ri_needs_replication := \<not> po_local_only options\<rparr>,
                            le_block_id = block_id\<rparr>
               in (case put_entry S st key entry of
                     (Inl err, st') \<Rightarrow> (Inl err, st')
                   | (Inr _, st') \<Rightarrow> (Inr (sv_metadata stored_value), st'))))"

definition put ::
  "'t storage_env \<Rightarrow> i64 \<Rightarrow> 't LocalStorage \<Rightarrow> StorageKey \<Rightarrow> bytes \<Rightarrow> PutOptions \<Rightarrow>
     (StorageError + ValueMetadata) \<times> 't LocalStorage" where
  "put S now st key value options = put_value S now st key value None options"

definition put_with_block ::
  "'t storage_env \<Rightarrow> i64 \<Rightarrow> 't LocalStorage \<Rightarrow> StorageKey \<Rightarrow> bytes \<Rightarrow> u64 \<Rightarrow> PutOptions \<Rightarrow>
     (StorageError + ValueMetadata) \<times> 't LocalStorage" where
  "put_with_block S now st key value block_id options = put_value S now st key value (Some block_id) options"

definition get_value ::
  "'t storage_env \<Rightarrow> i64 \<Rightarrow> 't LocalStorage \<Rightarrow> StorageKey \<Rightarrow> (StorageError + StoredValue option) \<times> 't LocalStorage" where
  "get_value S now st key =
     (case get_entry S st key of
        Inl err \<Rightarrow> (Inl err, st)
      | Inr None \<Rightarrow> (Inr None, st)
      | Inr (Some entry) \<Rightarrow>
          if is_expired now (sv_metadata (le_value entry))
          then (case delete_entry S st key of
                  (Inl err, st') \<Rightarrow> (Inl err, st')
                | (Inr _, st') \<Rightarrow> (Inr None, st'))
          else (Inr (Some (le_value entry)), st))"

definition key_exists :: "'t storage_env \<Rightarrow> 't LocalStorage \<Rightarrow> StorageKey \<Rightarrow> bool" where
  "key_exists S st key = (tree_get S (ls_data_tree st) (to_bytes key) \<noteq> None)"

definition count_by_namespace :: "'t LocalStorage \<Rightarrow> string \<Rightarrow> u64" where
  "count_by_namespace st namespace = (case hm_get (ls_namespace_counts st) namespace of Some n \<Rightarrow> n | None \<Rightarrow> 0)"

definition storage_stats :: "'t storage_env \<Rightarrow> 't LocalStorage \<Rightarrow> StorageStats" where
  "storage_stats S st =
     (let counts = ls_namespace_counts st;
          total_keys = sum_list (hm_values counts);
          total_bytes = foldl (\<lambda>acc (_, value). acc + of_nat (length value)) 0 (tree_iter S (ls_data_tree st))
      in \<lparr>ss_total_keys = total_keys, ss_total_bytes = total_bytes, ss_keys_per_namespace = counts,
          ss_local_replicas = total_keys, ss_remote_peers = 0\<rparr>)"

section \<open>Listing a namespace\<close>

definition increment_last :: "bytes \<Rightarrow> bytes" where
  "increment_last k =
     (if k = [] then [] else butlast k @ [if last k = - 1 then last k else last k + 1])"

fun list_loop ::
  "'t storage_env \<Rightarrow> i64 \<Rightarrow> 't LocalStorage \<Rightarrow> bytes \<Rightarrow> usize \<Rightarrow> (StorageKey \<times> StoredValue) list \<Rightarrow> bytes option \<Rightarrow>
     (bytes \<times> bytes) list \<Rightarrow> StorageError + (StorageKey \<times> StoredValue) list \<times> bytes option" where
  "list_loop S now st scan_prefix limit items last_key [] = Inr (items, last_key)"
| "list_loop S now st scan_prefix limit items last_key ((ik, data_key) # rest) =
     (if \<not> starts_with ik scan_prefix then Inr (items, last_key)
      else
        case tree_get S (ls_data_tree st) data_key of
          None \<Rightarrow> list_loop S now st scan_prefix limit items last_key rest
        | Some value_bytes \<Rightarrow>
            (case entry_decode S value_bytes of
               Inl err \<Rightarrow> Inl (Serialization err)
             | Inr entry \<Rightarrow>
                 if is_expired now (sv_metadata (le_value entry))
                 then list_loop S now st scan_prefix limit items last_key rest
                 else
                   case Option.bind (from_utf8 data_key) (split_once CHR '':'') of
                     None \<Rightarrow> list_loop S now st scan_prefix limit items last_key rest
                   | Some (ns, r) \<Rightarrow>
                       let items' = items @ [(StorageKey_new ns (as_bytes r), le_value entry)]
                       in if length items' \<ge> limit then Inr (items', Some ik)
                          else list_loop S now st scan_prefix limit items' (Some ik) rest))"

definition list_prefix ::
  "'t storage_env \<Rightarrow> i64 \<Rightarrow> 't LocalStorage \<Rightarrow> string \<Rightarrow> bytes option \<Rightarrow> usize \<Rightarrow> bytes option \<Rightarrow> StorageError + ListResult" where
  "list_prefix S now st namespace prefix limit continuation_token =
     (let scan_prefix =
            as_bytes (case prefix of
                        Some p \<Rightarrow> namespace @ '':'' @ hex_encode (se_platform S) p
                      | None \<Rightarrow> namespace @ '':'');
          start = (case continuation_token of Some token \<Rightarrow> token | None \<Rightarrow> scan_prefix)
      in case list_loop S now st scan_prefix limit [] None (tree_range S (ls_index_tree st) start None) of
           Inl err \<Rightarrow> Inl err
         | Inr (items, last_key) \<Rightarrow>
             let has_more = (length items \<ge> limit)
             in Inr \<lparr>lr_items = items, lr_has_more = has_more,
                     lr_continuation_token = (if has_more then map_option increment_last last_key else None)\<rparr>)"

section \<open>Queries by block\<close>

definition note_block_filter :: "u64 option \<times> u64 option \<Rightarrow> QueryFilter \<Rightarrow> u64 option \<times> u64 option" where
  "note_block_filter bounds f =
     (let (min_block, max_block) = bounds in
      case f of
        BlockBefore block \<Rightarrow> (min_block, Some (case max_block of None \<Rightarrow> block | Some m \<Rightarrow> min m block))
      | BlockAfter block \<Rightarrow>
          let start = saturating_add1 block
          in (Some (case min_block of None \<Rightarrow> start | Some m \<Rightarrow> max m start), max_block)
      | BlockRange start end_block \<Rightarrow>
          (Some (case min_block of None \<Rightarrow> start | Some m \<Rightarrow> max m start),
           Some (case max_block of None \<Rightarrow> end_block + 1 | Some m \<Rightarrow> min m (end_block + 1)))
      | _ \<Rightarrow> (min_block, max_block))"

definition note_filter :: "u64 option \<times> u64 option \<Rightarrow> QueryFilter \<Rightarrow> u64 option \<times> u64 option" where
  "note_filter bounds f =
     (case f of And filters \<Rightarrow> foldl note_block_filter bounds filters | _ \<Rightarrow> note_block_filter bounds f)"

definition determine_scan_range_from_query :: "QueryBuilder \<Rightarrow> bytes \<times> bytes option" where
  "determine_scan_range_from_query q =
     (let (min_block, max_block) = foldl note_filter (None, None) (qb_filters q)
      in (block_range_start (qb_namespace q) (case min_block of Some b \<Rightarrow> b | None \<Rightarrow> 0),
          map_option (block_range_start (qb_namespace q)) max_block))"

definition filtered_out :: "QueryFilter option \<Rightarrow> LocalEntry \<Rightarrow> bytes \<Rightarrow> bool" where
  "filtered_out filt entry data_key =
     (case filt of
        None \<Rightarrow> False
      | Some f \<Rightarrow>
          (case Option.bind (from_utf8 data_key) (split_once CHR '':'') of
             None \<Rightarrow> False
           | Some (_, r) \<Rightarrow>
               \<not> filter_matches f (le_block_id entry) (vm_created_at (sv_metadata (le_value entry))) (as_bytes r)))"

fun query_loop ::
  "'t storage_env \<Rightarrow> i64 \<Rightarrow> 't LocalStorage \<Rightarrow> string \<Rightarrow> usize \<Rightarrow> QueryFilter option \<Rightarrow> (StorageKey \<times> StoredValue \<times> u64) list \<Rightarrow>
     (bytes \<times> bytes) list \<Rightarrow> StorageError + (StorageKey \<times> StoredValue \<times> u64) list" where
  "query_loop S now st namespace limit filt results [] = Inr results"
| "query_loop S now st namespace limit filt results ((bk, data_key) # rest) =
     (case parse_block_index_key bk of
        None \<Rightarrow> query_loop S now st namespace limit filt results rest
      | Some (parsed_namespace, block_id, _) \<Rightarrow>
          if parsed_namespace \<noteq> namespace then Inr results
          else
            case tree_get S (ls_data_tree st) data_key of
              None \<Rightarrow> query_loop S now st namespace limit filt results rest
            | Some value_bytes \<Rightarrow>
                (case entry_decode S value_bytes of
                   Inl err \<Rightarrow> Inl (Serialization err)
                 | Inr entry \<Rightarrow>
                     if is_expired now (sv_metadata (le_value entry))
                     then query_loop S now st namespace limit filt results rest
                     else if filtered_out filt entry data_key
                     then query_loop S now st namespace limit filt results rest
                     else
                       case Option.bind (from_utf8 data_key) (split_once CHR '':'') of
                         None \<Rightarrow> query_loop S now st namespace limit filt results rest
                       | Some (ns, r) \<Rightarrow>
                           let results' = results @ [(StorageKey_new ns (as_bytes r), le_value entry, block_id)]
                           in if length results' \<ge> limit then Inr results'
                              else query_loop S now st namespace limit filt results' rest))"

definition query_block_index_range ::
  "'t storage_env \<Rightarrow> i64 \<Rightarrow> 't LocalStorage \<Rightarrow> string \<Rightarrow> bytes \<Rightarrow> bytes option \<Rightarrow> usize \<Rightarrow> QueryFilter option \<Rightarrow>
     StorageError + (StorageKey \<times> StoredValue \<times> u64) list" where
  "query_block_index_range S now st namespace start_key end_key limit filt =
     query_loop S now st namespace limit filt [] (tree_range S (ls_block_index_tree st) start_key end_key)"

definition block_listing ::
  "'t storage_env \<Rightarrow> i64 \<Rightarrow> 't LocalStorage \<Rightarrow> string \<Rightarrow> bytes \<Rightarrow> bytes option \<Rightarrow> usize \<Rightarrow> StorageError + QueryResult" where
  "block_listing S now st namespace start_key end_key limit =
     map_sum id (\<lambda>results. let items = map (\<lambda>(k, v, _). (k, v)) results
                           in QueryResult_new items 0 limit (length items \<ge> limit))
       (query_block_index_range S now st namespace start_key end_key limit None)"

definition list_before_block ::
  "'t storage_env \<Rightarrow> i64 \<Rightarrow> 't LocalStorage \<Rightarrow> string \<Rightarrow> u64 \<Rightarrow> usize \<Rightarrow> StorageError + QueryResult" where
  "list_before_block S now st namespace block_id limit =
     block_listing S now st namespace (block_range_start namespace 0) (Some (block_range_start namespace block_id)) limit"

definition list_after_block ::
  "'t storage_env \<Rightarrow> i64 \<Rightarrow> 't LocalStorage \<Rightarrow> string \<Rightarrow> u64 \<Rightarrow> usize \<Rightarrow> StorageError + QueryResult" where
  "list_after_block S now st namespace block_id limit =
     block_listing S now st namespace (block_range_end namespace block_id) None limit"

definition list_range ::
  "'t storage_env \<Rightarrow> i64 \<Rightarrow> 't LocalStorage \<Rightarrow> string \<Rightarrow> u64 \<Rightarrow> u64 \<Rightarrow> usize \<Rightarrow> StorageError + QueryResult" where
  "list_range S now st namespace start_block end_block limit =
     block_listing S now st namespace (block_range_start namespace start_block)
       (Some (block_range_end namespace end_block)) limit"

definition cursor_start :: "QueryBuilder \<Rightarrow> bytes \<Rightarrow> bytes" where
  "cursor_start q start_key =
     (case qb_cursor q of
        Some cursor \<Rightarrow>
          (case (qr_last_block_id cursor, qr_last_key_hash cursor) of
             (Some last_block, Some last_hash) \<Rightarrow>
               increment_last (as_bytes (qb_namespace q) @ [colon] @ to_be_bytes last_block @ [colon] @ last_hash)
           | _ \<Rightarrow> start_key)
      | None \<Rightarrow> start_key)"

definition query :: "'t storage_env \<Rightarrow> i64 \<Rightarrow> 't LocalStorage \<Rightarrow> QueryBuilder \<Rightarrow> StorageError + QueryResult" where
  "query S now st q =
     (let namespace = qb_namespace q;
          limit = qb_limit q;
          (start_key, end_key) = determine_scan_range_from_query q
      in case query_block_index_range S now st namespace (cursor_start q start_key) end_key (limit + 1) (build_filter q) of
           Inl err \<Rightarrow> Inl err
         | Inr results \<Rightarrow>
             let has_more = (length results > limit);
                 page = take limit results;
                 next_cursor =
                   (if has_more \<and> page \<noteq> []
                    then (case last page of (last_key, _, last_block) \<Rightarrow>
                            Some (from_last_item (se_platform S) namespace last_block last_key))
                    else None);
                 result = QueryResult_new (map (\<lambda>(k, v, _). (k, v)) page) (qb_offset q) limit has_more;
                 result1 = (case next_cursor of Some cursor \<Rightarrow> with_cursor result cursor | None \<Rightarrow> result)
             in Inr (if qb_include_count q
                     then with_total_count result1 (count_by_namespace st namespace) else result1))"

end
