(* ===== verification/Local_Storage_Facts.thy ===== *)
theory Local_Storage_Facts
  imports Local_Storage
begin

text \<open>
  Correctness of the local storage: the three trees and the counts stay consistent, what was put is what is got,
  and the queries by block return exactly the matching entries. The keys in use are a finite set \<open>K\<close> of keys whose
  namespaces have no colon and whose hashes differ.
\<close>

section \<open>The invariant\<close>

definition env_ok :: "'t storage_env \<Rightarrow> bool" where
  "env_ok S \<longleftrightarrow> trees_ok S \<and> codec_ok S \<and> inj (hex_encode (se_platform S)) \<and>
     (\<forall>x. length (sha256 (se_platform S) x) = 32)"

definition keys_ok :: "'t storage_env \<Rightarrow> StorageKey set \<Rightarrow> bool" where
  "keys_ok S K \<longleftrightarrow> finite K \<and> card K < 2 ^ 64 \<and> (\<forall>k \<in> K. wf_key k) \<and> inj_on (key_hash (se_platform S)) K"

definition data_at :: "'t storage_env \<Rightarrow> 't LocalStorage \<Rightarrow> StorageKey \<Rightarrow> bytes option" where
  "data_at S st k = tree_get S (ls_data_tree st) (to_bytes k)"

definition stored :: "'t storage_env \<Rightarrow> 't LocalStorage \<Rightarrow> StorageKey \<Rightarrow> LocalEntry \<Rightarrow> bool" where
  "stored S st k e \<longleftrightarrow> (\<exists>v. data_at S st k = Some v \<and> entry_encode S e = Inr v)"

definition bkey :: "'t storage_env \<Rightarrow> StorageKey \<Rightarrow> u64 \<Rightarrow> bytes" where
  "bkey S k b = block_index_key (se_platform S) (sk_namespace k) b k"

definition data_inv :: "'t storage_env \<Rightarrow> StorageKey set \<Rightarrow> 't LocalStorage \<Rightarrow> bool" where
  "data_inv S K st \<longleftrightarrow>
     (\<forall>b v. tree_get S (ls_data_tree st) b = Some v \<longrightarrow> (\<exists>k \<in> K. b = to_bytes k \<and> (\<exists>e. entry_encode S e = Inr v)))"

definition index_inv :: "'t storage_env \<Rightarrow> StorageKey set \<Rightarrow> 't LocalStorage \<Rightarrow> bool" where
  "index_inv S K st \<longleftrightarrow>
     (\<forall>ik w. tree_get S (ls_index_tree st) ik = Some w \<longleftrightarrow>
        (\<exists>k \<in> K. ik = index_key S k \<and> w = to_bytes k \<and> data_at S st k \<noteq> None))"

definition block_inv :: "'t storage_env \<Rightarrow> StorageKey set \<Rightarrow> 't LocalStorage \<Rightarrow> bool" where
  "block_inv S K st \<longleftrightarrow>
     (\<forall>bk w. tree_get S (ls_block_index_tree st) bk = Some w \<longleftrightarrow>
        (\<exists>k \<in> K. \<exists>e b. stored S st k e \<and> le_block_id e = Some b \<and> bk = bkey S k b \<and> w = to_bytes k))"

definition count_inv :: "'t storage_env \<Rightarrow> StorageKey set \<Rightarrow> 't LocalStorage \<Rightarrow> bool" where
  "count_inv S K st \<longleftrightarrow>
     (\<forall>ns. count_by_namespace st ns = of_nat (card {k \<in> K. sk_namespace k = ns \<and> data_at S st k \<noteq> None}))"

definition storage_inv :: "'t storage_env \<Rightarrow> StorageKey set \<Rightarrow> 't LocalStorage \<Rightarrow> bool" where
  "storage_inv S K st \<longleftrightarrow> data_inv S K st \<and> index_inv S K st \<and> block_inv S K st \<and> count_inv S K st"

text \<open>The storages that operations on the keys in use lead to.\<close>

inductive storage_reach :: "'t storage_env \<Rightarrow> StorageKey set \<Rightarrow> 't LocalStorage \<Rightarrow> bool" for S K where
  reach_new: "storage_reach S K (in_memory S node_id)"
| reach_put: "storage_reach S K st \<Longrightarrow> k \<in> K \<Longrightarrow> put S now st k v options = (r, st') \<Longrightarrow> storage_reach S K st'"
| reach_put_with_block:
    "storage_reach S K st \<Longrightarrow> k \<in> K \<Longrightarrow> put_with_block S now st k v b options = (r, st') \<Longrightarrow> storage_reach S K st'"
| reach_delete: "storage_reach S K st \<Longrightarrow> k \<in> K \<Longrightarrow> delete_entry S st k = (r1, st') \<Longrightarrow> storage_reach S K st'"
| reach_get: "storage_reach S K st \<Longrightarrow> k \<in> K \<Longrightarrow> get_value S now st k = (r2, st') \<Longrightarrow> storage_reach S K st'"
| reach_mark: "storage_reach S K st \<Longrightarrow> k \<in> K \<Longrightarrow> mark_replicated S now st k n = (r3, st') \<Longrightarrow> storage_reach S K st'"

section \<open>Replacing one entry\<close>

text \<open>What put and delete do: the entry of one key becomes \<open>new\<close>, and the indexes and counts follow.\<close>

definition replaced ::
  "'t storage_env \<Rightarrow> 't LocalStorage \<Rightarrow> StorageKey \<Rightarrow> LocalEntry option \<Rightarrow> LocalEntry option \<Rightarrow> 't LocalStorage \<Rightarrow> bool" where
  "replaced S st k old new st' \<longleftrightarrow>
     get_entry S st k = Inr old \<and>
     (\<forall>e. new = Some e \<longrightarrow> (\<exists>v. entry_encode S e = Inr v)) \<and>
     (\<forall>b. tree_get S (ls_data_tree st') b =
        (if b = to_bytes k then map_option (\<lambda>e. projr (entry_encode S e)) new else tree_get S (ls_data_tree st) b)) \<and>
     (\<forall>ik. tree_get S (ls_index_tree st') ik =
        (if ik = index_key S k then map_option (\<lambda>_. to_bytes k) new else tree_get S (ls_index_tree st) ik)) \<and>
     (\<forall>bk. tree_get S (ls_block_index_tree st') bk =
        (if \<exists>b. Option.bind new le_block_id = Some b \<and> bk = bkey S k b then Some (to_bytes k)
         else if \<exists>b. Option.bind old le_block_id = Some b \<and> bk = bkey S k b then None
         else tree_get S (ls_block_index_tree st) bk)) \<and>
     (\<forall>ns. count_by_namespace st' ns =
        (if ns \<noteq> sk_namespace k \<or> (old = None \<longleftrightarrow> new = None) then count_by_namespace st ns
         else if old = None then count_by_namespace st ns + 1
         else if count_by_namespace st ns = 0 then 0 else count_by_namespace st ns - 1))"

lemma tree_laws:
  assumes "trees_ok S"
  shows "tree_get S (tree_empty S) b = None"
    and "tree_get S (tree_insert S t b v) b' = (if b' = b then Some v else tree_get S t b')"
    and "tree_get S (tree_remove S t b) b' = (if b' = b then None else tree_get S t b')"
    and "sorted_wrt (<) (map fst (tree_iter S t))"
    and "(b, v) \<in> set (tree_iter S t) \<longleftrightarrow> tree_get S t b = Some v"
  using assms by (simp_all add: trees_ok_def)

lemma put_entry_replaced:
  assumes "trees_ok S" "put_entry S st k e = (r, st')"
  shows "(\<exists>err. r = Inl err \<and> st' = st) \<or> (r = Inr () \<and> (\<exists>old. replaced S st k old (Some e) st'))"
proof (cases "entry_encode S e")
  case (Inr v)
  show ?thesis
  proof (cases "get_entry S st k")
    case (Inr old)
    have "replaced S st k old (Some e) st'"
      using assms(2) \<open>entry_encode S e = Inr v\<close> Inr
      by (auto simp: put_entry_def replaced_def tree_laws [OF assms(1)] bkey_def count_by_namespace_def Let_def
          lookup_update split: option.splits if_splits)
    moreover have "r = Inr ()"
      using assms(2) \<open>entry_encode S e = Inr v\<close> Inr by (auto simp: put_entry_def Let_def)
    ultimately show ?thesis by blast
  qed (use assms(2) Inr in \<open>auto simp: put_entry_def\<close>)
qed (use assms(2) in \<open>auto simp: put_entry_def\<close>)

lemma get_entry_None: "get_entry S st k = Inr None \<longleftrightarrow> data_at S st k = None"
  by (auto simp: get_entry_def data_at_def split: option.split sum.split)

lemma get_entry_Some: "get_entry S st k = Inr (Some e) \<longleftrightarrow> (\<exists>v. data_at S st k = Some v \<and> entry_decode S v = Inr e)"
  by (auto simp: get_entry_def data_at_def split: option.split sum.split)

lemma delete_entry_replaced:
  assumes "trees_ok S" "delete_entry S st k = (r, st')"
  shows "(\<exists>err. r = Inl err \<and> st' = st) \<or>
    (\<exists>old. r = Inr (old \<noteq> None) \<and> (old \<noteq> None \<longrightarrow> replaced S st k old None st') \<and>
       (old = None \<longrightarrow> get_entry S st k = Inr None \<and> (\<exists>t. st' = st\<lparr>ls_data_tree := t\<rparr> \<and>
          (\<forall>b. tree_get S t b = tree_get S (ls_data_tree st) b))))"
proof (cases "get_entry S st k")
  case (Inr old)
  show ?thesis
  proof (cases old)
    case None
    with Inr have "data_at S st k = None" by (simp add: get_entry_None)
    with assms(2) Inr None show ?thesis
      by (auto simp: delete_entry_def data_at_def tree_laws [OF assms(1)] intro!: exI [of _ None])
  next
    case (Some e)
    then obtain v where "data_at S st k = Some v" using Inr by (auto simp: get_entry_Some)
    with assms(2) Inr Some have "r = Inr True \<and> replaced S st k old None st'"
      by (auto simp: delete_entry_def data_at_def replaced_def tree_laws [OF assms(1)] bkey_def count_by_namespace_def
          lookup_update split: option.splits)
    with Some show ?thesis by blast
  qed
qed (use assms(2) in \<open>auto simp: delete_entry_def\<close>)

section \<open>The invariant is kept\<close>

lemma replaced_data_at:
  assumes "replaced S st k old new st'" "keys_ok S K" "k \<in> K" "k' \<in> K"
  shows "data_at S st' k' = (if k' = k then map_option (\<lambda>e. projr (entry_encode S e)) new else data_at S st k')"
  using assms to_bytes_inject [of k' k] by (auto simp: replaced_def data_at_def keys_ok_def)

lemma replaced_stored:
  assumes "replaced S st k old new st'" "keys_ok S K" "codec_ok S" "k \<in> K" "k' \<in> K"
  shows "stored S st' k' e \<longleftrightarrow> (if k' = k then new = Some e else stored S st k' e)"
  unfolding stored_def replaced_data_at [OF assms(1,2,4,5)]
  using assms(1,3) by (fastforce simp: replaced_def codec_ok_def)

lemma stored_old:
  assumes "data_inv S K st" "codec_ok S" "get_entry S st k = Inr old"
  shows "stored S st k e \<longleftrightarrow> old = Some e"
proof (cases old)
  case None
  then show ?thesis using assms(3) by (simp add: get_entry_None stored_def)
next
  case (Some e')
  then obtain v where v: "data_at S st k = Some v" "entry_decode S v = Inr e'"
    using assms(3) by (auto simp: get_entry_Some)
  then obtain e'' where "entry_encode S e'' = Inr v"
    using assms(1) by (fastforce simp: data_inv_def data_at_def)
  then have "entry_encode S e' = Inr v"
    using assms(2) v(2) by (fastforce simp: codec_ok_def split: if_splits)
  then show ?thesis using v Some assms(2) by (auto simp: stored_def codec_ok_def)
qed

lemma index_key_inject:
  assumes "inj (hex_encode (se_platform S))" "wf_key k" "wf_key k'"
  shows "index_key S k = index_key S k' \<longleftrightarrow> k = k'"
proof
  assume "index_key S k = index_key S k'"
  then have "sk_namespace k @ CHR '':'' # hex_encode (se_platform S) (sk_key k) =
      sk_namespace k' @ CHR '':'' # hex_encode (se_platform S) (sk_key k')"
    by (simp add: index_key_def flip: as_bytes_append)
  from first_colon_inject [OF _ _ this] show "k = k'"
    using assms by (auto simp: wf_key_def dest: injD)
qed simp

lemma bkey_inject:
  assumes "keys_ok S K" "k \<in> K" "k' \<in> K"
  shows "bkey S k b = bkey S k' b' \<longleftrightarrow> k = k' \<and> b = b'"
  using assms block_index_key_inject [of "sk_namespace k" "sk_namespace k'" "se_platform S" b k b' k']
  by (auto simp: bkey_def keys_ok_def wf_key_def dest: inj_onD)

lemma data_inv_replaced:
  assumes "replaced S st k old new st'" "k \<in> K" "data_inv S K st"
  shows "data_inv S K st'"
  unfolding data_inv_def
proof (intro allI impI)
  fix b v assume *: "tree_get S (ls_data_tree st') b = Some v"
  show "\<exists>k \<in> K. b = to_bytes k \<and> (\<exists>e. entry_encode S e = Inr v)"
  proof (cases "b = to_bytes k")
    case True
    then show ?thesis using * assms(1,2) by (fastforce simp: replaced_def)
  next
    case False
    then show ?thesis using * assms(1,3) by (simp add: replaced_def data_inv_def)
  qed
qed

lemma index_inv_replaced:
  assumes "replaced S st k old new st'" "env_ok S" "keys_ok S K" "k \<in> K" "index_inv S K st"
  shows "index_inv S K st'"
  unfolding index_inv_def
proof (intro allI)
  fix ik w
  have inject: "ik = index_key S k \<Longrightarrow> k' \<in> K \<Longrightarrow> ik = index_key S k' \<longleftrightarrow> k' = k" for k'
    using index_key_inject [of S k k'] assms(2-4) by (auto simp: env_ok_def keys_ok_def)
  have "tree_get S (ls_index_tree st') ik =
      (if ik = index_key S k then map_option (\<lambda>_. to_bytes k) new else tree_get S (ls_index_tree st) ik)"
    using assms(1) by (simp add: replaced_def)
  moreover have "ik \<noteq> index_key S k \<Longrightarrow>
      (\<exists>k \<in> K. ik = index_key S k \<and> w = to_bytes k \<and> data_at S st' k \<noteq> None) \<longleftrightarrow>
      (\<exists>k \<in> K. ik = index_key S k \<and> w = to_bytes k \<and> data_at S st k \<noteq> None)"
    using replaced_data_at [OF assms(1,3,4)] by (intro bex_cong) auto
  ultimately show "(tree_get S (ls_index_tree st') ik = Some w) =
      (\<exists>k \<in> K. ik = index_key S k \<and> w = to_bytes k \<and> data_at S st' k \<noteq> None)"
    using assms(4,5) inject replaced_data_at [OF assms(1,3,4)]
    by (cases "ik = index_key S k") (auto simp: index_inv_def)
qed

lemma at_own_key:
  assumes "keys_ok S K" "k \<in> K"
  shows "(\<exists>k' \<in> K. \<exists>e b'. Q k' e \<and> le_block_id e = Some b' \<and> bkey S k b = bkey S k' b' \<and> w = to_bytes k') \<longleftrightarrow>
    w = to_bytes k \<and> (\<exists>e. Q k e \<and> le_block_id e = Some b)"
  using bkey_inject [OF assms] assms(2) by auto

lemma bind_block: "(\<exists>b'. Option.bind x le_block_id = Some b' \<and> bkey S k b = bkey S k b') \<longleftrightarrow> (\<exists>e. x = Some e \<and> le_block_id e = Some b)"
  if "keys_ok S K" "k \<in> K"
  using bkey_inject [OF that(1,2,2)] by (cases x) auto

lemma block_inv_replaced:
  assumes "replaced S st k old new st'" "env_ok S" "keys_ok S K" "k \<in> K" "data_inv S K st" "block_inv S K st"
  shows "block_inv S K st'"
  unfolding block_inv_def
proof (intro allI)
  fix bk w
  let ?at = "\<lambda>x. \<exists>b. Option.bind x le_block_id = Some b \<and> bk = bkey S k b"
  let ?in = "\<lambda>st. \<exists>k \<in> K. \<exists>e b. stored S st k e \<and> le_block_id e = Some b \<and> bk = bkey S k b \<and> w = to_bytes k"
  have codec: "codec_ok S" using assms(2) by (simp add: env_ok_def)
  have old: "stored S st k e \<longleftrightarrow> old = Some e" for e
    using stored_old [OF assms(5) codec] assms(1) by (simp add: replaced_def)
  note after = replaced_stored [OF assms(1,3) codec assms(4)]
  have get: "tree_get S (ls_block_index_tree st') bk =
      (if ?at new then Some (to_bytes k) else if ?at old then None else tree_get S (ls_block_index_tree st) bk)"
    using assms(1) by (simp add: replaced_def)
  have before: "tree_get S (ls_block_index_tree st) bk = Some w \<longleftrightarrow> ?in st"
    using assms(6) by (simp add: block_inv_def)
  show "tree_get S (ls_block_index_tree st') bk = Some w \<longleftrightarrow> ?in st'"
  proof (cases "\<exists>b. bk = bkey S k b")
    case True
    then obtain b where b: "bk = bkey S k b" by blast
    have "?in st \<longleftrightarrow> w = to_bytes k \<and> ?at old"
      unfolding b at_own_key [OF assms(3,4)] bind_block [OF assms(3,4)] by (simp only: old)
    moreover have "?in st' \<longleftrightarrow> w = to_bytes k \<and> ?at new"
      unfolding b at_own_key [OF assms(3,4)] bind_block [OF assms(3,4)] by (simp only: after [OF assms(4)] if_True refl)
    ultimately show ?thesis unfolding get using before by (simp only: split: if_split) blast
  next
    case False
    then have "?in st' \<longleftrightarrow> ?in st" using after by (intro bex_cong) auto
    with False show ?thesis unfolding get using before by auto
  qed
qed

lemma unat_of_nat_u64: "n < 2 ^ 64 \<Longrightarrow> unat (of_nat n :: u64) = n"
  by (simp add: unsigned_of_nat take_bit_nat_eq_self)

lemma of_nat_u64_nonzero: "0 < n \<Longrightarrow> n < 2 ^ 64 \<Longrightarrow> (of_nat n :: u64) \<noteq> 0"
  using unat_of_nat_u64 [of n] by (metis less_irrefl unsigned_0)

lemma card_present_less:
  assumes "keys_ok S K"
  shows "card {k \<in> K. Q k} < 2 ^ 64"
  using assms card_mono [of K "{k \<in> K. Q k}"] by (auto simp: keys_ok_def)

lemma count_inv_replaced:
  assumes "replaced S st k old new st'" "keys_ok S K" "k \<in> K" "count_inv S K st"
  shows "count_inv S K st'"
  unfolding count_inv_def
proof
  fix ns
  let ?in = "\<lambda>st. {k \<in> K. sk_namespace k = ns \<and> data_at S st k \<noteq> None}"
  have fin: "finite (?in st)" using assms(2) by (simp add: keys_ok_def)
  have data: "data_at S st k = None \<longleftrightarrow> old = None" "data_at S st' k = None \<longleftrightarrow> new = None"
    using assms(1) replaced_data_at [OF assms(1-3,3)] by (cases old, auto simp: replaced_def get_entry_None get_entry_Some)
  have others: "k' \<in> K \<Longrightarrow> k' \<noteq> k \<Longrightarrow> data_at S st' k' = data_at S st k'" for k'
    using replaced_data_at [OF assms(1-3)] by simp
  have less: "card (?in st) < 2 ^ 64" by (rule card_present_less [OF assms(2)])
  have count: "count_by_namespace st ns = of_nat (card (?in st))" using assms(4) by (simp add: count_inv_def)
  consider "ns \<noteq> sk_namespace k \<or> (old = None \<longleftrightarrow> new = None)" | "ns = sk_namespace k" "old = None" "new \<noteq> None"
    | "ns = sk_namespace k" "old \<noteq> None" "new = None" by metis
  then show "count_by_namespace st' ns = of_nat (card (?in st'))"
  proof cases
    case 1
    then have "?in st' = ?in st" using data others by (metis (mono_tags, lifting))
    then show ?thesis using 1 count assms(1) by (simp add: replaced_def)
  next
    case 2
    then have "x \<in> ?in st' \<longleftrightarrow> x \<in> insert k (?in st)" for x using data others assms(3) by (cases "x = k") auto
    then have "?in st' = insert k (?in st)" by blast
    moreover have "k \<notin> ?in st" using 2 data by simp
    ultimately show ?thesis using 2 count fin assms(1) by (simp add: replaced_def add.commute)
  next
    case 3
    then have "x \<in> ?in st \<longleftrightarrow> x \<in> insert k (?in st')" for x using data others assms(3) by (cases "x = k") auto
    then have "?in st = insert k (?in st')" by blast
    moreover have "card (insert k (?in st')) = Suc (card (?in st'))"
      using 3 data assms(2) by (intro card_insert_disjoint) (simp_all add: keys_ok_def)
    ultimately have suc: "card (?in st) = Suc (card (?in st'))" by (simp only:)
    have "(of_nat (card (?in st)) :: u64) \<noteq> 0"
      by (rule of_nat_u64_nonzero [OF _ less]) (simp only: suc zero_less_Suc)
    moreover have "(of_nat (card (?in st)) :: u64) - 1 = of_nat (card (?in st'))" by (simp only: suc of_nat_Suc) simp
    moreover have "count_by_namespace st' ns = (if count_by_namespace st ns = 0 then 0 else count_by_namespace st ns - 1)"
      using 3 assms(1) by (auto simp: replaced_def)
    ultimately show ?thesis using count by (simp only: if_False)
  qed
qed

lemma storage_inv_replaced:
  assumes "replaced S st k old new st'" "env_ok S" "keys_ok S K" "k \<in> K" "storage_inv S K st"
  shows "storage_inv S K st'"
  using assms data_inv_replaced index_inv_replaced block_inv_replaced count_inv_replaced
  unfolding storage_inv_def by metis

lemma storage_inv_put_entry:
  assumes "put_entry S st k e = (r, st')" "env_ok S" "keys_ok S K" "k \<in> K" "storage_inv S K st"
  shows "storage_inv S K st'"
  using put_entry_replaced [OF _ assms(1)] storage_inv_replaced [OF _ assms(2-5)] assms(2,5) unfolding env_ok_def by blast

lemma storage_inv_put_value:
  assumes "put_value S now st k v b options = (r, st')" "env_ok S" "keys_ok S K" "k \<in> K" "storage_inv S K st"
  shows "storage_inv S K st'"
  using assms(1,5) storage_inv_put_entry [OF _ assms(2-5)]
  by (auto simp: put_value_def Let_def split: sum.splits prod.splits)

lemma storage_inv_same_data:
  assumes "\<And>b. tree_get S t b = tree_get S (ls_data_tree st) b"
  shows "storage_inv S K (st\<lparr>ls_data_tree := t\<rparr>) = storage_inv S K st"
  using assms
  by (simp add: storage_inv_def data_inv_def index_inv_def block_inv_def count_inv_def stored_def data_at_def
      count_by_namespace_def)

lemma storage_inv_delete:
  assumes "delete_entry S st k = (r, st')" "env_ok S" "keys_ok S K" "k \<in> K" "storage_inv S K st"
  shows "storage_inv S K st'"
  using delete_entry_replaced [OF _ assms(1)] storage_inv_replaced [OF _ assms(2-5)] storage_inv_same_data assms(2,5)
  unfolding env_ok_def by metis

lemma storage_inv_get:
  assumes "get_value S now st k = (r, st')" "env_ok S" "keys_ok S K" "k \<in> K" "storage_inv S K st"
  shows "storage_inv S K st'"
  using assms(1,5) storage_inv_delete [OF _ assms(2-5)]
  by (auto simp: get_value_def split: sum.splits option.splits if_splits prod.splits)

lemma storage_inv_mark:
  assumes "mark_replicated S now st k n = (r, st')" "env_ok S" "keys_ok S K" "k \<in> K" "storage_inv S K st"
  shows "storage_inv S K st'"
  using assms(1,5) storage_inv_put_entry [OF _ assms(2-5)]
  by (auto simp: mark_replicated_def split: sum.splits option.splits)

lemma storage_inv_new: "trees_ok S \<Longrightarrow> storage_inv S K (in_memory S node_id)"
  by (simp add: storage_inv_def data_inv_def index_inv_def block_inv_def count_inv_def stored_def data_at_def
      count_by_namespace_def in_memory_def tree_laws)

lemma storage_reach_inv:
  assumes "storage_reach S K st" "env_ok S" "keys_ok S K"
  shows "storage_inv S K st"
  using assms(1)
proof induction
  case (reach_new node_id)
  then show ?case using assms(2) by (simp add: storage_inv_new env_ok_def)
next
  case (reach_put st k now v options r st')
  then show ?case using storage_inv_put_value [of S now st k v None] assms(2,3) by (simp add: put_def)
next
  case (reach_put_with_block st k now v b options r st')
  then show ?case using storage_inv_put_value [of S now st k v "Some b"] assms(2,3) by (simp add: put_with_block_def)
next
  case (reach_delete st k r1 st')
  then show ?case using storage_inv_delete assms(2,3) by blast
next
  case (reach_get st k now r2 st')
  then show ?case using storage_inv_get assms(2,3) by blast
next
  case (reach_mark st k now n r3 st')
  then show ?case using storage_inv_mark [OF reach_mark.hyps(3)] assms(2,3) by blast
qed

end
