(* ===== verification/Storage_Queries.thy ===== *)
theory Storage_Queries
  imports Local_Storage_Facts
begin

text \<open>
  The queries of the local storage against a reference: the list of all matching entries of a namespace in the
  order of their blocks. The scan ranges that the operations compute from their arguments lose nothing.
\<close>

section \<open>The reference\<close>

definition same_namespace :: "string \<Rightarrow> bytes \<times> bytes \<Rightarrow> bool" where
  "same_namespace ns p \<longleftrightarrow> (\<exists>b h. parse_block_index_key (fst p) = Some (ns, b, h))"

definition hit ::
  "'t storage_env \<Rightarrow> i64 \<Rightarrow> 't LocalStorage \<Rightarrow> QueryFilter option \<Rightarrow> bytes \<times> bytes \<Rightarrow> (StorageKey \<times> StoredValue \<times> u64) option" where
  "hit S now st filt p =
     (case (parse_block_index_key (fst p), tree_get S (ls_data_tree st) (snd p)) of
        (Some (_, b, _), Some v) \<Rightarrow>
          (case entry_decode S v of
             Inl _ \<Rightarrow> None
           | Inr e \<Rightarrow>
               if is_expired now (sv_metadata (le_value e)) \<or> filtered_out filt e (snd p) then None
               else map_option (\<lambda>(n, r). (StorageKey_new n (as_bytes r), le_value e, b))
                      (Option.bind (from_utf8 (snd p)) (split_once CHR '':'')))
      | _ \<Rightarrow> None)"

definition readable :: "'t storage_env \<Rightarrow> StorageKey set \<Rightarrow> 't LocalStorage \<Rightarrow> bool" where
  "readable S K st \<longleftrightarrow> (\<forall>k \<in> K. \<forall>err. get_entry S st k \<noteq> Inl err)"

text \<open>The entries of a namespace that a query by block is about: not expired, with a key that is text.\<close>

definition block_entries ::
  "'t storage_env \<Rightarrow> StorageKey set \<Rightarrow> i64 \<Rightarrow> 't LocalStorage \<Rightarrow> string \<Rightarrow> (u64 \<Rightarrow> bool) \<Rightarrow> QueryFilter option \<Rightarrow>
     (StorageKey \<times> StoredValue \<times> u64) set" where
  "block_entries S K now st ns P filt =
     {(k, v, b). k \<in> K \<and> sk_namespace k = ns \<and> valid_utf8 (sk_key k) \<and> P b \<and>
        (\<exists>e. get_entry S st k = Inr (Some e) \<and> le_value e = v \<and> le_block_id e = Some b \<and>
             \<not> is_expired now (sv_metadata v) \<and>
             (case filt of None \<Rightarrow> True | Some f \<Rightarrow> filter_matches f (Some b) (vm_created_at (sv_metadata v)) (sk_key k)))}"

section \<open>The loop\<close>

lemma query_loop_take:
  assumes "\<forall>p \<in> set xs. parse_block_index_key (fst p) \<noteq> None \<and>
      (\<forall>v err. tree_get S (ls_data_tree st) (snd p) = Some v \<longrightarrow> entry_decode S v \<noteq> Inl err)"
    and "length results < max 1 limit"
  shows "query_loop S now st ns limit filt results xs =
    Inr (results @ take (max 1 limit - length results) (List.map_filter (hit S now st filt) (takeWhile (same_namespace ns) xs)))"
  using assms
proof (induction xs arbitrary: results)
  case Nil
  then show ?case by (simp add: map_filter_simps)
next
  case (Cons p xs)
  obtain bk dk where p: "p = (bk, dk)" by (cases p)
  obtain n b h where parsed: "parse_block_index_key bk = Some (n, b, h)" using Cons.prems(1) p by auto
  have same: "same_namespace ns p \<longleftrightarrow> n = ns" using p parsed by (simp add: same_namespace_def)
  have IH: "length r < max 1 limit \<Longrightarrow> query_loop S now st ns limit filt r xs =
      Inr (r @ take (max 1 limit - length r) (List.map_filter (hit S now st filt) (takeWhile (same_namespace ns) xs)))" for r
    using Cons by simp
  show ?case
  proof (cases "hit S now st filt p")
    case None
    then have "query_loop S now st ns limit filt results (p # xs) =
        (if n \<noteq> ns then Inr results else query_loop S now st ns limit filt results xs)"
      using Cons.prems(1) p parsed by (auto simp: hit_def split: option.splits sum.splits if_splits)
    then show ?thesis using IH [OF Cons.prems(2)] None same by (simp add: map_filter_simps)
  next
    case (Some x)
    then have "query_loop S now st ns limit filt results (p # xs) =
        (if n \<noteq> ns then Inr results
         else if length (results @ [x]) \<ge> limit then Inr (results @ [x])
         else query_loop S now st ns limit filt (results @ [x]) xs)"
      using p parsed by (auto simp: hit_def Let_def split: option.splits sum.splits if_splits)
    moreover have "take (max 1 limit - length results) (x # ys) = x # take (max 1 limit - length (results @ [x])) ys" for ys
      using Cons.prems(2) by (auto simp: take_Cons' max_def split: if_splits)
    ultimately show ?thesis
      using Cons.prems(2) same Some IH [of "results @ [x]"] by (auto simp: map_filter_simps)
  qed
qed

lemma takeWhile_filter_sorted:
  "sorted_wrt R xs \<Longrightarrow> (\<And>x y. x \<in> set xs \<Longrightarrow> y \<in> set xs \<Longrightarrow> R x y \<Longrightarrow> Q y \<Longrightarrow> Q x) \<Longrightarrow> takeWhile Q xs = filter Q xs"
proof (induction xs)
  case (Cons x xs)
  then show ?case by (cases "Q x") (force simp: filter_empty_conv)+
qed simp

section \<open>The block index\<close>

lemma block_index_iter:
  assumes "env_ok S" "storage_inv S K st" "readable S K st"
  shows "p \<in> set (tree_iter S (ls_block_index_tree st)) \<longleftrightarrow>
    (\<exists>k \<in> K. \<exists>e b. get_entry S st k = Inr (Some e) \<and> le_block_id e = Some b \<and> p = (bkey S k b, to_bytes k))"
proof -
  have trees: "trees_ok S" and codec: "codec_ok S" using assms(1) by (simp_all add: env_ok_def)
  have "stored S st k e \<longleftrightarrow> get_entry S st k = Inr (Some e)" if "k \<in> K" for k e
  proof -
    have "\<forall>err. get_entry S st k \<noteq> Inl err" using assms(3) that by (simp add: readable_def)
    then obtain old where old: "get_entry S st k = Inr old" by (cases "get_entry S st k") auto
    then show ?thesis using stored_old [of S K, OF _ codec old] assms(2) by (simp add: storage_inv_def)
  qed
  then show ?thesis
    using assms(2) by (cases p) (auto simp: tree_laws(5) [OF trees] storage_inv_def block_inv_def)
qed

lemma parse_bkey:
  assumes "env_ok S" "keys_ok S K" "k \<in> K"
  shows "parse_block_index_key (bkey S k b) = Some (sk_namespace k, b, key_hash (se_platform S) k)"
  unfolding bkey_def
  by (rule parse_block_index_key) (use assms in \<open>auto simp: env_ok_def keys_ok_def wf_key_def key_hash_def\<close>)

lemma of_bytes_append: "of_bytes (xs @ ys) = of_bytes xs @ of_bytes ys"
  by (simp add: of_bytes_def)

lemma of_bytes_colon: "of_bytes (colon # xs) = CHR '':'' # of_bytes xs"
  using of_bytes_as_bytes [of "'':''"] by (simp add: of_bytes_def as_bytes_def colon_def)

lemma parse_data_key:
  assumes "wf_key k"
  shows "Option.bind (from_utf8 (to_bytes k)) (split_once CHR '':'') =
    (if valid_utf8 (sk_key k) then Some (sk_namespace k, of_bytes (sk_key k)) else None)"
proof -
  have "of_bytes (to_bytes k) = sk_namespace k @ CHR '':'' # of_bytes (sk_key k)"
    by (simp add: to_bytes_def of_bytes_append of_bytes_colon)
  then show ?thesis
    using assms split_once_first [of "CHR '':''" "sk_namespace k" "of_bytes (sk_key k)"]
    by (auto simp: from_utf8_def wf_key_def to_bytes_def valid_utf8_append)
qed

lemma hit_own:
  assumes "env_ok S" "keys_ok S K" "k \<in> K" "get_entry S st k = Inr (Some e)" "le_block_id e = Some b"
  shows "hit S now st filt (bkey S k b, to_bytes k) =
    (if (k, le_value e, b) \<in> block_entries S K now st (sk_namespace k) (\<lambda>_. True) filt then Some (k, le_value e, b) else None)"
proof -
  have wf: "wf_key k" using assms(2,3) by (simp add: keys_ok_def)
  obtain v where v: "tree_get S (ls_data_tree st) (to_bytes k) = Some v" "entry_decode S v = Inr e"
    using assms(4) by (auto simp: get_entry_Some data_at_def)
  show ?thesis
    using assms(3-5)
    by (cases filt) (auto simp: hit_def parse_bkey [OF assms(1-3)] v parse_data_key [OF wf] filtered_out_def block_entries_def
        StorageKey_new_def)
qed

section \<open>Ranges of blocks\<close>

lemma in_map_filter: "x \<in> set (List.map_filter f xs) \<longleftrightarrow> (\<exists>p \<in> set xs. f p = Some x)"
  by (induction xs) (auto simp: map_filter_simps split: option.split)

lemma sorted_wrt_distinct: "sorted_wrt (\<noteq>) xs \<Longrightarrow> distinct xs"
  by (induction xs) auto

lemma sorted_wrt_map_filter:
  "sorted_wrt R xs \<Longrightarrow>
   (\<And>p q x y. p \<in> set xs \<Longrightarrow> q \<in> set xs \<Longrightarrow> R p q \<Longrightarrow> f p = Some x \<Longrightarrow> f q = Some y \<Longrightarrow> Q x y) \<Longrightarrow>
   sorted_wrt Q (List.map_filter f xs)"
proof (induction xs)
  case (Cons p xs)
  then have "sorted_wrt Q (List.map_filter f xs)" by auto
  moreover have "Q x y" if "f p = Some x" "q \<in> set xs" "f q = Some y" for x q y
    using Cons.prems(2) [of p q x y] Cons.prems(1) that by simp
  ultimately show ?case
    by (cases "f p") (auto simp: map_filter_simps, auto simp: map_filter_def)
qed (simp add: map_filter_simps)

definition in_blocks :: "u64 \<Rightarrow> u64 option \<Rightarrow> u64 \<Rightarrow> bool" where
  "in_blocks lo hi b \<longleftrightarrow> lo \<le> b \<and> (case hi of Some h \<Rightarrow> b < h | None \<Rightarrow> True)"

lemma bkey_range:
  assumes "sk_namespace k = ns"
  shows "block_range_start ns lo \<le> bkey S k b \<longleftrightarrow> lo \<le> b" "bkey S k b < block_range_start ns h \<longleftrightarrow> b < h"
  using index_key_less_start [of "se_platform S" ns b k] assms by (auto simp: bkey_def not_less [symmetric])

definition starts_in :: "string \<Rightarrow> bytes \<Rightarrow> bool" where
  "starts_in ns start \<longleftrightarrow> (\<exists>zs. start = as_bytes ns @ [colon] @ zs)"

lemma starts_in_range_start [simp]: "starts_in ns (block_range_start ns lo)"
  by (simp add: starts_in_def block_range_start_def)

lemma bkey_namespace:
  assumes "keys_ok S K" "k \<in> K" "k' \<in> K" "starts_in (sk_namespace k') start" "start \<le> bkey S k b" "bkey S k b < bkey S k' b'"
  shows "sk_namespace k = sk_namespace k'"
proof -
  let ?p = "as_bytes (sk_namespace k') @ [colon]"
  obtain us where "start = ?p @ us" using assms(4) by (auto simp: starts_in_def)
  with assms(5,6) have "?p @ us \<le> bkey S k b"
    "bkey S k b < ?p @ to_be_bytes b' @ [colon] @ key_hash (se_platform S) k'"
    by (simp_all add: bkey_def block_index_key_def)
  from between_prefix [OF this] obtain zs where "bkey S k b = ?p @ zs" by blast
  then have "as_bytes (sk_namespace k) @ colon # (to_be_bytes b @ colon # key_hash (se_platform S) k) =
      as_bytes (sk_namespace k') @ colon # zs"
    by (simp add: bkey_def block_index_key_def)
  from first_colon_inject [OF _ _ this] show ?thesis
    using assms(1-3) by (simp add: keys_ok_def wf_key_def)
qed

definition indexed :: "'t storage_env \<Rightarrow> StorageKey set \<Rightarrow> 't LocalStorage \<Rightarrow> bytes \<times> bytes \<Rightarrow> StorageKey \<Rightarrow> LocalEntry \<Rightarrow> u64 \<Rightarrow> bool" where
  "indexed S K st p k e b \<longleftrightarrow>
     k \<in> K \<and> get_entry S st k = Inr (Some e) \<and> le_block_id e = Some b \<and> p = (bkey S k b, to_bytes k)"

definition scanned :: "'t storage_env \<Rightarrow> 't LocalStorage \<Rightarrow> string \<Rightarrow> bytes \<Rightarrow> u64 option \<Rightarrow> (bytes \<times> bytes) list" where
  "scanned S st ns start hi = tree_range S (ls_block_index_tree st) start (map_option (block_range_start ns) hi)"

lemma indexed_same_namespace:
  assumes "env_ok S" "keys_ok S K" "indexed S K st p k e b"
  shows "same_namespace ns p \<longleftrightarrow> sk_namespace k = ns"
  using assms(3) parse_bkey [OF assms(1,2), of k b] by (auto simp: indexed_def same_namespace_def)

lemma indexed_hit:
  assumes "env_ok S" "keys_ok S K" "indexed S K st p k e b"
  shows "hit S now st filt p = Some x \<longleftrightarrow>
    x = (k, le_value e, b) \<and> x \<in> block_entries S K now st (sk_namespace k) (\<lambda>_. True) filt"
  using assms(3) hit_own [OF assms(1,2), of k st e b now filt] by (auto simp: indexed_def)

lemma scanned_set:
  assumes "env_ok S" "storage_inv S K st" "readable S K st"
  shows "p \<in> set (scanned S st ns start hi) \<longleftrightarrow> (\<exists>k e b. indexed S K st p k e b) \<and> start \<le> fst p \<and>
    (case hi of Some h \<Rightarrow> fst p < block_range_start ns h | None \<Rightarrow> True)"
  unfolding scanned_def tree_range_def indexed_def using block_index_iter [OF assms, of p] by (cases p; cases hi) auto

lemma scanned_sorted: "trees_ok S \<Longrightarrow> sorted_wrt (\<lambda>p q. fst p < fst q) (scanned S st ns start hi)"
  using tree_laws(4) [of S "ls_block_index_tree st"]
  by (simp add: scanned_def tree_range_def sorted_wrt_map sorted_wrt_filter)

lemma scanned_namespace:
  assumes "env_ok S" "keys_ok S K" "storage_inv S K st" "readable S K st" "starts_in ns start"
  shows "takeWhile (same_namespace ns) (scanned S st ns start hi) = filter (same_namespace ns) (scanned S st ns start hi)"
proof (rule takeWhile_filter_sorted [OF scanned_sorted])
  show "trees_ok S" using assms(1) by (simp add: env_ok_def)
next
  note set = scanned_set [OF assms(1,3,4)]
  fix p q assume *: "p \<in> set (scanned S st ns start hi)" "q \<in> set (scanned S st ns start hi)" "fst p < fst q" "same_namespace ns q"
  then obtain k e b k' e' b' where own: "indexed S K st p k e b" "indexed S K st q k' e' b'" unfolding set by blast
  then have "k \<in> K" "k' \<in> K" "fst p = bkey S k b" "fst q = bkey S k' b'" by (simp_all add: indexed_def)
  moreover have "start \<le> fst p" using *(1) set by blast
  moreover have "sk_namespace k' = ns" using indexed_same_namespace [OF assms(1,2) own(2)] *(4) by simp
  ultimately show "same_namespace ns p"
    using indexed_same_namespace [OF assms(1,2) own(1)] bkey_namespace [OF assms(2), of k k' start b b'] *(3) assms(5) by simp
qed

definition matching ::
  "'t storage_env \<Rightarrow> i64 \<Rightarrow> 't LocalStorage \<Rightarrow> string \<Rightarrow> bytes \<Rightarrow> u64 option \<Rightarrow> QueryFilter option \<Rightarrow> (StorageKey \<times> StoredValue \<times> u64) list" where
  "matching S now st ns start hi filt = List.map_filter (hit S now st filt) (filter (same_namespace ns) (scanned S st ns start hi))"

lemma query_is_matching:
  assumes "env_ok S" "keys_ok S K" "storage_inv S K st" "readable S K st" "starts_in ns start"
  shows "query_block_index_range S now st ns start (map_option (block_range_start ns) hi) limit filt =
    Inr (take (max 1 limit) (matching S now st ns start hi filt))"
proof -
  have "parse_block_index_key (fst p) \<noteq> None \<and>
      (\<forall>v err. tree_get S (ls_data_tree st) (snd p) = Some v \<longrightarrow> entry_decode S v \<noteq> Inl err)"
    if "p \<in> set (scanned S st ns start hi)" for p
    using that parse_bkey [OF assms(1,2)] by (auto simp: scanned_set [OF assms(1,3,4)] indexed_def get_entry_Some data_at_def)
  then show ?thesis
    unfolding query_block_index_range_def scanned_def [symmetric] matching_def
    by (subst query_loop_take) (auto simp: scanned_namespace [OF assms])
qed

lemma matching_sorted:
  assumes "env_ok S" "keys_ok S K" "storage_inv S K st" "readable S K st"
  shows "sorted_wrt (\<lambda>x y. snd (snd x) \<le> snd (snd y) \<and> x \<noteq> y) (matching S now st ns start hi filt)"
  unfolding matching_def
proof (rule sorted_wrt_map_filter [OF sorted_wrt_filter [OF scanned_sorted]])
  show "trees_ok S" using assms(1) by (simp add: env_ok_def)
next
  fix p q x y
  assume *: "p \<in> set (filter (same_namespace ns) (scanned S st ns start hi))" "q \<in> set (filter (same_namespace ns) (scanned S st ns start hi))"
    "fst p < fst q" "hit S now st filt p = Some x" "hit S now st filt q = Some y"
  then obtain k e b k' e' b' where own: "indexed S K st p k e b" "indexed S K st q k' e' b'"
    by (auto simp: scanned_set [OF assms(1,3,4)])
  with * have "sk_namespace k = ns" "sk_namespace k' = ns" using indexed_same_namespace [OF assms(1,2)] by auto
  then have "b \<le> b'"
    using index_key_order [of b' b "se_platform S" ns k' k] own *(3) by (auto simp: indexed_def bkey_def not_less [symmetric])
  moreover have "x = (k, le_value e, b)" "y = (k', le_value e', b')"
    using indexed_hit [OF assms(1,2) own(1), of now filt x] indexed_hit [OF assms(1,2) own(2), of now filt y] *(4,5) by simp_all
  ultimately show "snd (snd x) \<le> snd (snd y) \<and> x \<noteq> y"
    using own *(3) by (auto simp: indexed_def)
qed

lemma matching_set:
  assumes "env_ok S" "keys_ok S K" "storage_inv S K st" "readable S K st"
  shows "set (matching S now st ns (block_range_start ns lo) hi filt) = block_entries S K now st ns (in_blocks lo hi) filt"
proof (rule set_eqI)
  fix x
  have "x \<in> set (matching S now st ns (block_range_start ns lo) hi filt) \<longleftrightarrow>
      (\<exists>p. p \<in> set (scanned S st ns (block_range_start ns lo) hi) \<and> same_namespace ns p \<and> hit S now st filt p = Some x)"
    by (auto simp: matching_def in_map_filter)
  also have "\<dots> \<longleftrightarrow> (\<exists>p k e b. indexed S K st p k e b \<and> sk_namespace k = ns \<and> in_blocks lo hi b \<and> hit S now st filt p = Some x)"
  proof -
    have "same_namespace ns p \<and> block_range_start ns lo \<le> fst p \<and>
        (case hi of Some h \<Rightarrow> fst p < block_range_start ns h | None \<Rightarrow> True) \<longleftrightarrow> sk_namespace k = ns \<and> in_blocks lo hi b"
      if "indexed S K st p k e b" for p k e b
      unfolding indexed_same_namespace [OF assms(1,2) that]
    proof (rule conj_cong [OF refl])
      assume ns: "sk_namespace k = ns"
      have "fst p = bkey S k b" using that by (simp add: indexed_def)
      then show "(block_range_start ns lo \<le> fst p \<and>
          (case hi of Some h \<Rightarrow> fst p < block_range_start ns h | None \<Rightarrow> True)) = in_blocks lo hi b"
        by (cases hi) (simp_all add: bkey_range [OF ns] in_blocks_def)
    qed
    then show ?thesis unfolding scanned_set [OF assms(1,3,4)] by blast
  qed
  also have "\<dots> \<longleftrightarrow> x \<in> block_entries S K now st ns (in_blocks lo hi) filt"
  proof
    assume "\<exists>p k e b. indexed S K st p k e b \<and> sk_namespace k = ns \<and> in_blocks lo hi b \<and> hit S now st filt p = Some x"
    then show "x \<in> block_entries S K now st ns (in_blocks lo hi) filt"
      using indexed_hit [OF assms(1,2)] by (auto simp: block_entries_def)
  next
    assume *: "x \<in> block_entries S K now st ns (in_blocks lo hi) filt"
    then obtain k e b where k: "k \<in> K" "get_entry S st k = Inr (Some e)" "le_block_id e = Some b"
      "x = (k, le_value e, b)" "sk_namespace k = ns" "in_blocks lo hi b" by (auto simp: block_entries_def)
    then have "indexed S K st (bkey S k b, to_bytes k) k e b" by (simp add: indexed_def)
    moreover from this have "hit S now st filt (bkey S k b, to_bytes k) = Some x"
      using indexed_hit [OF assms(1,2)] * k by (auto simp: block_entries_def)
    ultimately show "\<exists>p k e b. indexed S K st p k e b \<and> sk_namespace k = ns \<and> in_blocks lo hi b \<and> hit S now st filt p = Some x"
      using k by blast
  qed
  finally show "x \<in> set (matching S now st ns (block_range_start ns lo) hi filt) \<longleftrightarrow> x \<in> block_entries S K now st ns (in_blocks lo hi) filt" .
qed

lemma matching_order:
  assumes "env_ok S" "keys_ok S K" "storage_inv S K st" "readable S K st"
  shows "distinct (matching S now st ns start hi filt) \<and> sorted (map (snd \<circ> snd) (matching S now st ns start hi filt))"
  using matching_sorted [OF assms, of now ns start hi filt]
  by (auto simp: sorted_wrt_map intro!: sorted_wrt_distinct elim: sorted_wrt_mono_rel [rotated])

section \<open>The listings and the general query\<close>

lemma less_add1: "e \<noteq> - 1 \<Longrightarrow> b < e + 1 \<longleftrightarrow> b \<le> (e :: u64)"
  using unatSuc [of e] by (simp add: word_less_nat_alt word_le_nat_alt add.commute eq_neg_iff_add_eq_0 less_Suc_eq_le)

lemma foldl_keeps: "(\<And>x a. x \<in> set xs \<Longrightarrow> I a \<Longrightarrow> I (f a x)) \<Longrightarrow> I a \<Longrightarrow> I (foldl f a xs)"
  by (induction xs arbitrary: a) auto

text \<open>The bounds that the filters of a query put on the blocks hold of every block that passes the filters.\<close>

definition range_end_ok :: "QueryFilter \<Rightarrow> bool" where
  "range_end_ok f = (case f of BlockRange _ e \<Rightarrow> e \<noteq> - 1 | _ \<Rightarrow> True)"

definition filter_ends_ok :: "QueryFilter \<Rightarrow> bool" where
  "filter_ends_ok f = (case f of And fs \<Rightarrow> list_all range_end_ok fs | _ \<Rightarrow> range_end_ok f)"

definition bounds_hold :: "u64 \<Rightarrow> u64 option \<times> u64 option \<Rightarrow> bool" where
  "bounds_hold b bounds \<longleftrightarrow>
     (case fst bounds of Some lo \<Rightarrow> lo \<le> b | None \<Rightarrow> True) \<and> (case snd bounds of Some hi \<Rightarrow> b < hi | None \<Rightarrow> True)"

lemma note_block_filter_holds:
  assumes "bounds_hold b bounds" "range_end_ok f" "filter_matches f (Some b) created key"
  shows "bounds_hold b (note_block_filter bounds f)"
  using assms inc_le [of _ b]
  by (cases bounds; cases f)
    (auto simp: bounds_hold_def note_block_filter_def range_end_ok_def saturating_add1_def less_add1 split: option.splits)

lemma note_filter_holds:
  assumes "bounds_hold b bounds" "filter_ends_ok f" "filter_matches f (Some b) created key"
  shows "bounds_hold b (note_filter bounds f)"
proof (cases "\<exists>fs. f = And fs")
  case True
  then obtain fs where fs: "f = And fs" by blast
  have "bounds_hold b (foldl note_block_filter bounds fs)"
    by (rule foldl_keeps)
      (use assms fs in \<open>auto simp: filter_ends_ok_def list_all_iff intro: note_block_filter_holds\<close>)
  with fs show ?thesis by (simp add: note_filter_def)
next
  case False
  then show ?thesis
    using assms note_block_filter_holds [OF assms(1) _ assms(3)]
    by (cases f) (simp_all add: note_filter_def filter_ends_ok_def)
qed

lemma scan_range_holds:
  assumes "\<forall>f \<in> set fs. filter_ends_ok f \<and> filter_matches f (Some b) created key"
  shows "bounds_hold b (foldl note_filter (None, None) fs)"
  by (rule foldl_keeps) (use assms in \<open>auto simp: bounds_hold_def [of b "(None, None)"] intro: note_filter_holds\<close>)

lemma block_listing_exact:
  assumes "env_ok S" "keys_ok S K" "storage_inv S K st" "readable S K st"
  shows "block_listing S now st ns (block_range_start ns lo) (map_option (block_range_start ns) hi) limit =
    Inr (QueryResult_new (map (\<lambda>(k, v, _). (k, v)) (take (max 1 limit) (matching S now st ns (block_range_start ns lo) hi None))) 0 limit
      (limit \<le> length (matching S now st ns (block_range_start ns lo) hi None)))"
  by (auto simp: block_listing_def query_is_matching [OF assms starts_in_range_start] Let_def max_def)

definition query_from :: "'t storage_env \<Rightarrow> i64 \<Rightarrow> 't LocalStorage \<Rightarrow> QueryBuilder \<Rightarrow> bytes \<Rightarrow> (StorageKey \<times> StoredValue \<times> u64) list" where
  "query_from S now st q start =
     matching S now st (qb_namespace q) start (snd (foldl note_filter (None, None) (qb_filters q))) (build_filter q)"

definition query_start :: "QueryBuilder \<Rightarrow> bytes" where
  "query_start q = fst (determine_scan_range_from_query q)"

lemma starts_in_query_start [simp]: "starts_in (qb_namespace q) (query_start q)"
  by (simp add: query_start_def determine_scan_range_from_query_def case_prod_unfold Let_def)

definition page_of :: "'t storage_env \<Rightarrow> 't LocalStorage \<Rightarrow> QueryBuilder \<Rightarrow> (StorageKey \<times> StoredValue \<times> u64) list \<Rightarrow> QueryResult" where
  "page_of S st q full =
     \<lparr>qr_items = map (\<lambda>(k, v, _). (k, v)) (take (qb_limit q) full),
      qr_total_count = (if qb_include_count q then Some (count_by_namespace st (qb_namespace q)) else None),
      qr_offset = qb_offset q, qr_limit = qb_limit q, qr_has_more = (qb_limit q < length full),
      qr_next_cursor =
        (if qb_limit q < length full \<and> 0 < qb_limit q
         then (case full ! (qb_limit q - 1) of (k, _, b) \<Rightarrow> Some (from_last_item (se_platform S) (qb_namespace q) b k))
         else None)\<rparr>"

lemma query_is_page:
  assumes "env_ok S" "keys_ok S K" "storage_inv S K st" "readable S K st"
    and "starts_in (qb_namespace q) (cursor_start q (query_start q))"
  shows "query S now st q = Inr (page_of S st q (query_from S now st q (cursor_start q (query_start q))))"
proof -
  define full where "full = query_from S now st q (cursor_start q (query_start q))"
  have run: "query_block_index_range S now st (qb_namespace q) (cursor_start q (fst (determine_scan_range_from_query q)))
      (snd (determine_scan_range_from_query q)) (Suc (qb_limit q)) (build_filter q) = Inr (take (Suc (qb_limit q)) full)"
    using query_is_matching [OF assms, of now "snd (foldl note_filter (None, None) (qb_filters q))" "qb_limit q + 1" "build_filter q"]
    by (simp add: determine_scan_range_from_query_def case_prod_unfold Let_def full_def query_from_def query_start_def)
  have last: "qb_limit q < length full \<Longrightarrow> 0 < qb_limit q \<Longrightarrow> last (take (qb_limit q) full) = full ! (qb_limit q - 1)"
    by (subst last_conv_nth) auto
  show ?thesis
    unfolding full_def [symmetric]
    by (auto simp: query_def Let_def case_prod_unfold run page_of_def QueryResult_new_def with_cursor_def with_total_count_def
        min_def last split: option.splits if_splits)
qed

lemma query_from_start:
  assumes "env_ok S" "keys_ok S K" "storage_inv S K st" "readable S K st" "\<forall>f \<in> set (qb_filters q). filter_ends_ok f"
  shows "set (query_from S now st q (query_start q)) = block_entries S K now st (qb_namespace q) (\<lambda>_. True) (build_filter q)"
proof -
  obtain lo hi where bounds: "foldl note_filter (None, None) (qb_filters q) = (lo, hi)" by fastforce
  have "in_blocks (case lo of Some b \<Rightarrow> b | None \<Rightarrow> 0) hi b"
    if "case build_filter q of None \<Rightarrow> True | Some f \<Rightarrow> filter_matches f (Some b) created key" for b created key
    using scan_range_holds [of "qb_filters q" b created key] that assms(5)
    by (auto simp: build_filter_matches bounds bounds_hold_def in_blocks_def split: option.splits)
  then show ?thesis
    unfolding query_from_def query_start_def determine_scan_range_from_query_def bounds Let_def prod.case fst_conv snd_conv
      matching_set [OF assms(1-4)] block_entries_def by blast
qed

section \<open>Following a cursor\<close>

lemma le_snoc: "length (xs :: bytes) = length ys \<Longrightarrow> xs @ [x] \<le> ys @ [y] \<longleftrightarrow> xs < ys \<or> xs = ys \<and> x \<le> y"
  by (auto simp: order_le_less less_snoc)

lemma u8_less_add1: "c \<noteq> - 1 \<Longrightarrow> c + 1 \<le> d \<longleftrightarrow> c < (d :: u8)"
  using unatSuc [of c] by (simp add: word_less_nat_alt word_le_nat_alt add.commute eq_neg_iff_add_eq_0 Suc_le_eq)

lemma increment_last_le:
  assumes "length a = length b" "a \<noteq> []" "last a \<noteq> - 1"
  shows "increment_last a \<le> b \<longleftrightarrow> a < b"
proof -
  obtain p c where a: "a = p @ [c]" using assms(2) by (cases a rule: rev_cases) auto
  moreover obtain r d where b: "b = r @ [d]" using assms(1) a by (cases b rule: rev_cases) auto
  ultimately have "length p = length r" "c \<noteq> - 1" using assms(1,3) by simp_all
  then show ?thesis by (simp add: a b increment_last_def le_snoc less_snoc u8_less_add1)
qed

lemma sorted_after:
  "sorted_wrt (\<lambda>p q. g p < g q) (xs @ p # ys) \<Longrightarrow> filter (\<lambda>q. g p < g q) (xs @ p # ys) = ys" for g :: "'a \<Rightarrow> 'b :: order"
  by (auto simp: sorted_wrt_append filter_id_conv filter_empty_conv)

lemma map_filter_split:
  "List.map_filter f xs = us @ x # vs \<Longrightarrow> \<exists>ys p zs. xs = ys @ p # zs \<and> List.map_filter f ys = us \<and> f p = Some x \<and> List.map_filter f zs = vs"
proof (induction xs arbitrary: us)
  case (Cons a xs)
  show ?case
  proof (cases "f a")
    case None
    with Cons.prems Cons.IH [of us] obtain ys p zs where
      "xs = ys @ p # zs" "List.map_filter f ys = us" "f p = Some x" "List.map_filter f zs = vs"
      by (auto simp: map_filter_simps)
    with None show ?thesis by (intro exI [of _ "a # ys"]) (simp add: map_filter_simps)
  next
    case (Some y)
    show ?thesis
    proof (cases us)
      case Nil
      with Some Cons.prems show ?thesis by (intro exI [of _ "[]"]) (simp add: map_filter_simps)
    next
      case (Cons u us')
      with Some Cons.prems Cons.IH [of us'] obtain ys p zs where
        "xs = ys @ p # zs" "List.map_filter f ys = us'" "f p = Some x" "List.map_filter f zs = vs"
        by (auto simp: map_filter_simps)
      with Some Cons Cons.prems show ?thesis by (intro exI [of _ "a # ys"]) (simp add: map_filter_simps)
    qed
  qed
qed (simp add: map_filter_simps)

lemma length_bkey: "env_ok S \<Longrightarrow> length (bkey S k b) = length (sk_namespace k) + 42"
  by (simp add: bkey_def block_index_key_def env_ok_def key_hash_def)

lemma scanned_after:
  assumes "env_ok S" "keys_ok S K" "storage_inv S K st" "readable S K st" "start \<le> bkey S k b" "last (bkey S k b) \<noteq> - 1"
  shows "filter (same_namespace (sk_namespace k)) (scanned S st (sk_namespace k) (increment_last (bkey S k b)) hi) =
    filter (\<lambda>q. bkey S k b < fst q) (filter (same_namespace (sk_namespace k)) (scanned S st (sk_namespace k) start hi))"
  unfolding scanned_def tree_range_def filter_filter
proof (rule filter_cong [OF refl])
  fix x assume x: "x \<in> set (tree_iter S (ls_block_index_tree st))"
  have "increment_last (bkey S k b) \<le> fst x \<longleftrightarrow> bkey S k b < fst x" if "same_namespace (sk_namespace k) x"
  proof (rule increment_last_le)
    obtain k' e b' where own: "indexed S K st x k' e b'" using x block_index_iter [OF assms(1,3,4)] by (auto simp: indexed_def)
    then have "sk_namespace k' = sk_namespace k" using that indexed_same_namespace [OF assms(1,2) own] by simp
    with own show "length (bkey S k b) = length (fst x)" by (simp add: indexed_def length_bkey [OF assms(1)])
  qed (use assms(6) length_bkey [OF assms(1), of k b] in auto)
  with assms(5) show "((case x of (ka, _) \<Rightarrow> increment_last (bkey S k b) \<le> ka \<and>
        (case map_option (block_range_start (sk_namespace k)) hi of None \<Rightarrow> True | Some e \<Rightarrow> ka < e)) \<and>
      same_namespace (sk_namespace k) x) =
    (((case x of (ka, _) \<Rightarrow> start \<le> ka \<and>
        (case map_option (block_range_start (sk_namespace k)) hi of None \<Rightarrow> True | Some e \<Rightarrow> ka < e)) \<and>
      same_namespace (sk_namespace k) x) \<and> bkey S k b < fst x)"
    by (cases x) auto
qed

lemma query_from_cursor:
  assumes "env_ok S" "keys_ok S K" "storage_inv S K st" "readable S K st" "0 < n" "n < length full"
    and "full = query_from S now st q (query_start q)" "full ! (n - 1) = (k, v, b)" "last (key_hash (se_platform S) k) \<noteq> - 1"
  shows "query_from S now st q (increment_last (block_index_key (se_platform S) (qb_namespace q) b k)) = drop n full"
proof -
  let ?ns = "qb_namespace q" and ?hi = "snd (foldl note_filter (None, None) (qb_filters q))"
  let ?hit = "hit S now st (build_filter q)"
  let ?L = "filter (same_namespace ?ns) (scanned S st ?ns (query_start q) ?hi)"
  have full: "List.map_filter ?hit ?L = full" using assms(7) by (simp add: query_from_def matching_def)
  have "full = take (n - 1) full @ (k, v, b) # drop n full"
    using id_take_nth_drop [of "n - 1" full] assms(5,6,8) by simp
  with full obtain ys p zs where L: "?L = ys @ p # zs" "?hit p = Some (k, v, b)" "List.map_filter ?hit zs = drop n full"
    using map_filter_split [of ?hit ?L "take (n - 1) full" "(k, v, b)" "drop n full"] by auto
  then have "p \<in> set ?L" by simp
  then obtain k' e b' where own: "indexed S K st p k' e b'" and start: "query_start q \<le> fst p" "same_namespace ?ns p"
    by (auto simp: scanned_set [OF assms(1,3,4)])
  with L(2) indexed_hit [OF assms(1,2) own, of now "build_filter q" "(k, v, b)"]
  have p: "fst p = bkey S k b" "sk_namespace k = ?ns" "k \<in> K"
    using indexed_same_namespace [OF assms(1,2) own] by (simp_all add: indexed_def)
  have "length (key_hash (se_platform S) k) = 32" using assms(1) by (simp add: env_ok_def key_hash_def)
  then have "last (bkey S k b) \<noteq> - 1" using assms(9) by (auto simp: bkey_def block_index_key_def)
  from scanned_after [OF assms(1-4) _ this, of "query_start q" ?hi] start(1) p
  have "filter (same_namespace ?ns) (scanned S st ?ns (increment_last (bkey S k b)) ?hi) = filter (\<lambda>q. fst p < fst q) ?L"
    by simp
  also have "\<dots> = zs"
    unfolding L(1) by (rule sorted_after) (use sorted_wrt_filter [OF scanned_sorted] L(1) assms(1) in \<open>metis env_ok_def\<close>)
  finally show ?thesis using L(3) p(2) by (simp add: query_from_def matching_def bkey_def)
qed

end
