(* ===== verification/Storage_Spec.thy ===== *)
theory Storage_Spec
  imports Storage_Queries
begin

text \<open>
  The contract of the local storage: it refines a map from keys to entries with optimistic concurrency and
  expiry, its indexes agree with its contents, and its queries answer from that map. The concrete environment of
  the witnesses is a sorted association list for each tree and a table of entries for the encoding.
\<close>

section \<open>A concrete environment\<close>

definition table_env :: "platform \<Rightarrow> LocalEntry list \<Rightarrow> (bytes, bytes) hashmap storage_env" where
  "table_env P entries =
     \<lparr>se_platform = P, tree_empty = hm_new, tree_get = hm_get, tree_insert = (\<lambda>t k v. hm_insert k v t),
      tree_remove = (\<lambda>t k. hm_remove k t), tree_iter = (\<lambda>t. sort_key fst (hm_iter t)),
      entry_encode = (\<lambda>e. case position (\<lambda>x. x = e) entries of
                            Some i \<Rightarrow> Inr [of_nat i] | None \<Rightarrow> Inl ''unknown entry''),
      entry_decode = (\<lambda>v. if length v = 1 \<and> unat (hd v) < length entries then Inr (entries ! unat (hd v))
                          else Inl ''malformed'')\<rparr>"

definition sample_stored_key :: "u8 \<Rightarrow> StorageKey" where
  "sample_stored_key i = \<lparr>sk_namespace = ''s'', sk_key = [i]\<rparr>"

definition sample_entry :: "u64 option \<Rightarrow> bytes \<Rightarrow> LocalEntry" where
  "sample_entry b d =
     \<lparr>le_value = StoredValue_new sample_platform 5 d (Some ''n''), le_replication = ReplicationInfo_default, le_block_id = b\<rparr>"

definition sample_store_env :: "(bytes, bytes) hashmap storage_env" where
  "sample_store_env = table_env sample_platform [sample_entry (Some 3) [7], sample_entry (Some 4) [8], sample_entry None [9]]"

definition sample_store :: "(bytes, bytes) hashmap LocalStorage" where
  "sample_store =
     snd (put_with_block sample_store_env 5
       (snd (put_with_block sample_store_env 5 (in_memory sample_store_env ''n'') (sample_stored_key 97) [8] 4 PutOptions_default))
       (sample_stored_key 98) [7] 3 PutOptions_default)"

definition sample_keys :: "StorageKey set" where
  "sample_keys = {sample_stored_key 97, sample_stored_key 98}"

lemma sample_trees: "trees_ok (table_env P entries)"
proof -
  have "sorted_wrt (<) (map fst (sort_key fst (hm_iter t)))" for t :: "(bytes, bytes) hashmap"
  proof -
    have "distinct (map fst (hm_iter t))" using DAList.impl_of [of t] by simp
    then have "distinct (map fst (sort_key fst (hm_iter t)))" by (simp add: distinct_map)
    then show ?thesis by (simp add: strict_sorted_iff)
  qed
  then show ?thesis
    by (simp add: trees_ok_def table_env_def lookup_update lookup_delete hm_in_iter)
qed

lemma sample_codec:
  assumes "length entries \<le> 256"
  shows "codec_ok (table_env P entries)"
proof -
  have index: "unat (of_nat i :: u8) = i" if "i < length entries" for i
    using that assms by (simp add: unsigned_of_nat take_bit_nat_eq_self)
  have enc: "\<exists>i < length entries. entries ! i = e \<and> v = [of_nat i]" if "entry_encode (table_env P entries) e = Inr v" for e v
    using that by (auto simp: table_env_def position_eq_Some split: option.splits)
  show ?thesis
    unfolding codec_ok_def
  proof (intro conjI allI impI)
    fix e v assume "entry_encode (table_env P entries) e = Inr v"
    then obtain i where "i < length entries" "entries ! i = e" "v = [of_nat i]" using enc by blast
    then show "if length v \<le> MAX_ENTRY_SIZE then entry_decode (table_env P entries) v = Inr e
        else \<exists>err. entry_decode (table_env P entries) v = Inl err"
      using index [of i] by (simp add: table_env_def MAX_ENTRY_SIZE_def)
  next
    fix e e' v assume "entry_encode (table_env P entries) e = Inr v" "entry_encode (table_env P entries) e' = Inr v"
    then obtain i j where "i < length entries" "entries ! i = e" "v = [of_nat i]" "j < length entries" "entries ! j = e'"
      "v = [of_nat j]" using enc by blast
    then show "e = e'" using index [of i] index [of j] by simp
  qed
qed

lemma sample_hex: "inj (hex_encode sample_platform)"
proof
  fix x y assume "hex_encode sample_platform x = hex_encode sample_platform y"
  then have "of_bytes x = of_bytes y" by (simp add: sample_platform_def of_bytes_def)
  then show "x = y" by (metis as_bytes_of_bytes)
qed

lemma sample_env_ok: "env_ok sample_store_env"
proof -
  have "se_platform sample_store_env = sample_platform" by (simp add: sample_store_env_def table_env_def)
  moreover have "length (sha256 sample_platform x) = 32" for x by (simp add: sample_platform_def)
  ultimately show ?thesis
    using sample_hex sample_codec [of "[_, _, _]"] sample_trees by (simp add: env_ok_def sample_store_env_def)
qed

lemma sample_keys_ok: "keys_ok sample_store_env sample_keys"
proof -
  have "key_hash sample_platform (sample_stored_key 97) \<noteq> key_hash sample_platform (sample_stored_key 98)"
    "wf_key (sample_stored_key 97)" "wf_key (sample_stored_key 98)" by code_simp+
  then show ?thesis
    using card_insert_le_m1 [of 2 "{sample_stored_key 98}" "sample_stored_key 97"]
    by (auto simp: keys_ok_def sample_keys_def sample_store_env_def table_env_def card_insert_if)
qed

section \<open>The abstract storage\<close>

type_synonym storage_map = "StorageKey \<Rightarrow> LocalEntry option"

definition abs_storage :: "'t storage_env \<Rightarrow> StorageKey set \<Rightarrow> 't LocalStorage \<Rightarrow> storage_map" where
  "abs_storage S K st k =
     (if k \<in> K then (case get_entry S st k of Inr e \<Rightarrow> e | Inl _ \<Rightarrow> None) else None)"

definition written ::
  "'t storage_env \<Rightarrow> i64 \<Rightarrow> 't LocalStorage \<Rightarrow> LocalEntry option \<Rightarrow> bytes \<Rightarrow> u64 option \<Rightarrow> PutOptions \<Rightarrow> LocalEntry" where
  "written S now st old value block_id options =
     \<lparr>le_value = new_value S now st old value options,
      le_replication = ReplicationInfo_default\<lparr>ri_needs_replication := \<not> po_local_only options\<rparr>, le_block_id = block_id\<rparr>"

definition spec_put ::
  "storage_map \<Rightarrow> StorageKey \<Rightarrow> (LocalEntry option \<Rightarrow> LocalEntry) \<Rightarrow> PutOptions \<Rightarrow> (StorageError + ValueMetadata) \<times> storage_map" where
  "spec_put m k new options =
     (case check_version (m k) options of
        Inl err \<Rightarrow> (Inl err, m)
      | Inr _ \<Rightarrow> (Inr (sv_metadata (le_value (new (m k)))), m(k \<mapsto> new (m k))))"

definition spec_get :: "storage_map \<Rightarrow> i64 \<Rightarrow> StorageKey \<Rightarrow> StoredValue option \<times> storage_map" where
  "spec_get m now k =
     (case m k of
        None \<Rightarrow> (None, m)
      | Some e \<Rightarrow> if is_expired now (sv_metadata (le_value e)) then (None, m(k := None)) else (Some (le_value e), m))"

definition fits :: "'t storage_env \<Rightarrow> LocalEntry \<Rightarrow> bool" where
  "fits S e \<longleftrightarrow> (\<exists>v. entry_encode S e = Inr v \<and> length v \<le> MAX_ENTRY_SIZE)"

lemma get_entry_abs: "readable S K st \<Longrightarrow> k \<in> K \<Longrightarrow> get_entry S st k = Inr (abs_storage S K st k)"
  by (cases "get_entry S st k") (auto simp: readable_def abs_storage_def)

lemma replaced_get_entry:
  assumes "replaced S st k old new st'" "keys_ok S K" "codec_ok S" "k \<in> K" "k' \<in> K" "\<forall>e. new = Some e \<longrightarrow> fits S e"
  shows "get_entry S st' k' = (if k' = k then Inr new else get_entry S st k')"
proof -
  have "get_entry S st' k = Inr (Some e)" if "new = Some e" for e
  proof -
    have "fits S e" using assms(6) that by simp
    then obtain v where v: "entry_encode S e = Inr v" "length v \<le> MAX_ENTRY_SIZE" by (auto simp: fits_def)
    then have "entry_decode S v = Inr e" using assms(3) by (simp add: codec_ok_def)
    moreover have "data_at S st' k = Some v" using replaced_data_at [OF assms(1,2,4,4)] that v(1) by simp
    ultimately show ?thesis by (simp add: get_entry_Some)
  qed
  moreover have "get_entry S st' k = Inr None" if "new = None"
    using replaced_data_at [OF assms(1,2,4,4)] that by (simp add: get_entry_None)
  moreover have "get_entry S st' k' = get_entry S st k'" if "k' \<noteq> k"
    using replaced_data_at [OF assms(1,2,4,5)] that by (simp add: get_entry_def data_at_def)
  ultimately show ?thesis by (cases new) auto
qed

lemma replaced_abs:
  assumes "replaced S st k old new st'" "keys_ok S K" "codec_ok S" "k \<in> K" "\<forall>e. new = Some e \<longrightarrow> fits S e"
  shows "abs_storage S K st' = (abs_storage S K st)(k := new)"
  using replaced_get_entry [OF assms(1-4) _ assms(5)] assms(4) by (auto simp: abs_storage_def fun_eq_iff)

lemma put_entry_abs:
  assumes "env_ok S" "keys_ok S K" "readable S K st" "k \<in> K" "fits S e" "put_entry S st k e = (r, st')"
  shows "r = Inr () \<and> abs_storage S K st' = (abs_storage S K st)(k \<mapsto> e)"
proof -
  obtain v where "entry_encode S e = Inr v" using assms(5) by (auto simp: fits_def)
  then have "r = Inr ()" using assms(6) get_entry_abs [OF assms(3,4)] by (auto simp: put_entry_def Let_def)
  then obtain old where "replaced S st k old (Some e) st'"
    using put_entry_replaced [OF _ assms(6)] assms(1) by (auto simp: env_ok_def)
  from replaced_abs [OF this assms(2) _ assms(4)] show ?thesis
    using \<open>r = Inr ()\<close> assms(1,5) by (simp add: env_ok_def)
qed

lemma put_value_abs:
  assumes "env_ok S" "keys_ok S K" "readable S K st" "k \<in> K"
    and "fits S (written S now st (abs_storage S K st k) v b options)"
    and "put_value S now st k v b options = (r, st')"
  shows "(r, abs_storage S K st') = spec_put (abs_storage S K st) k (\<lambda>old. written S now st old v b options) options"
proof (cases "check_version (abs_storage S K st k) options")
  case (Inr u)
  obtain r0 where "put_entry S st k (written S now st (abs_storage S K st k) v b options) = (r0, st')"
    and "r0 = Inr () \<Longrightarrow> r = Inr (sv_metadata (new_value S now st (abs_storage S K st k) v options))"
    using assms(6) Inr
    by (auto simp: put_value_def get_entry_abs [OF assms(3,4)] written_def Let_def split: prod.splits sum.splits)
  with put_entry_abs [OF assms(1-5)] Inr show ?thesis by (auto simp: spec_put_def written_def)
qed (use assms(6) in \<open>auto simp: put_value_def spec_put_def get_entry_abs [OF assms(3,4)]\<close>)

lemma delete_entry_abs:
  assumes "env_ok S" "keys_ok S K" "readable S K st" "k \<in> K" "delete_entry S st k = (r, st')"
  shows "r = Inr (abs_storage S K st k \<noteq> None) \<and> abs_storage S K st' = (abs_storage S K st)(k := None)"
proof -
  have trees: "trees_ok S" and codec: "codec_ok S" using assms(1) by (simp_all add: env_ok_def)
  have "r \<noteq> Inl err" for err
    using assms(5) get_entry_abs [OF assms(3,4)] by (auto simp: delete_entry_def split: if_splits)
  with delete_entry_replaced [OF trees assms(5)] obtain old where
    old: "r = Inr (old \<noteq> None)" "old \<noteq> None \<longrightarrow> replaced S st k old None st'"
    "old = None \<longrightarrow> get_entry S st k = Inr None \<and> (\<exists>t. st' = st\<lparr>ls_data_tree := t\<rparr> \<and>
          (\<forall>b. tree_get S t b = tree_get S (ls_data_tree st) b))" by blast
  show ?thesis
  proof (cases old)
    case None
    then have "abs_storage S K st' = abs_storage S K st" "abs_storage S K st k = None"
      using old(3) by (auto simp: abs_storage_def get_entry_def fun_eq_iff)
    with None old(1) show ?thesis by auto
  next
    case (Some e)
    then have "replaced S st k old None st'" using old(2) by simp
    moreover from this have "abs_storage S K st k = Some e" using Some assms(4) by (simp add: replaced_def abs_storage_def)
    ultimately show ?thesis using replaced_abs [OF _ assms(2) codec assms(4)] Some old(1) by simp
  qed
qed

lemma get_value_abs:
  assumes "env_ok S" "keys_ok S K" "readable S K st" "k \<in> K" "get_value S now st k = (r, st')"
  shows "\<exists>x. r = Inr x \<and> (x, abs_storage S K st') = spec_get (abs_storage S K st) now k"
proof (cases "abs_storage S K st k")
  case (Some e)
  obtain r0 st0 where d: "delete_entry S st k = (r0, st0)" by fastforce
  then have "r0 = Inr True \<and> abs_storage S K st0 = (abs_storage S K st)(k := None)"
    using delete_entry_abs [OF assms(1-4)] Some by auto
  then show ?thesis
    using assms(5) d Some by (auto simp: get_value_def get_entry_abs [OF assms(3,4)] spec_get_def split: if_splits)
qed (use assms(5) in \<open>auto simp: get_value_def get_entry_abs [OF assms(3,4)] spec_get_def\<close>)

lemma sample_reach: "storage_reach sample_store_env sample_keys sample_store"
proof -
  have step: "storage_reach S K (snd (put_with_block S now st k v b options))" if "storage_reach S K st" "k \<in> K"
    for S :: "'t storage_env" and K now st k v b options
    using reach_put_with_block [OF that prod.collapse [symmetric]] .
  show ?thesis unfolding sample_store_def by (intro step reach_new) (simp_all add: sample_keys_def)
qed

lemma sample_readable: "readable sample_store_env sample_keys sample_store"
proof -
  have "get_entry sample_store_env sample_store (sample_stored_key 97) = Inr (Some (sample_entry (Some 4) [8]))"
    "get_entry sample_store_env sample_store (sample_stored_key 98) = Inr (Some (sample_entry (Some 3) [7]))" by code_simp+
  then show ?thesis by (simp add: readable_def sample_keys_def)
qed

definition listing_of ::
  "'t storage_env \<Rightarrow> StorageKey set \<Rightarrow> i64 \<Rightarrow> 't LocalStorage \<Rightarrow> string \<Rightarrow> (u64 \<Rightarrow> bool) \<Rightarrow> usize \<Rightarrow> StorageError + QueryResult \<Rightarrow> bool" where
  "listing_of S K now st ns P limit res \<longleftrightarrow>
     (\<exists>full. distinct full \<and> sorted (map (snd \<circ> snd) full) \<and> set full = block_entries S K now st ns P None \<and>
        res = Inr (QueryResult_new (map (\<lambda>(k, v, _). (k, v)) (take (max 1 limit) full)) 0 limit (limit \<le> length full)))"

lemma listing_of_range:
  assumes "env_ok S" "keys_ok S K" "storage_inv S K st" "readable S K st" "\<And>b. in_blocks lo hi b \<longleftrightarrow> P b"
  shows "listing_of S K now st ns P limit
    (block_listing S now st ns (block_range_start ns lo) (map_option (block_range_start ns) hi) limit)"
proof -
  have "in_blocks lo hi = P" using assms(5) by auto
  then show ?thesis
    unfolding listing_of_def block_listing_exact [OF assms(1-4)]
    using matching_order [OF assms(1-4), of now ns _ hi None] matching_set [OF assms(1-4), of now ns lo hi None] by blast
qed

lemma range_end_start: "e \<noteq> - 1 \<Longrightarrow> block_range_end ns e = block_range_start ns (e + 1)"
  by (simp add: block_range_end_def block_range_start_def saturating_add1_def)

lemma add1_le: "e \<noteq> - 1 \<Longrightarrow> e + 1 \<le> b \<longleftrightarrow> e < (b :: u64)"
  using less_add1 [of e b] by auto

definition page_items :: "(StorageKey \<times> StoredValue \<times> u64) list \<Rightarrow> (StorageKey \<times> StoredValue) list" where
  "page_items xs = map (\<lambda>(k, v, _). (k, v)) xs"

lemma query_next_page:
  assumes "env_ok S" "keys_ok S K" "storage_inv S K st" "readable S K st" "qb_cursor q = None"
    and "full = query_from S now st q (query_start q)" "0 < qb_limit q" "qb_limit q < length full"
    and "last (key_hash (se_platform S) (fst (full ! (qb_limit q - 1)))) \<noteq> - 1"
  shows "\<exists>c. qr_next_cursor (page_of S st q full) = Some c \<and>
    query S now st (set_cursor q c) = Inr (page_of S st (set_cursor q c) (drop (qb_limit q) full))"
proof -
  obtain k v b where kvb: "full ! (qb_limit q - 1) = (k, v, b)" by (cases "full ! (qb_limit q - 1)")
  define c where "c = from_last_item (se_platform S) (qb_namespace q) b k"
  let ?start = "increment_last (block_index_key (se_platform S) (qb_namespace q) b k)"
  have start: "cursor_start (set_cursor q c) x = ?start" for x
    by (simp add: cursor_start_def set_cursor_def c_def from_last_item_def block_index_key_def)
  have "starts_in (qb_namespace q) ?start"
    using assms(1) by (auto simp: starts_in_def increment_last_def block_index_key_def butlast_append)
  then have "query S now st (set_cursor q c) =
      Inr (page_of S st (set_cursor q c) (query_from S now st (set_cursor q c) ?start))"
    using query_is_page [OF assms(1-4), of "set_cursor q c"] start by (simp add: set_cursor_def)
  moreover have "query_from S now st (set_cursor q c) ?start = drop (qb_limit q) full"
  proof -
    have "query_from S now st (set_cursor q c) = query_from S now st q"
      by (simp add: query_from_def fun_eq_iff set_cursor_def build_filter_def)
    with query_from_cursor [OF assms(1-4,7,8,6) kvb] assms(9) kvb show ?thesis by simp
  qed
  ultimately show ?thesis using assms(7,8) kvb by (simp add: page_of_def c_def)
qed

definition sample_query :: QueryBuilder where
  "sample_query = set_limit (after_block (QueryBuilder_new ''s'') 1) 1"

lemma put_value_stores:
  assumes "trees_ok S" "put_value S now st k v b options = (Inr m, st')" "data_at S st' k = Some bs"
  shows "\<exists>e. entry_encode S e = Inr bs"
proof -
  obtain e where "put_entry S st k e = (Inr (), st')"
    using assms(2) by (auto simp: put_value_def Let_def split: sum.splits prod.splits)
  then obtain old where "replaced S st k old (Some e) st'" using put_entry_replaced [OF assms(1)] by blast
  then have "\<exists>v. entry_encode S e = Inr v" "data_at S st' k = Some (projr (entry_encode S e))"
    by (simp_all add: replaced_def data_at_def)
  with assms(3) show ?thesis by (intro exI [of _ e]) auto
qed

definition large_entry :: LocalEntry where
  "large_entry = sample_entry (Some 3) [7]"

definition large_env :: "(bytes, bytes) hashmap storage_env" where
  "large_env = (table_env sample_platform [])
     \<lparr>entry_encode := (\<lambda>e. if e = large_entry then Inr (replicate (Suc MAX_ENTRY_SIZE) 0) else Inl ''unknown entry''),
      entry_decode := (\<lambda>v. Inl ''the size limit has been reached'')\<rparr>"

definition hex_digit :: "nat \<Rightarrow> char" where
  "hex_digit n = ''0123456789abcdef'' ! n"

definition lower_hex :: "bytes \<Rightarrow> string" where
  "lower_hex bs = concat (map (\<lambda>b. [hex_digit (unat b div 16), hex_digit (unat b mod 16)]) bs)"

definition hex_env :: "(bytes, bytes) hashmap storage_env" where
  "hex_env = table_env (sample_platform\<lparr>hex_encode := lower_hex\<rparr>) [sample_entry None [7]]"

definition text_key :: "string \<Rightarrow> StorageKey" where
  "text_key s = StorageKey_new ''s'' (as_bytes s)"

definition three_keys :: "(bytes, bytes) hashmap LocalStorage" where
  "three_keys =
     foldl (\<lambda>st k. snd (put hex_env 5 st (text_key k) [7] PutOptions_default)) (in_memory hex_env ''n'') [''a'', ''ab'', ''b'']"

section \<open>Properties\<close>

text \<open>
  C21. The trees of the local storage agree. After any sequence of puts, puts with a block, gets, deletes and
  replication marks on the keys in use, the data tree holds entries of these keys only, the namespace index lists
  exactly the keys present, the block index lists exactly the entries that have a block, each under its block, and
  the count of every namespace is the number of its keys that are present.
\<close>

theorem storage_consistent:
  assumes "storage_reach S K st" "env_ok S" "keys_ok S K"
  shows "data_inv S K st \<and> index_inv S K st \<and> block_inv S K st \<and> count_inv S K st"
  using storage_reach_inv [OF assms] by (simp add: storage_inv_def)

theorem storage_consistent_witness:
  "count_by_namespace sample_store ''s'' =
     of_nat (card {k \<in> sample_keys. sk_namespace k = ''s'' \<and> data_at sample_store_env sample_store k \<noteq> None}) \<and>
   count_by_namespace sample_store ''s'' = 2"
proof
  show "count_by_namespace sample_store ''s'' =
     of_nat (card {k \<in> sample_keys. sk_namespace k = ''s'' \<and> data_at sample_store_env sample_store k \<noteq> None})"
    using storage_consistent [OF sample_reach sample_env_ok sample_keys_ok] by (simp add: count_inv_def)
qed code_simp



text \<open>
  The listings by block are exact. On a storage reached by the operations, with all entries readable, the
  listings before a block, after a block and within a range return the entries of the namespace with such a block
  that have not expired and whose keys are text, in the order of their blocks and without repetition, cut after
  the limit (one entry at least), and report more exactly when the limit is reached. The block after the last and
  the range up to the last possible block number are excepted.
\<close>

theorem listings_exact:
  assumes "storage_reach S K st" "env_ok S" "keys_ok S K" "readable S K st"
  shows "listing_of S K now st ns (\<lambda>b. b < n) limit (list_before_block S now st ns n limit) \<and>
    (n \<noteq> - 1 \<longrightarrow> listing_of S K now st ns (\<lambda>b. n < b) limit (list_after_block S now st ns n limit)) \<and>
    (n \<noteq> - 1 \<longrightarrow> listing_of S K now st ns (\<lambda>b. m \<le> b \<and> b \<le> n) limit (list_range S now st ns m n limit))"
proof -
  note inv = storage_reach_inv [OF assms(1-3)]
  note listing = listing_of_range [OF assms(2,3) inv assms(4), where now = now and ns = ns and limit = limit]
  show ?thesis
    using listing [of 0 "Some n" "\<lambda>b. b < n"] listing [of "n + 1" None "\<lambda>b. n < b"]
      listing [of m "Some (n + 1)" "\<lambda>b. m \<le> b \<and> b \<le> n"]
    by (simp add: in_blocks_def list_before_block_def list_after_block_def list_range_def range_end_start add1_le less_add1)
qed

theorem listings_exact_witness:
  "listing_of sample_store_env sample_keys 9 sample_store ''s'' (\<lambda>b. 2 \<le> b \<and> b \<le> 3) 5
     (list_range sample_store_env 9 sample_store ''s'' 2 3 5) \<and>
   map_sum id qr_items (list_range sample_store_env 9 sample_store ''s'' 2 3 5) =
     Inr [(sample_stored_key 98, le_value (sample_entry (Some 3) [7]))]"
proof
  show "listing_of sample_store_env sample_keys 9 sample_store ''s'' (\<lambda>b. 2 \<le> b \<and> b \<le> 3) 5
     (list_range sample_store_env 9 sample_store ''s'' 2 3 5)"
    using listings_exact [OF sample_reach sample_env_ok sample_keys_ok sample_readable, where n = 3 and m = 2] by simp
qed code_simp





text \<open>
  Listing a namespace page by page skips keys. The continuation token is the last index key with its last byte
  incremented, so every key that extends the last key of a page is passed over: of the keys a, ab and b, pages of
  one item show a and then b.
\<close>

theorem list_prefix_skips_extensions:
  "map_sum id (\<lambda>r. (map fst (lr_items r), lr_continuation_token r)) (list_prefix hex_env 9 three_keys ''s'' None 1 None) =
     Inr ([text_key ''a''], Some (as_bytes ''s:62'')) \<and>
   map_sum id (\<lambda>r. map fst (lr_items r)) (list_prefix hex_env 9 three_keys ''s'' None 1 (Some (as_bytes ''s:62''))) =
     Inr [text_key ''b''] \<and>
   key_exists hex_env three_keys (text_key ''ab'')"
  by code_simp

end
