(* ===== verification/Mechanism_Weights.thy ===== *)
theory Mechanism_Weights
  imports Commit_Reveal
begin

text \<open>
  From finalised weights to what is paid and submitted: the emissions of an epoch
  (\<^verbatim>\<open>epoch/src/aggregator.rs\<close>), the conversion of a challenge's weights to the 16-bit weights of a Bittensor
  mechanism with the rest going to the burn address, and the commit-reveal of these per mechanism
  (\<^verbatim>\<open>epoch/src/mechanism_weights.rs\<close>), with the challenge metadata they read
  (\<^verbatim>\<open>challenge-sdk/src/types.rs\<close>).
\<close>

section \<open>Challenges and emissions\<close>

record SdkChallengeConfig =
  sc_mechanism_id :: u8
  sc_evaluation_timeout_secs :: u64
  sc_max_memory_mb :: u64
  sc_min_validators_for_weights :: usize
  sc_weight_smoothing :: f64
  sc_params :: string

definition SdkChallengeConfig_default :: SdkChallengeConfig where
  "SdkChallengeConfig_default =
     \<lparr>sc_mechanism_id = 1, sc_evaluation_timeout_secs = 300, sc_max_memory_mb = 512, sc_min_validators_for_weights = 3,
      sc_weight_smoothing = 3 / 10, sc_params = ''{}''\<rparr>"

definition with_mechanism :: "u8 \<Rightarrow> SdkChallengeConfig" where
  "with_mechanism mechanism_id = SdkChallengeConfig_default\<lparr>sc_mechanism_id := mechanism_id\<rparr>"

record ChallengeMetadata =
  md_id :: ChallengeId
  md_name :: string
  md_description :: string
  md_version :: string
  md_owner :: Hotkey
  md_emission_weight :: f64
  md_config :: SdkChallengeConfig
  md_created_at :: i64
  md_updated_at :: i64
  md_is_active :: bool

record AgentEmission =
  ae_hotkey :: string
  ae_weight :: f64
  ae_emission :: u64
  ae_challenge_id :: ChallengeId

record EmissionDistribution =
  ed_epoch :: u64
  ed_total_emission :: u64
  ed_distributions :: "AgentEmission list"
  ed_timestamp :: i64

text \<open>The cast \<open>as u64\<close> of an \<open>f64\<close>: towards zero, saturating.\<close>

definition f64_as_u64 :: "f64 \<Rightarrow> u64" where
  "f64_as_u64 x = (if x < 0 then 0 else if x \<ge> 2 ^ 64 then - 1 else of_nat (nat \<lfloor>x\<rfloor>))"

definition group_push :: "(string, AgentEmission list) hashmap \<Rightarrow> AgentEmission \<Rightarrow> (string, AgentEmission list) hashmap" where
  "group_push m e =
     hm_insert (ae_hotkey e) ((case hm_get m (ae_hotkey e) of Some es \<Rightarrow> es | None \<Rightarrow> []) @ [e]) m"

definition merge_group :: "ChallengeId \<Rightarrow> string \<times> AgentEmission list \<Rightarrow> AgentEmission" where
  "merge_group fresh_id grp =
     (let (h, emissions) = grp
      in \<lparr>ae_hotkey = h, ae_weight = sum_list (map ae_weight emissions) / real (length emissions),
          ae_emission = sum_list (map ae_emission emissions),
          ae_challenge_id = (case emissions of e # _ \<Rightarrow> ae_challenge_id e | [] \<Rightarrow> fresh_id)\<rparr>)"

definition merge_agent_emissions :: "ChallengeId \<Rightarrow> AgentEmission list \<Rightarrow> AgentEmission list" where
  "merge_agent_emissions fresh_id distributions =
     map (merge_group fresh_id) (hm_iter (foldl group_push hm_new distributions))"

definition challenge_emissions ::
  "u64 \<Rightarrow> f64 \<Rightarrow> (ChallengeId, FinalizedWeights) hashmap \<Rightarrow> ChallengeMetadata \<Rightarrow> AgentEmission list" where
  "challenge_emissions total_emission total_challenge_weight finalized_weights challenge =
     (if \<not> md_is_active challenge then []
      else case hm_get finalized_weights (md_id challenge) of
             None \<Rightarrow> []
           | Some fw \<Rightarrow>
               let challenge_share = md_emission_weight challenge / total_challenge_weight;
                   challenge_emission = f64_as_u64 (real (unat total_emission) * challenge_share)
               in map (\<lambda>w. \<lparr>ae_hotkey = wa_hotkey w, ae_weight = wa_weight w,
                            ae_emission = f64_as_u64 (real (unat challenge_emission) * wa_weight w),
                            ae_challenge_id = md_id challenge\<rparr>) (fw_weights fw))"

definition calculate_emissions ::
  "i64 \<Rightarrow> ChallengeId \<Rightarrow> u64 \<Rightarrow> u64 \<Rightarrow> ChallengeMetadata list \<Rightarrow> (ChallengeId, FinalizedWeights) hashmap \<Rightarrow> EmissionDistribution" where
  "calculate_emissions now fresh_id epoch total_emission challenges finalized_weights =
     (let total_challenge_weight = sum_list (map md_emission_weight (filter md_is_active challenges))
      in if total_challenge_weight = 0
         then \<lparr>ed_epoch = epoch, ed_total_emission = total_emission, ed_distributions = [], ed_timestamp = now\<rparr>
         else \<lparr>ed_epoch = epoch, ed_total_emission = total_emission,
               ed_distributions = merge_agent_emissions fresh_id
                 (concat (map (challenge_emissions total_emission total_challenge_weight finalized_weights) challenges)),
               ed_timestamp = now\<rparr>)"

section \<open>Validator reports\<close>

datatype SuspicionReason = ExcludedFromConsensus | WeightDeviation f64 | NoParticipation

record SuspiciousValidator =
  sp_hotkey :: Hotkey
  sp_reason :: SuspicionReason
  sp_challenge_id :: ChallengeId
  sp_epoch :: u64

definition detect_suspicious_validators :: "FinalizedWeights list \<Rightarrow> SuspiciousValidator list" where
  "detect_suspicious_validators finalized_weights =
     concat (map (\<lambda>fw. map (\<lambda>v. \<lparr>sp_hotkey = v, sp_reason = ExcludedFromConsensus, sp_challenge_id = fw_challenge_id fw,
                                  sp_epoch = fw_epoch fw\<rparr>) (fw_excluded_validators fw)) finalized_weights)"

record ValidatorMetrics =
  vmt_hotkey :: Hotkey
  vmt_epochs_participated :: usize
  vmt_epochs_excluded :: usize
  vmt_participation_rate :: f64

definition count_participation :: "Hotkey \<Rightarrow> usize \<times> usize \<Rightarrow> FinalizedWeights \<Rightarrow> usize \<times> usize" where
  "count_participation v counts fw =
     (if v \<in> set (fw_participating_validators fw) then (fst counts + 1, snd counts)
      else if v \<in> set (fw_excluded_validators fw) then (fst counts, snd counts + 1)
      else counts)"

definition validator_metrics :: "Hotkey \<Rightarrow> FinalizedWeights list \<Rightarrow> ValidatorMetrics" where
  "validator_metrics v history =
     (let (participated, excluded) = foldl (count_participation v) (0, 0) history;
          total = participated + excluded
      in \<lparr>vmt_hotkey = v, vmt_epochs_participated = participated, vmt_epochs_excluded = excluded,
          vmt_participation_rate = (if total > 0 then real participated / real total else 0)\<rparr>)"

section \<open>Weights of a mechanism\<close>

definition BURN_UID :: u16 where
  "BURN_UID = 0"

definition MAX_WEIGHT :: u16 where
  "MAX_WEIGHT = 65535"

record MechanismWeights =
  mw_mechanism_id :: u8
  mw_challenge_id :: ChallengeId
  mw_uids :: "u16 list"
  mw_weights :: "u16 list"
  mw_raw_weights :: "WeightAssignment list"
  mw_emission_weight :: f64

type_synonym HotkeyUidMap = "(string, u16) hashmap"

text \<open>\<open>f64::round\<close>: to the nearest integer, halves away from zero.\<close>

definition f64_round :: "f64 \<Rightarrow> f64" where
  "f64_round x = (if x \<ge> 0 then of_int \<lfloor>x + 1 / 2\<rfloor> else of_int \<lceil>x - 1 / 2\<rceil>)"

definition scaled_weight :: "f64 \<Rightarrow> f64 \<Rightarrow> WeightAssignment \<Rightarrow> u16" where
  "scaled_weight emission_weight total_score a =
     (let normalized_score = wa_weight a / total_score
      in f64_as_u16 (f64_round (normalized_score * emission_weight * real (unat MAX_WEIGHT))))"

fun scale_loop ::
  "f64 \<Rightarrow> f64 \<Rightarrow> HotkeyUidMap \<Rightarrow> u16 list \<Rightarrow> u16 list \<Rightarrow> u64 \<Rightarrow> WeightAssignment list \<Rightarrow> u16 list \<times> u16 list \<times> u64" where
  "scale_loop emission_weight total_score hotkey_to_uid uids weights used_weight [] = (uids, weights, used_weight)"
| "scale_loop emission_weight total_score hotkey_to_uid uids weights used_weight (a # rest) =
     (case hm_get hotkey_to_uid (wa_hotkey a) of
        None \<Rightarrow> scale_loop emission_weight total_score hotkey_to_uid uids weights used_weight rest
      | Some uid \<Rightarrow>
          if uid = BURN_UID then scale_loop emission_weight total_score hotkey_to_uid uids weights used_weight rest
          else
            let w = scaled_weight emission_weight total_score a
            in if w > 0
               then scale_loop emission_weight total_score hotkey_to_uid (uids @ [uid]) (weights @ [w]) (used_weight + ucast w) rest
               else scale_loop emission_weight total_score hotkey_to_uid uids weights used_weight rest)"

definition convert_to_bittensor_format :: "WeightAssignment list \<Rightarrow> f64 \<Rightarrow> HotkeyUidMap \<Rightarrow> u16 list \<times> u16 list" where
  "convert_to_bittensor_format assignments emission_weight hotkey_to_uid =
     (if assignments = [] \<or> emission_weight \<le> 0 then ([BURN_UID], [MAX_WEIGHT])
      else
        let total_score = sum_list (map wa_weight assignments)
        in if total_score \<le> 0 then ([BURN_UID], [MAX_WEIGHT])
           else
             let (uids, weights, used_weight) = scale_loop emission_weight total_score hotkey_to_uid [] [] 0 assignments;
                 burn_weight = (if MAX_WEIGHT < ucast used_weight then 0 else MAX_WEIGHT - ucast used_weight)
             in if burn_weight > 0 then (BURN_UID # uids, burn_weight # weights) else (uids, weights))"

definition with_hotkey_mapping ::
  "u8 \<Rightarrow> ChallengeId \<Rightarrow> WeightAssignment list \<Rightarrow> f64 \<Rightarrow> HotkeyUidMap \<Rightarrow> MechanismWeights" where
  "with_hotkey_mapping mechanism_id challenge_id assignments emission_weight hotkey_to_uid =
     (let e = max 0 (min 1 emission_weight);
          (uids, weights) = convert_to_bittensor_format assignments e hotkey_to_uid
      in \<lparr>mw_mechanism_id = mechanism_id, mw_challenge_id = challenge_id, mw_uids = uids, mw_weights = weights,
          mw_raw_weights = assignments, mw_emission_weight = e\<rparr>)"

definition MechanismWeights_new :: "u8 \<Rightarrow> ChallengeId \<Rightarrow> WeightAssignment list \<Rightarrow> f64 \<Rightarrow> MechanismWeights" where
  "MechanismWeights_new mechanism_id challenge_id assignments emission_weight =
     with_hotkey_mapping mechanism_id challenge_id assignments emission_weight hm_new"

definition as_batch_tuple :: "MechanismWeights \<Rightarrow> u8 \<times> u16 list \<times> u16 list" where
  "as_batch_tuple w = (mw_mechanism_id w, mw_uids w, mw_weights w)"

record MechanismWeightManager =
  mm_epoch :: u64
  mm_weights :: "(u8, MechanismWeights) hashmap"
  mm_challenge_mechanism_map :: "(ChallengeId, u8) hashmap"

definition MechanismWeightManager_new :: "u64 \<Rightarrow> MechanismWeightManager" where
  "MechanismWeightManager_new epoch = \<lparr>mm_epoch = epoch, mm_weights = hm_new, mm_challenge_mechanism_map = hm_new\<rparr>"

definition register_challenge :: "MechanismWeightManager \<Rightarrow> ChallengeId \<Rightarrow> u8 \<Rightarrow> MechanismWeightManager" where
  "register_challenge m challenge_id mechanism_id =
     m\<lparr>mm_challenge_mechanism_map := hm_insert challenge_id mechanism_id (mm_challenge_mechanism_map m)\<rparr>"

definition submit_weights_with_metagraph ::
  "MechanismWeightManager \<Rightarrow> ChallengeId \<Rightarrow> u8 \<Rightarrow> WeightAssignment list \<Rightarrow> f64 \<Rightarrow> HotkeyUidMap \<Rightarrow> MechanismWeightManager" where
  "submit_weights_with_metagraph m challenge_id mechanism_id weights emission_weight hotkey_to_uid =
     m\<lparr>mm_weights := hm_insert mechanism_id
         (with_hotkey_mapping mechanism_id challenge_id weights emission_weight hotkey_to_uid) (mm_weights m)\<rparr>"

definition submit_weights ::
  "MechanismWeightManager \<Rightarrow> ChallengeId \<Rightarrow> u8 \<Rightarrow> WeightAssignment list \<Rightarrow> f64 \<Rightarrow> MechanismWeightManager" where
  "submit_weights m challenge_id mechanism_id weights emission_weight =
     submit_weights_with_metagraph m challenge_id mechanism_id weights emission_weight hm_new"

definition get_all_mechanism_weights :: "MechanismWeightManager \<Rightarrow> (u8 \<times> u16 list \<times> u16 list) list" where
  "get_all_mechanism_weights m = map as_batch_tuple (hm_values (mm_weights m))"

definition get_mechanism_weights :: "MechanismWeightManager \<Rightarrow> u8 \<Rightarrow> MechanismWeights option" where
  "get_mechanism_weights m mechanism_id = hm_get (mm_weights m) mechanism_id"

definition get_mechanism_for_challenge :: "MechanismWeightManager \<Rightarrow> ChallengeId \<Rightarrow> u8 option" where
  "get_mechanism_for_challenge m challenge_id = hm_get (mm_challenge_mechanism_map m) challenge_id"

definition list_mechanisms :: "MechanismWeightManager \<Rightarrow> u8 list" where
  "list_mechanisms m = hm_keys (mm_weights m)"

definition clear_weights :: "MechanismWeightManager \<Rightarrow> MechanismWeightManager" where
  "clear_weights m = m\<lparr>mm_weights := hm_new\<rparr>"

section \<open>Commit and reveal per mechanism\<close>

record MechanismCommitment =
  mc_mechanism_id :: u8
  mc_epoch :: u64
  mc_commit_hash :: bytes
  mc_salt :: bytes

definition u16_to_le_bytes :: "u16 \<Rightarrow> bytes" where
  "u16_to_le_bytes w = [ucast w, ucast (drop_bit 8 w)]"

definition compute_hash :: "platform \<Rightarrow> u16 list \<Rightarrow> u16 list \<Rightarrow> bytes \<Rightarrow> bytes" where
  "compute_hash P uids weights salt =
     sha256 P (concat (map u16_to_le_bytes uids) @ concat (map u16_to_le_bytes weights) @ salt)"

definition MechanismCommitment_new :: "platform \<Rightarrow> u8 \<Rightarrow> u64 \<Rightarrow> MechanismWeights \<Rightarrow> bytes \<Rightarrow> MechanismCommitment" where
  "MechanismCommitment_new P mechanism_id epoch weights salt =
     \<lparr>mc_mechanism_id = mechanism_id, mc_epoch = epoch,
      mc_commit_hash = compute_hash P (mw_uids weights) (mw_weights weights) salt, mc_salt = salt\<rparr>"

record MechanismCommitRevealManager =
  cm_epoch :: u64
  cm_commitments :: "(u8, MechanismCommitment) hashmap"
  cm_revealed :: "(u8, MechanismWeights) hashmap"

definition MechanismCommitRevealManager_new :: MechanismCommitRevealManager where
  "MechanismCommitRevealManager_new = \<lparr>cm_epoch = 0, cm_commitments = hm_new, cm_revealed = hm_new\<rparr>"

definition mech_new_epoch :: "MechanismCommitRevealManager \<Rightarrow> u64 \<Rightarrow> MechanismCommitRevealManager" where
  "mech_new_epoch m epoch = m\<lparr>cm_epoch := epoch, cm_commitments := hm_new, cm_revealed := hm_new\<rparr>"

definition mech_commit :: "MechanismCommitRevealManager \<Rightarrow> MechanismCommitment \<Rightarrow> MechanismCommitRevealManager" where
  "mech_commit m commitment =
     m\<lparr>cm_commitments := hm_insert (mc_mechanism_id commitment) commitment (cm_commitments m)\<rparr>"

definition mech_reveal ::
  "platform \<Rightarrow> MechanismCommitRevealManager \<Rightarrow> u8 \<Rightarrow> MechanismWeights \<Rightarrow> (string + unit) \<times> MechanismCommitRevealManager" where
  "mech_reveal P m mechanism_id weights =
     (case hm_get (cm_commitments m) mechanism_id of
        None \<Rightarrow> (Inl (''No commitment for mechanism '' @ decimal (unat mechanism_id)), m)
      | Some commitment \<Rightarrow>
          let expected_hash = compute_hash P (mw_uids weights) (mw_weights weights) (mc_salt commitment)
          in if expected_hash \<noteq> mc_commit_hash commitment
             then (Inl (''Commitment mismatch for mechanism '' @ decimal (unat mechanism_id) @ '': expected '' @
                     hex_encode P (mc_commit_hash commitment) @ '', got '' @ hex_encode P expected_hash), m)
             else (Inr (), m\<lparr>cm_revealed := hm_insert mechanism_id weights (cm_revealed m)\<rparr>))"

definition get_revealed_weights :: "MechanismCommitRevealManager \<Rightarrow> (u8 \<times> u16 list \<times> u16 list) list" where
  "get_revealed_weights m = map as_batch_tuple (hm_values (cm_revealed m))"

definition all_revealed :: "MechanismCommitRevealManager \<Rightarrow> bool" where
  "all_revealed m = list_all (\<lambda>k. hm_contains (cm_revealed m) k) (hm_keys (cm_commitments m))"

definition get_commitment :: "MechanismCommitRevealManager \<Rightarrow> u8 \<Rightarrow> MechanismCommitment option" where
  "get_commitment m mechanism_id = hm_get (cm_commitments m) mechanism_id"

definition get_all_commitments :: "MechanismCommitRevealManager \<Rightarrow> MechanismCommitment list" where
  "get_all_commitments m = hm_values (cm_commitments m)"

section \<open>Casts and rounding\<close>

lemma unat_of_nat_le: "n < 2 ^ LENGTH('a) \<Longrightarrow> unat (of_nat n :: 'a :: len word) = n"
  by (simp add: unat_of_nat take_bit_nat_eq_self)

lemma unsigned_real_nonneg [simp]: "0 \<le> (unsigned (w :: 'a :: len word) :: real)"
  by (metis of_nat_0_le_iff of_nat_unat)

lemma f64_as_u64_le: "0 \<le> x \<Longrightarrow> real (unat (f64_as_u64 x)) \<le> x"
proof (cases "x \<ge> 2 ^ 64")
  case True
  have "unat (- 1 :: u64) < 2 ^ LENGTH(64)" by (rule unsigned_less)
  then have "unat (- 1 :: u64) \<le> 2 ^ 64" by simp
  then have "real (unat (- 1 :: u64)) \<le> real (2 ^ 64)" by (simp only: of_nat_le_iff)
  then have "real (unat (- 1 :: u64)) \<le> 2 ^ 64" by simp
  then show ?thesis using True by (simp add: f64_as_u64_def)
next
  case False
  assume "0 \<le> x"
  then have fl: "real (nat \<lfloor>x\<rfloor>) \<le> x" by simp
  then have "real (nat \<lfloor>x\<rfloor>) < real (2 ^ 64)" using False by simp
  then have "nat \<lfloor>x\<rfloor> < 2 ^ 64" by (simp only: of_nat_less_iff)
  then have "unat (of_nat (nat \<lfloor>x\<rfloor>) :: u64) = nat \<lfloor>x\<rfloor>" by (intro unat_of_nat_le) simp
  then show ?thesis using fl \<open>0 \<le> x\<close> False by (simp add: f64_as_u64_def)
qed

lemma f64_as_u16_round_le: "0 \<le> x \<Longrightarrow> real (unat (f64_as_u16 (f64_round x))) \<le> x + 1 / 2"
proof -
  assume x: "0 \<le> x"
  define r where "r = f64_round x"
  have r: "0 \<le> r" "r \<le> x + 1 / 2" using x by (auto simp: r_def f64_round_def)
  have "real (unat (f64_as_u16 r)) \<le> r"
  proof (cases "r \<ge> 65535")
    case False
    have fl: "real (nat \<lfloor>r\<rfloor>) \<le> r" using r by simp
    then have "real (nat \<lfloor>r\<rfloor>) < real 65535" using False by simp
    then have "nat \<lfloor>r\<rfloor> < 65535" by (simp only: of_nat_less_iff)
    then have "unat (of_nat (nat \<lfloor>r\<rfloor>) :: u16) = nat \<lfloor>r\<rfloor>" by (intro unat_of_nat_le) simp
    then show ?thesis using fl r False by (simp add: f64_as_u16_def)
  qed (use r in \<open>simp add: f64_as_u16_def\<close>)
  then show ?thesis using r by (simp add: r_def)
qed

section \<open>Emissions\<close>

definition nonneg_weights :: "WeightAssignment list \<Rightarrow> bool" where
  "nonneg_weights ws = list_all (\<lambda>w. 0 \<le> wa_weight w) ws"

definition unit_weights :: "WeightAssignment list \<Rightarrow> bool" where
  "unit_weights ws = (nonneg_weights ws \<and> sum_list (map wa_weight ws) \<le> 1)"

definition emitted :: "AgentEmission list \<Rightarrow> nat" where
  "emitted es = sum_list (map (\<lambda>e. unat (ae_emission e)) es)"

lemma emitted_simps [simp]: "emitted [] = 0" "emitted (e # es) = unat (ae_emission e) + emitted es"
  "emitted (xs @ ys) = emitted xs + emitted ys"
  by (simp_all add: emitted_def)

lemma sum_update:
  "sum_list (map f (AList.update k v xs)) + (case map_of xs k of Some old \<Rightarrow> f (k, old) | None \<Rightarrow> (0 :: nat)) =
   sum_list (map f xs) + f (k, v)"
  by (induction xs) (auto split: option.splits)

lemma grouped_total:
  "sum_list (map (emitted \<circ> snd) (hm_iter (foldl group_push m es))) = sum_list (map (emitted \<circ> snd) (hm_iter m)) + emitted es"
proof (induction es arbitrary: m)
  case (Cons e es)
  have "sum_list (map (emitted \<circ> snd) (hm_iter (group_push m e))) = sum_list (map (emitted \<circ> snd) (hm_iter m)) + unat (ae_emission e)"
    using sum_update [of "emitted \<circ> snd" "ae_hotkey e"
        "(case hm_get m (ae_hotkey e) of Some es \<Rightarrow> es | None \<Rightarrow> []) @ [e]" "hm_iter m"]
    by (cases "hm_get m (ae_hotkey e)") (simp_all add: group_push_def hm_iter_insert hm_get_iter)
  then show ?case unfolding foldl.simps Cons.IH by (simp only: emitted_simps add.assoc)
qed simp

lemma merged_total:
  assumes "emitted es < 2 ^ 64"
  shows "emitted (merge_agent_emissions fresh_id es) = emitted es"
proof -
  define gs where "gs = hm_iter (foldl group_push hm_new es)"
  have total: "sum_list (map (emitted \<circ> snd) gs) = emitted es"
    using grouped_total [of hm_new es] by (simp add: gs_def)
  have "unat (ae_emission (merge_group fresh_id g)) = emitted (snd g)" if "g \<in> set gs" for g
  proof -
    have "emitted (snd g) \<le> emitted es"
      using member_le_sum_list [of "(emitted \<circ> snd) g" "map (emitted \<circ> snd) gs"] that by (auto simp: total)
    then have "unat (sum_list (map ae_emission (snd g))) = emitted (snd g)"
      using assms unat_sum_list_no_wrap [of "map ae_emission (snd g)"] by (simp add: emitted_def comp_def)
    then show ?thesis by (simp add: merge_group_def split_beta)
  qed
  then have "map (\<lambda>g. unat (ae_emission (merge_group fresh_id g))) gs = map (emitted \<circ> snd) gs" by simp
  then have "emitted (map (merge_group fresh_id) gs) = emitted es"
    unfolding emitted_def [of "map _ _"] map_map comp_def [of _ "merge_group fresh_id"] by (simp only: total)
  then show ?thesis by (simp add: merge_agent_emissions_def flip: gs_def)
qed

lemma distributed_le:
  assumes "unit_weights ws"
  shows "real (emitted (map (\<lambda>w. \<lparr>ae_hotkey = wa_hotkey w, ae_weight = wa_weight w,
           ae_emission = f64_as_u64 (real (unat budget) * wa_weight w), ae_challenge_id = c\<rparr>) ws)) \<le> real (unat budget)"
proof -
  have "real (emitted (map (\<lambda>w. \<lparr>ae_hotkey = wa_hotkey w, ae_weight = wa_weight w,
           ae_emission = f64_as_u64 (real (unat budget) * wa_weight w), ae_challenge_id = c\<rparr>) ws))
      \<le> real (unat budget) * sum_list (map wa_weight ws)"
  proof -
    have "nonneg_weights ws" using assms by (simp add: unit_weights_def)
    then show ?thesis
    proof (induction ws)
      case (Cons w ws)
      then show ?case using f64_as_u64_le [of "real (unat budget) * wa_weight w"]
        by (simp add: distrib_left nonneg_weights_def)
    qed simp
  qed
  also have "\<dots> \<le> real (unat budget) * 1"
    using assms by (intro mult_left_mono) (auto simp: unit_weights_def)
  finally show ?thesis by simp
qed

lemma challenge_emissions_le:
  assumes "0 < t" and "md_is_active c \<Longrightarrow> 0 \<le> md_emission_weight c"
    and "\<And>fw. hm_get fws (md_id c) = Some fw \<Longrightarrow> unit_weights (fw_weights fw)"
  shows "real (emitted (challenge_emissions total_emission t fws c))
       \<le> real (unat total_emission) * (if md_is_active c then md_emission_weight c / t else 0)"
proof (cases "md_is_active c")
  case True
  let ?x = "real (unat total_emission) * (md_emission_weight c / t)"
  have pos: "0 \<le> ?x" using assms True by simp
  show ?thesis
  proof (cases "hm_get fws (md_id c)")
    case (Some fw)
    then have "real (emitted (challenge_emissions total_emission t fws c)) \<le> real (unat (f64_as_u64 ?x))"
      using distributed_le [OF assms(3) [OF Some]] True by (simp add: challenge_emissions_def Let_def)
    also have "\<dots> \<le> ?x" by (rule f64_as_u64_le [OF pos])
    finally show ?thesis using True by simp
  qed (use True pos in \<open>simp add: challenge_emissions_def\<close>)
qed (simp add: challenge_emissions_def)

lemma all_challenge_emissions_le:
  assumes "0 < t" and "\<And>c. c \<in> set cs \<Longrightarrow> md_is_active c \<Longrightarrow> 0 \<le> md_emission_weight c"
    and "\<And>i fw. hm_get fws i = Some fw \<Longrightarrow> unit_weights (fw_weights fw)"
  shows "real (emitted (concat (map (challenge_emissions total_emission t fws) cs)))
       \<le> real (unat total_emission) * (sum_list (map md_emission_weight (filter md_is_active cs)) / t)"
  using assms(2)
proof (induction cs)
  case (Cons c cs)
  have "real (emitted (challenge_emissions total_emission t fws c))
       \<le> real (unat total_emission) * (if md_is_active c then md_emission_weight c / t else 0)"
    by (rule challenge_emissions_le) (use assms Cons.prems in auto)
  moreover have "real (emitted (concat (map (challenge_emissions total_emission t fws) cs)))
       \<le> real (unat total_emission) * (sum_list (map md_emission_weight (filter md_is_active cs)) / t)"
    by (rule Cons.IH) (use Cons.prems in auto)
  ultimately show ?case by (auto simp: add_divide_distrib distrib_left)
qed simp

lemma normalize_unit: "nonneg_weights ws \<Longrightarrow> unit_weights (normalize_weights ws)"
proof (cases "0 < sum_list (map wa_weight ws)")
  case True
  assume "nonneg_weights ws"
  then show ?thesis
    using True normalize_weights_sum normalize_weights_nonneg by (auto simp: unit_weights_def nonneg_weights_def)
qed (auto simp: unit_weights_def normalize_weights_def Let_def)

lemma finalize_unit:
  assumes "finalize now s smoothing k = Some (Inr fw, s')"
    and "list_all (\<lambda>r. nonneg_weights (wr_weights r)) (hm_values (cr_reveals s))"
  shows "unit_weights (fw_weights fw)"
  using assms by (auto simp: finalize_def Let_def intro: normalize_unit split: if_splits list.splits)

section \<open>Weights of a mechanism\<close>

definition weight_total :: "u16 list \<Rightarrow> nat" where
  "weight_total ws = sum_list (map unat ws)"

lemma scaled_weight_le:
  assumes "0 \<le> wa_weight a" and "0 < t" and "0 \<le> e"
  shows "real (unat (scaled_weight e t a)) \<le> wa_weight a / t * e * 65535 + 1 / 2"
  using assms f64_as_u16_round_le [of "wa_weight a / t * e * 65535"]
  by (simp add: scaled_weight_def MAX_WEIGHT_def)

lemma scale_loop_Cons:
  "scale_loop e t uid_of us ws used (a # rest) =
     (case hm_get uid_of (wa_hotkey a) of
        Some uid \<Rightarrow>
          if uid \<noteq> BURN_UID \<and> scaled_weight e t a \<noteq> 0
          then scale_loop e t uid_of (us @ [uid]) (ws @ [scaled_weight e t a]) (used + ucast (scaled_weight e t a)) rest
          else scale_loop e t uid_of us ws used rest
      | None \<Rightarrow> scale_loop e t uid_of us ws used rest)"
  by (simp add: Let_def word_gt_0 split: option.split)

declare scale_loop.simps(2) [simp del]

lemma scale_loop_step:
  assumes "scale_loop e t uid_of us ws used (a # rest) = r"
  obtains (skip) "scale_loop e t uid_of us ws used rest = r"
  | (push) uid where "hm_get uid_of (wa_hotkey a) = Some uid" "uid \<noteq> BURN_UID" "scaled_weight e t a \<noteq> 0"
      "scale_loop e t uid_of (us @ [uid]) (ws @ [scaled_weight e t a]) (used + ucast (scaled_weight e t a)) rest = r"
  using assms by (auto simp: scale_loop_Cons split: option.splits if_splits)

lemma scale_loop_shape:
  assumes "scale_loop e t uid_of us ws used as = (us', ws', used')"
    and "length us = length ws" "0 \<notin> set ws" "BURN_UID \<notin> set us"
  shows "length us' = length ws' \<and> 0 \<notin> set ws' \<and> BURN_UID \<notin> set us'"
  using assms
proof (induction as arbitrary: us ws used)
  case (Cons a as)
  have keep: "length (us @ [uid]) = length (ws @ [w])" "w \<noteq> 0 \<Longrightarrow> 0 \<notin> set (ws @ [w])"
    "uid \<noteq> BURN_UID \<Longrightarrow> BURN_UID \<notin> set (us @ [uid])" for uid w
    using Cons.prems(2-4) by auto
  from Cons.prems(1) show ?case
  proof (cases rule: scale_loop_step)
    case skip
    then show ?thesis by (rule Cons.IH) (use Cons.prems(2-4) in auto)
  next
    case (push uid)
    show ?thesis by (rule Cons.IH [OF push(4) keep(1) keep(2) keep(3)]) (use push(2,3) in auto)
  qed
qed auto

lemma scale_loop_total:
  assumes "scale_loop e t uid_of us ws used as = (us', ws', used')"
    and "used = of_nat (weight_total ws)"
  shows "used' = of_nat (weight_total ws')"
  using assms
proof (induction as arbitrary: us ws used)
  case (Cons a as)
  have "used + ucast (scaled_weight e t a) = of_nat (weight_total (ws @ [scaled_weight e t a]))"
    using Cons.prems(2) by (simp add: weight_total_def)
  with Cons.prems(1) show ?case
    by (cases rule: scale_loop_step) (use Cons.IH Cons.prems(2) in blast)+
qed auto

lemma scale_loop_bound:
  assumes "scale_loop e t uid_of us ws used as = (us', ws', used')"
    and "nonneg_weights as" "0 < t" "0 \<le> e"
  shows "real (weight_total ws') \<le> real (weight_total ws) + sum_list (map wa_weight as) / t * e * 65535 + real (length as) / 2"
  using assms(1,2)
proof (induction as arbitrary: us ws used)
  case (Cons a as)
  have nn: "0 \<le> wa_weight a" "nonneg_weights as" using Cons.prems by (auto simp: nonneg_weights_def)
  have scaled: "real (unat (scaled_weight e t a)) \<le> wa_weight a / t * e * 65535 + 1 / 2"
    by (rule scaled_weight_le [OF nn(1) assms(3,4)])
  have pos: "0 \<le> wa_weight a / t * e * 65535" using nn assms(3,4) by simp
  have split: "sum_list (map wa_weight (a # as)) / t * e * 65535 =
      wa_weight a / t * e * 65535 + sum_list (map wa_weight as) / t * e * 65535"
    by (simp add: add_divide_distrib distrib_right)
  have len: "real (length (a # as)) / 2 = real (length as) / 2 + 1 / 2" by simp
  from Cons.prems(1) show ?case
  proof (cases rule: scale_loop_step)
    case skip
    then show ?thesis unfolding split len using Cons.IH [OF skip nn(2)] pos by linarith
  next
    case (push uid)
    have "real (weight_total (ws @ [scaled_weight e t a])) = real (weight_total ws) + real (unat (scaled_weight e t a))"
      by (simp add: weight_total_def)
    then show ?thesis unfolding split len using Cons.IH [OF push(4) nn(2)] scaled by linarith
  qed
qed simp

lemma burn_completes:
  assumes "n \<le> 65535"
  shows "unat (if MAX_WEIGHT < ucast (of_nat n :: u64) then 0 else MAX_WEIGHT - ucast (of_nat n :: u64)) = 65535 - n"
proof -
  have "n < 2 ^ LENGTH(16)" "n < 2 ^ LENGTH(64)" using assms by simp_all
  then have n: "unat (of_nat n :: u16) = n" "(ucast (of_nat n :: u64) :: u16) = of_nat n"
    by (simp add: unat_of_nat_le) (metis \<open>n < 2 ^ LENGTH(64)\<close> of_nat_unat unat_of_nat_le)
  then have le: "(of_nat n :: u16) \<le> MAX_WEIGHT" using assms by (simp add: word_le_nat_alt MAX_WEIGHT_def)
  then have "unat (MAX_WEIGHT - of_nat n) = unat MAX_WEIGHT - n" by (simp only: unat_sub n(1))
  then show ?thesis using le n(2) by (simp add: MAX_WEIGHT_def not_less)
qed

lemma convert_total:
  assumes "nonneg_weights as" and "0 \<le> e" and "e * 65535 + real (length as) / 2 \<le> 65535"
    and "convert_to_bittensor_format as e uid_of = (uids, ws)"
  shows "weight_total ws = 65535 \<and> length uids = length ws \<and> 0 \<notin> set ws"
proof (cases "as = [] \<or> e \<le> 0 \<or> sum_list (map wa_weight as) \<le> 0")
  case True
  then have "uids = [BURN_UID] \<and> ws = [MAX_WEIGHT]"
    using assms(4) by (auto simp: convert_to_bittensor_format_def Let_def split: if_splits)
  then show ?thesis by (simp add: weight_total_def MAX_WEIGHT_def)
next
  case False
  let ?t = "sum_list (map wa_weight as)"
  obtain us' ws' used where loop: "scale_loop e ?t uid_of [] [] 0 as = (us', ws', used)" by (metis prod_cases3)
  have "used = of_nat (weight_total ws')" by (rule scale_loop_total [OF loop]) (simp add: weight_total_def)
  moreover have "real (weight_total ws') \<le> real (weight_total []) + ?t / ?t * e * 65535 + real (length as) / 2"
    by (rule scale_loop_bound [OF loop assms(1)]) (use False assms(2) in auto)
  then have le: "weight_total ws' \<le> 65535" using False assms(3) by (simp add: weight_total_def)
  ultimately have burn: "unat (if MAX_WEIGHT < ucast used then 0 else MAX_WEIGHT - ucast used) = 65535 - weight_total ws'"
    using burn_completes [OF le] by (simp only:)
  have shape: "length us' = length ws' \<and> 0 \<notin> set ws' \<and> BURN_UID \<notin> set us'"
    by (rule scale_loop_shape [OF loop]) auto
  define b where "b = (if MAX_WEIGHT < ucast used then 0 else MAX_WEIGHT - ucast used :: u16)"
  have res: "(uids, ws) = (if b > 0 then (BURN_UID # us', b # ws') else (us', ws'))"
    using assms(4) False by (auto simp: convert_to_bittensor_format_def loop Let_def b_def)
  show ?thesis
    using res shape burn le by (cases "b = 0") (auto simp: weight_total_def word_gt_0 simp flip: b_def)
qed

section \<open>Commit and reveal per mechanism\<close>

datatype mech_event = MechNewEpoch u64 | MechCommit MechanismCommitment | MechReveal u8 MechanismWeights

fun mech_step :: "platform \<Rightarrow> MechanismCommitRevealManager \<Rightarrow> mech_event \<Rightarrow> MechanismCommitRevealManager" where
  "mech_step P m (MechNewEpoch epoch) = mech_new_epoch m epoch"
| "mech_step P m (MechCommit c) = mech_commit m c"
| "mech_step P m (MechReveal i w) = snd (mech_reveal P m i w)"

text \<open>The commitments since the last change of epoch, as a history beside the manager.\<close>

fun mech_history :: "MechanismCommitment list \<Rightarrow> mech_event \<Rightarrow> MechanismCommitment list" where
  "mech_history cs (MechNewEpoch epoch) = []"
| "mech_history cs (MechCommit c) = cs @ [c]"
| "mech_history cs (MechReveal i w) = cs"

definition mech_run_step ::
  "platform \<Rightarrow> MechanismCommitRevealManager \<times> MechanismCommitment list \<Rightarrow> mech_event \<Rightarrow> MechanismCommitRevealManager \<times> MechanismCommitment list" where
  "mech_run_step P mh e = (mech_step P (fst mh) e, mech_history (snd mh) e)"

definition opened_by :: "platform \<Rightarrow> MechanismCommitment \<Rightarrow> MechanismWeights \<Rightarrow> bool" where
  "opened_by P c w = (compute_hash P (mw_uids w) (mw_weights w) (mc_salt c) = mc_commit_hash c)"

definition mech_inv :: "platform \<Rightarrow> MechanismCommitRevealManager \<times> MechanismCommitment list \<Rightarrow> bool" where
  "mech_inv P mh =
     ((\<forall>i c. hm_get (cm_commitments (fst mh)) i = Some c \<longrightarrow> c \<in> set (snd mh) \<and> mc_mechanism_id c = i) \<and>
      (\<forall>i w. hm_get (cm_revealed (fst mh)) i = Some w \<longrightarrow>
         (\<exists>c \<in> set (snd mh). mc_mechanism_id c = i \<and> opened_by P c w)))"

lemma mech_inv_step: "mech_inv P mh \<Longrightarrow> mech_inv P (mech_run_step P mh e)"
proof (cases e)
  case (MechReveal i w)
  assume inv: "mech_inv P mh"
  show ?thesis
  proof (cases "\<exists>c. hm_get (cm_commitments (fst mh)) i = Some c \<and> opened_by P c w")
    case True
    then obtain c where c: "hm_get (cm_commitments (fst mh)) i = Some c" "opened_by P c w" by blast
    then have "mech_step P (fst mh) e = (fst mh)\<lparr>cm_revealed := hm_insert i w (cm_revealed (fst mh))\<rparr>"
      by (simp add: MechReveal mech_reveal_def Let_def opened_by_def)
    then show ?thesis using inv c
      by (auto simp: mech_inv_def mech_run_step_def MechReveal lookup_update split: if_splits)
  next
    case False
    then have "mech_step P (fst mh) e = fst mh"
      by (auto simp: MechReveal mech_reveal_def Let_def opened_by_def split: option.split)
    then show ?thesis using inv by (simp add: mech_inv_def mech_run_step_def MechReveal)
  qed
qed (auto simp: mech_inv_def mech_run_step_def mech_new_epoch_def mech_commit_def lookup_update split: if_splits)

interpretation mech: machine "mech_run_step P" "mech_inv P" for P
  by unfold_locales (rule mech_inv_step)

lemma mech_run_fst: "fst (foldl (mech_run_step P) mh es) = foldl (mech_step P) (fst mh) es"
  by (induction es arbitrary: mh) (auto simp: mech_run_step_def)

lemma mech_run_snd: "snd (foldl (mech_run_step P) mh es) = foldl mech_history (snd mh) es"
  by (induction es arbitrary: mh) (auto simp: mech_run_step_def)

section \<open>Samples\<close>

definition sample_challenge :: ChallengeMetadata where
  "sample_challenge =
     \<lparr>md_id = 1, md_name = ''c'', md_description = '''', md_version = ''1.0'', md_owner = Hotkey [1], md_emission_weight = 1,
      md_config = SdkChallengeConfig_default, md_created_at = 0, md_updated_at = 0, md_is_active = True\<rparr>"

definition sample_half :: "string \<Rightarrow> WeightAssignment" where
  "sample_half h = \<lparr>wa_hotkey = h, wa_weight = 1 / 2\<rparr>"

definition sample_uids :: HotkeyUidMap where
  "sample_uids = hm_insert ''b'' 7 (hm_insert ''a'' 5 hm_new)"

definition sample_finalized :: "FinalizedWeights" where
  "sample_finalized =
     \<lparr>fw_challenge_id = 1, fw_epoch = 4, fw_weights = normalize_weights (sample_weights ''a''),
      fw_participating_validators = [Hotkey [1]], fw_excluded_validators = [], fw_smoothing_applied = 0, fw_finalized_at = 7\<rparr>"

definition sample_mech_events :: "mech_event list" where
  "sample_mech_events =
     (let w = MechanismWeights_new 3 1 [] 0
      in [MechNewEpoch 4, MechCommit (MechanismCommitment_new sample_platform 3 4 w [9]), MechReveal 3 w])"

section \<open>Properties\<close>



text \<open>
  C29. A mechanism's weights are complete. For non-negative scores, when the emission weight, clamped to the unit interval,
  leaves room for the rounding of every score (half a unit each), the 16-bit weights built for a mechanism, burn entry
  included, add up to exactly 65535; there is one UID per weight and no weight is zero.
\<close>

theorem mechanism_weights_total:
  assumes "nonneg_weights assignments"
    and "max 0 (min 1 emission_weight) * 65535 + real (length assignments) / 2 \<le> 65535"
    and "w = with_hotkey_mapping mechanism_id challenge_id assignments emission_weight hotkey_to_uid"
  shows "weight_total (mw_weights w) = 65535 \<and> length (mw_uids w) = length (mw_weights w) \<and> 0 \<notin> set (mw_weights w)"
  using convert_total [OF assms(1) _ assms(2)] by (simp add: assms(3) with_hotkey_mapping_def Let_def split: prod.split)

theorem mechanism_weights_total_witness:
  "weight_total (mw_weights (with_hotkey_mapping 3 1 [sample_half ''a'', sample_half ''b''] (1 / 2) sample_uids)) = 65535"
  using mechanism_weights_total [of "[sample_half ''a'', sample_half ''b'']" "1 / 2" _ 3 1 sample_uids]
  by (simp add: nonneg_weights_def sample_half_def)

text \<open>
  The room for rounding is needed: with the whole emission and two equal scores, both weights round up, their sum 65536
  wraps to 0 in the cast to 16 bits, and the burn address receives the full 65535 beside them.
\<close>

lemma burn_weight_wraps:
  "convert_to_bittensor_format [sample_half ''a'', sample_half ''b''] 1 sample_uids = ([0, 5, 7], [65535, 32768, 32768])"
proof -
  have "scaled_weight 1 1 (sample_half h) = 32768" for h
    by (simp add: scaled_weight_def sample_half_def f64_round_def f64_as_u16_def MAX_WEIGHT_def)
  then have "scale_loop 1 1 sample_uids [] [] 0 [sample_half ''a'', sample_half ''b''] = ([5, 7], [32768, 32768], 65536)"
    by (simp add: scale_loop_Cons sample_uids_def sample_half_def lookup_update BURN_UID_def)
  then show ?thesis
    by (simp add: convert_to_bittensor_format_def sample_half_def MAX_WEIGHT_def BURN_UID_def Let_def word_gt_0)
qed

text \<open>
  Revealed mechanism weights were committed to. After any sequence of epoch changes, commitments and reveals, the
  weights a mechanism has revealed hash, with its salt, to a commitment made for this mechanism since the last change of
  epoch.
\<close>

theorem revealed_was_committed:
  assumes "hm_get (cm_revealed (foldl (mech_step P) MechanismCommitRevealManager_new es)) i = Some w"
  shows "\<exists>c \<in> set (foldl mech_history [] es). mc_mechanism_id c = i \<and> opened_by P c w"
proof -
  have "mech_inv P (MechanismCommitRevealManager_new, [])" by (simp add: mech_inv_def MechanismCommitRevealManager_new_def)
  from mech.run_inv [OF this, of es] assms show ?thesis by (auto simp: mech_inv_def mech_run_fst mech_run_snd)
qed

theorem revealed_was_committed_witness:
  "\<exists>c \<in> set (foldl mech_history [] sample_mech_events).
     mc_mechanism_id c = 3 \<and> opened_by sample_platform c (MechanismWeights_new 3 1 [] 0)"
  by (rule revealed_was_committed [of sample_platform sample_mech_events 3 "MechanismWeights_new 3 1 [] 0"])
    (simp add: sample_mech_events_def Let_def mech_new_epoch_def mech_commit_def mech_reveal_def MechanismCommitment_new_def lookup_update)

text \<open>
  Committing again after a reveal replaces the commitment and keeps the old weights: they are still submitted, and the
  manager reports everything as revealed, although the new commitment has not been opened.
\<close>

lemma recommit_keeps_old_reveal:
  assumes "hm_get (cm_revealed m) i = Some w" and "mc_mechanism_id c = i" and "all_revealed m"
  shows "hm_get (cm_revealed (mech_commit m c)) i = Some w \<and> all_revealed (mech_commit m c)"
  using assms by (auto simp: mech_commit_def all_revealed_def list_all_iff hm_contains_def lookup_update
      simp flip: hm_contains_iter split: if_splits)

end
