(* ===== verification/Text_Strings.thy ===== *)
theory Text_Strings
  imports Bytes
begin

text \<open>
  The parts of \<^verbatim>\<open>std::string\<close> and \<^verbatim>\<open>std::path\<close> that the container runtime and the RPC server use: prefixes and
  substrings, splitting, lower case, decimal numbers with a sign, the components of a Unix path and the
  path buffer. A \<^typ>\<open>string\<close> stands for the UTF-8 bytes of a Rust string.
\<close>

section \<open>Substrings and splitting\<close>

definition str_starts_with :: "string \<Rightarrow> string \<Rightarrow> bool" where
  "str_starts_with s p \<longleftrightarrow> take (length p) s = p"

fun str_contains :: "string \<Rightarrow> string \<Rightarrow> bool" where
  "str_contains [] p = (p = [])"
| "str_contains (c # s) p = (str_starts_with (c # s) p \<or> str_contains s p)"

fun str_split :: "char \<Rightarrow> string \<Rightarrow> string list" where
  "str_split d [] = [[]]"
| "str_split d (c # s) =
     (if c = d then [] # str_split d s
      else case str_split d s of w # ws \<Rightarrow> (c # w) # ws | [] \<Rightarrow> [[c]])"

definition str_replace :: "char \<Rightarrow> char \<Rightarrow> string \<Rightarrow> string" where
  "str_replace a b s = map (\<lambda>c. if c = a then b else c) s"

text \<open>
  What the standard library does with text outside ASCII, by the Unicode tables, and how it prints floats.
\<close>

record text_env =
  unicode_lower :: "string \<Rightarrow> string"
  unicode_trim :: "string \<Rightarrow> string"
  show_f64 :: "f64 \<Rightarrow> string"

text \<open>
  \<open>to_lowercase\<close> follows the Unicode tables; on ASCII strings it only moves the letters A to Z. The tables for
  other strings are the argument \<open>lower\<close>.
\<close>

definition ascii_lower :: "char \<Rightarrow> char" where
  "ascii_lower c = (let n = (of_char c :: nat) in if 65 \<le> n \<and> n \<le> 90 then char_of (n + 32) else c)"

definition is_ascii :: "string \<Rightarrow> bool" where
  "is_ascii s = list_all (\<lambda>c. (of_char c :: nat) < 128) s"

definition to_lowercase :: "(string \<Rightarrow> string) \<Rightarrow> string \<Rightarrow> string" where
  "to_lowercase lower s = (if is_ascii s then map ascii_lower s else lower s)"

definition ascii_space :: "char \<Rightarrow> bool" where
  "ascii_space c \<longleftrightarrow> (let n = (of_char c :: nat) in n = 32 \<or> (9 \<le> n \<and> n \<le> 13))"

definition str_trim :: "text_env \<Rightarrow> string \<Rightarrow> string" where
  "str_trim T s =
     (if is_ascii s then rev (dropWhile ascii_space (rev (dropWhile ascii_space s))) else unicode_trim T s)"

definition decimal_int :: "int \<Rightarrow> string" where
  "decimal_int i = (if i < 0 then ''-'' @ decimal (nat (- i)) else decimal (nat i))"

text \<open>Parsing an unsigned number: an optional plus sign, then digits only, within the bound.\<close>

definition is_digit :: "char \<Rightarrow> bool" where
  "is_digit c \<longleftrightarrow> 48 \<le> (of_char c :: nat) \<and> (of_char c :: nat) \<le> 57"

definition digits_value :: "string \<Rightarrow> nat" where
  "digits_value s = foldl (\<lambda>n c. 10 * n + (of_char c - 48)) 0 s"

definition parse_nat :: "nat \<Rightarrow> string \<Rightarrow> nat option" where
  "parse_nat bound s =
     (let d = (case s of c # r \<Rightarrow> if c = CHR ''+'' then r else s | [] \<Rightarrow> [])
      in if d \<noteq> [] \<and> list_all is_digit d \<and> digits_value d < bound then Some (digits_value d) else None)"

definition parse_u16 :: "string \<Rightarrow> u16 option" where
  "parse_u16 s = map_option of_nat (parse_nat (2 ^ 16) s)"

text \<open>
  \<open>String::from_utf8_lossy\<close>: well-formed characters are kept and each maximal part of an ill-formed one becomes the
  replacement character. \<open>utf8_chunk\<close> gives, for the first byte and the rest, how many bytes the next
  character or ill-formed part has, and whether it is well formed.
\<close>

definition second_byte_ok :: "u8 \<Rightarrow> u8 \<Rightarrow> bool" where
  "second_byte_ok a b \<longleftrightarrow>
     (if a = 0xE0 then 0xA0 \<le> b \<and> b \<le> 0xBF else if a = 0xED then 0x80 \<le> b \<and> b \<le> 0x9F
      else if a = 0xF0 then 0x90 \<le> b \<and> b \<le> 0xBF else if a = 0xF4 then 0x80 \<le> b \<and> b \<le> 0x8F
      else cont_byte b)"

definition utf8_width :: "u8 \<Rightarrow> nat" where
  "utf8_width a =
     (if a < 0x80 then 1 else if 0xC2 \<le> a \<and> a \<le> 0xDF then 2 else if 0xE0 \<le> a \<and> a \<le> 0xEF then 3
      else if 0xF0 \<le> a \<and> a \<le> 0xF4 then 4 else 0)"

definition utf8_chunk :: "u8 \<Rightarrow> bytes \<Rightarrow> nat \<times> bool" where
  "utf8_chunk a rest =
     (let w = utf8_width a
      in if w = 0 then (1, False)
         else if w = 1 then (1, True)
         else case rest of
                [] \<Rightarrow> (1, False)
              | b # r \<Rightarrow>
                  if \<not> second_byte_ok a b then (1, False)
                  else let n = length (takeWhile cont_byte (take (w - 2) r)) in (2 + n, n = w - 2))"

function from_utf8_lossy :: "bytes \<Rightarrow> string" where
  "from_utf8_lossy [] = []"
| "from_utf8_lossy (a # rest) =
     (let (n, ok) = utf8_chunk a rest
      in (if ok then of_bytes (take n (a # rest)) else of_bytes [0xEF, 0xBF, 0xBD]) @ from_utf8_lossy (drop (n - 1) rest))"
  by pat_completeness auto

termination from_utf8_lossy
  by (relation "measure length") auto

text \<open>A string between single quotes, as in error messages.\<close>

definition quote :: "string \<Rightarrow> string" where
  "quote s = [char_of (39 :: nat)] @ s @ [char_of (39 :: nat)]"

section \<open>Paths\<close>

datatype path_component = RootDir | CurDir | ParentDir | Normal string

definition path_names :: "string \<Rightarrow> string list" where
  "path_names s = filter (\<lambda>w. w \<noteq> '''' \<and> w \<noteq> ''.'') (str_split CHR ''/'' s)"

definition name_component :: "string \<Rightarrow> path_component" where
  "name_component w = (if w = ''..'' then ParentDir else Normal w)"

definition path_components :: "string \<Rightarrow> path_component list" where
  "path_components s =
     (if str_starts_with s ''/'' then [RootDir] else if hd (str_split CHR ''/'' s) = ''.'' then [CurDir] else []) @
     map name_component (path_names s)"

definition path_push :: "string \<Rightarrow> string \<Rightarrow> string" where
  "path_push buf s =
     (if str_starts_with s ''/'' then s
      else if buf = '''' \<or> last buf = CHR ''/'' then buf @ s
      else buf @ ''/'' @ s)"

text \<open>\<open>PathBuf::pop\<close> on a buffer built by pushing components.\<close>

definition path_pop :: "string \<Rightarrow> string" where
  "path_pop buf =
     (if buf = ''/'' then buf
      else let parent = rev (dropWhile (\<lambda>c. c \<noteq> CHR ''/'') (rev buf))
           in if parent = '''' \<or> parent = ''/'' then parent else butlast parent)"

text \<open>
  \<open>Path::parent\<close> and \<open>Path::file_name\<close>: the text before the last component with trailing slashes and dots cut,
  and the last component unless it is a parent directory.
\<close>

definition trim_segments :: "string list \<Rightarrow> string list" where
  "trim_segments ws = rev (dropWhile (\<lambda>w. w = '''' \<or> w = ''.'') (rev ws))"

fun join_with :: "char \<Rightarrow> string list \<Rightarrow> string" where
  "join_with d [] = ''''"
| "join_with d [w] = w"
| "join_with d (w # ws) = w @ d # join_with d ws"

definition path_lead :: "string \<Rightarrow> string list" where
  "path_lead s = (if hd (str_split CHR ''/'' s) = ''.'' then [''.''] else [])"

definition path_body :: "string \<Rightarrow> string list" where
  "path_body s =
     trim_segments (if str_starts_with s ''/'' \<or> path_lead s \<noteq> [] then tl (str_split CHR ''/'' s) else str_split CHR ''/'' s)"

definition path_parent :: "string \<Rightarrow> string option" where
  "path_parent s =
     (if path_body s \<noteq> [] then
        let rest = trim_segments (butlast (path_body s))
        in Some (if str_starts_with s ''/'' then ''/'' @ join_with CHR ''/'' rest else join_with CHR ''/'' (path_lead s @ rest))
      else if path_lead s \<noteq> [] then Some '''' else None)"

definition path_file_name :: "string \<Rightarrow> string option" where
  "path_file_name s = (if path_body s \<noteq> [] \<and> last (path_body s) \<noteq> ''..'' then Some (last (path_body s)) else None)"

section \<open>Facts\<close>

lemma str_starts_with_iff: "str_starts_with s p \<longleftrightarrow> (\<exists>t. s = p @ t)"
  unfolding str_starts_with_def by (metis append_take_drop_id append_eq_conv_conj)

lemma str_contains_iff: "str_contains s p \<longleftrightarrow> (\<exists>a b. s = a @ p @ b)"
proof (induction s)
  case (Cons c s)
  have "(\<exists>a b. c # s = a @ p @ b) \<longleftrightarrow> (\<exists>b. c # s = p @ b) \<or> (\<exists>a b. s = a @ p @ b)"
    by (metis append_Cons append_Nil append_eq_Cons_conv)
  then show ?case by (simp add: Cons.IH str_starts_with_iff)
qed simp

lemma str_split_nonempty [simp]: "str_split d s \<noteq> []"
  by (induction s) (auto split: list.splits)

lemma str_split_no_sep: "w \<in> set (str_split d s) \<Longrightarrow> d \<notin> set w"
  by (induction s arbitrary: w) (auto split: list.splits if_splits)

lemma str_split_contains:
  "w \<in> set (str_split d s) \<Longrightarrow> \<exists>a b. s = a @ w @ b"
proof (induction s arbitrary: w)
  case (Cons c s)
  obtain v vs where v: "str_split d s = v # vs" by (metis list.exhaust str_split_nonempty)
  have first: "\<exists>b. s = v @ b"
    using v
  proof (induction s arbitrary: v vs)
    case (Cons x s)
    then show ?case by (cases "str_split d s") (auto split: if_splits)
  qed auto
  show ?case
  proof (cases "w \<in> set (str_split d s)")
    case True
    then obtain a b where "s = a @ w @ b" using Cons.IH by blast
    then have "c # s = (c # a) @ w @ b" by simp
    then show ?thesis by blast
  next
    case False
    then have "w = [] \<or> w = c # v" using Cons.prems v by (auto split: if_splits)
    then show ?thesis using first by (metis append_Cons append_Nil)
  qed
qed simp

lemma path_names_proper: "w \<in> set (path_names s) \<Longrightarrow> w \<noteq> [] \<and> w \<noteq> ''.'' \<and> CHR ''/'' \<notin> set w"
  using str_split_no_sep by (fastforce simp: path_names_def)

lemma path_names_contains: "w \<in> set (path_names s) \<Longrightarrow> str_contains s w"
  using str_split_contains by (fastforce simp: path_names_def str_contains_iff)

text \<open>The absolute path with the given names, and how prefixes of its text are prefixes of the names.\<close>

definition abs_path :: "string list \<Rightarrow> string" where
  "abs_path names = concat (map (\<lambda>w. CHR ''/'' # w) names)"

definition proper_name :: "string \<Rightarrow> bool" where
  "proper_name w \<longleftrightarrow> w \<noteq> [] \<and> CHR ''/'' \<notin> set w"

lemma abs_path_simps [simp]: "abs_path [] = []" "abs_path (w # ws) = CHR ''/'' # w @ abs_path ws"
  "abs_path (xs @ ys) = abs_path xs @ abs_path ys"
  by (simp_all add: abs_path_def)

lemma abs_path_starts: "abs_path ws = [] \<or> hd (abs_path ws) = CHR ''/''"
  by (cases ws) auto

lemma split_at_slash:
  assumes "CHR ''/'' \<notin> set v" "CHR ''/'' \<notin> set w" "v @ CHR ''/'' # s = w @ t" "t = [] \<or> hd t = CHR ''/''"
  shows "v = w \<and> t = CHR ''/'' # s"
  using assms
proof (induction v arbitrary: w)
  case Nil
  then show ?case by (cases w) auto
next
  case (Cons a v)
  then show ?case by (cases w) auto
qed

lemma abs_path_prefix:
  assumes "\<And>w. w \<in> set names \<Longrightarrow> proper_name w" "\<And>w. w \<in> set dirs \<Longrightarrow> proper_name w"
    and "abs_path names = abs_path dirs @ CHR ''/'' # t"
  shows "\<exists>rest. rest \<noteq> [] \<and> names = dirs @ rest"
  using assms
proof (induction dirs arbitrary: names)
  case Nil
  then show ?case by auto
next
  case (Cons d dirs)
  then obtain n ns where names: "names = n # ns" by (cases names) auto
  let ?s = "abs_path dirs @ CHR ''/'' # t"
  have eq: "d @ ?s = n @ abs_path ns" using Cons.prems(3) names by simp
  obtain s' where s': "?s = CHR ''/'' # s'" by (cases dirs) auto
  have "d = n \<and> abs_path ns = CHR ''/'' # s'"
    by (rule split_at_slash)
      (use Cons.prems(1,2) names eq s' abs_path_starts [of ns] in \<open>auto simp: proper_name_def\<close>)
  then have "d = n" "abs_path ns = ?s" using s' by simp_all
  with Cons.IH [of ns] Cons.prems(1,2) names show ?case by auto
qed

lemma path_push_abs:
  assumes "proper_name w" and "list_all proper_name ns"
  shows "path_push (if ns = [] then ''/'' else abs_path ns) w = abs_path (ns @ [w])"
proof -
  have rel: "\<not> str_starts_with w ''/''" using assms by (cases w) (auto simp: proper_name_def str_starts_with_def)
  show ?thesis
  proof (cases ns rule: rev_cases)
    case Nil
    then show ?thesis using rel by (simp add: path_push_def)
  next
    case (snoc ys y)
    then have "y \<noteq> [] \<and> last y \<noteq> CHR ''/''" using assms(2) last_in_set by (fastforce simp: proper_name_def)
    then show ?thesis using rel snoc by (simp add: path_push_def)
  qed
qed

end
