(* ===== verification/Container_Policy.thy ===== *)
theory Container_Policy
  imports Text_Strings
begin

text \<open>
  The security policy of the container runtime (\<^verbatim>\<open>secure-container-runtime/src/policy.rs\<close>) and the types of
  containers it judges (\<^verbatim>\<open>secure-container-runtime/src/types.rs\<close>). What the standard library does with text
  that has no effect on a decision, the lower case of non-ASCII strings and the printing of floats, is in the
  record \<open>text_env\<close>.
\<close>

section \<open>Containers\<close>

record ResourceLimits =
  rl_memory_bytes :: i64
  rl_cpu_cores :: f64
  rl_pids_limit :: i64
  rl_disk_quota_bytes :: u64

definition ResourceLimits_default :: ResourceLimits where
  "ResourceLimits_default =
     \<lparr>rl_memory_bytes = 2 * 1024 * 1024 * 1024, rl_cpu_cores = 1, rl_pids_limit = 256, rl_disk_quota_bytes = 0\<rparr>"

datatype NetworkMode = NetNone | NetBridge | NetIsolated

record NetworkConfig =
  nc_mode :: NetworkMode
  nc_ports :: "(u16, u16) hashmap"
  nc_allow_internet :: bool

definition NetworkConfig_default :: NetworkConfig where
  "NetworkConfig_default = \<lparr>nc_mode = NetIsolated, nc_ports = hm_new, nc_allow_internet = False\<rparr>"

record MountConfig =
  mt_source :: string
  mt_target :: string
  mt_read_only :: bool

record ContainerConfig =
  ct_image :: string
  ct_challenge_id :: string
  ct_owner_id :: string
  ct_name :: "string option"
  ct_cmd :: "string list option"
  ct_env :: "(string, string) hashmap"
  ct_working_dir :: "string option"
  ct_resources :: ResourceLimits
  ct_network :: NetworkConfig
  ct_mounts :: "MountConfig list"
  ct_labels :: "(string, string) hashmap"
  ct_user :: "string option"

definition ContainerConfig_default :: ContainerConfig where
  "ContainerConfig_default =
     \<lparr>ct_image = '''', ct_challenge_id = '''', ct_owner_id = '''', ct_name = None, ct_cmd = None, ct_env = hm_new,
      ct_working_dir = None, ct_resources = ResourceLimits_default, ct_network = NetworkConfig_default, ct_mounts = [],
      ct_labels = hm_new, ct_user = None\<rparr>"

datatype ContainerError =
    ImageNotWhitelisted string
  | PolicyViolation string
  | ContainerNotFound string
  | ResourceLimitExceeded string
  | PermissionDenied string
  | InvalidConfig string
  | DockerError string
  | InternalError string
  | Unauthorized string
  | InvalidRequest string

fun ContainerError_to_string :: "ContainerError \<Rightarrow> string" where
  "ContainerError_to_string (ImageNotWhitelisted s) = ''Image not whitelisted: '' @ s"
| "ContainerError_to_string (PolicyViolation s) = ''Policy violation: '' @ s"
| "ContainerError_to_string (ContainerNotFound s) = ''Container not found: '' @ s"
| "ContainerError_to_string (ResourceLimitExceeded s) = ''Resource limit exceeded: '' @ s"
| "ContainerError_to_string (PermissionDenied s) = ''Permission denied: '' @ s"
| "ContainerError_to_string (InvalidConfig s) = ''Invalid configuration: '' @ s"
| "ContainerError_to_string (DockerError s) = ''Docker error: '' @ s"
| "ContainerError_to_string (InternalError s) = ''Internal error: '' @ s"
| "ContainerError_to_string (Unauthorized s) = ''Unauthorized: '' @ s"
| "ContainerError_to_string (InvalidRequest s) = ''Invalid request: '' @ s"

section \<open>The policy\<close>

text \<open>A \<open>HashSet\<close> of paths is a list: only membership is ever asked of it.\<close>

record SecurityPolicy =
  sp_allowed_image_prefixes :: "string list"
  sp_max_memory_bytes :: i64
  sp_max_cpu_cores :: f64
  sp_max_pids :: i64
  sp_max_containers_per_challenge :: usize
  sp_max_containers_per_owner :: usize
  sp_allowed_mount_prefixes :: "string list"
  sp_forbidden_mount_paths :: "string list"
  sp_allow_privileged :: bool
  sp_allow_host_network :: bool
  sp_allow_docker_socket :: bool

definition SecurityPolicy_default :: SecurityPolicy where
  "SecurityPolicy_default =
     \<lparr>sp_allowed_image_prefixes = [''ghcr.io/platformnetwork/'', ''platform-''],
      sp_max_memory_bytes = 8 * 1024 * 1024 * 1024, sp_max_cpu_cores = 4, sp_max_pids = 512,
      sp_max_containers_per_challenge = 100, sp_max_containers_per_owner = 200,
      sp_allowed_mount_prefixes = [''/tmp/'', ''/var/lib/platform/'', ''/var/lib/docker/volumes/''],
      sp_forbidden_mount_paths =
        [''/var/run/docker.sock'', ''/run/docker.sock'', ''/etc/passwd'', ''/etc/shadow'', ''/etc/sudoers'', ''/root'',
         ''/home'', ''/proc'', ''/sys'', ''/dev''],
      sp_allow_privileged = False, sp_allow_host_network = False, sp_allow_docker_socket = False\<rparr>"

definition strict_policy :: SecurityPolicy where
  "strict_policy = SecurityPolicy_default\<lparr>sp_allowed_image_prefixes := [''ghcr.io/platformnetwork/'']\<rparr>"

definition permissive_policy :: SecurityPolicy where
  "permissive_policy = SecurityPolicy_default\<lparr>sp_allowed_image_prefixes := []\<rparr>"

definition development_policy :: SecurityPolicy where
  "development_policy =
     SecurityPolicy_default\<lparr>sp_allowed_mount_prefixes :=
       sp_allowed_mount_prefixes SecurityPolicy_default @ [''/workspace/'', ''/var/lib/docker/volumes/'']\<rparr>"

definition allow_all_images :: "SecurityPolicy \<Rightarrow> SecurityPolicy" where
  "allow_all_images p = p\<lparr>sp_allowed_image_prefixes := []\<rparr>"

definition with_image_prefix :: "SecurityPolicy \<Rightarrow> string \<Rightarrow> SecurityPolicy" where
  "with_image_prefix p image_prefix = p\<lparr>sp_allowed_image_prefixes := sp_allowed_image_prefixes p @ [image_prefix]\<rparr>"

definition validate_image :: "text_env \<Rightarrow> SecurityPolicy \<Rightarrow> string \<Rightarrow> ContainerError + unit" where
  "validate_image T p img =
     (if sp_allowed_image_prefixes p = [] then Inr ()
      else
        let image_lower = to_lowercase (unicode_lower T) img
        in if list_ex (\<lambda>pre. str_starts_with image_lower (to_lowercase (unicode_lower T) pre)) (sp_allowed_image_prefixes p)
           then Inr ()
           else Inl (ImageNotWhitelisted img))"

definition validate_resources :: "text_env \<Rightarrow> SecurityPolicy \<Rightarrow> ResourceLimits \<Rightarrow> ContainerError + unit" where
  "validate_resources T p r =
     (if rl_memory_bytes r > sp_max_memory_bytes p
      then Inl (ResourceLimitExceeded (''Memory limit '' @ decimal_int (rl_memory_bytes r) @ '' exceeds maximum '' @
                  decimal_int (sp_max_memory_bytes p)))
      else if rl_cpu_cores r > sp_max_cpu_cores p
      then Inl (ResourceLimitExceeded (''CPU limit '' @ show_f64 T (rl_cpu_cores r) @ '' exceeds maximum '' @
                  show_f64 T (sp_max_cpu_cores p)))
      else if rl_pids_limit r > sp_max_pids p
      then Inl (ResourceLimitExceeded (''PID limit '' @ decimal_int (rl_pids_limit r) @ '' exceeds maximum '' @
                  decimal_int (sp_max_pids p)))
      else Inr ())"

definition push_component :: "string \<Rightarrow> path_component \<Rightarrow> string" where
  "push_component acc c =
     (case c of
        ParentDir \<Rightarrow> path_pop acc
      | Normal s \<Rightarrow> path_push acc s
      | RootDir \<Rightarrow> path_push acc ''/''
      | CurDir \<Rightarrow> acc)"

definition normalize_path :: "string \<Rightarrow> string" where
  "normalize_path source = foldl push_component '''' (path_components source)"

definition validate_mount :: "SecurityPolicy \<Rightarrow> MountConfig \<Rightarrow> ContainerError + unit" where
  "validate_mount p mount =
     (if str_contains (mt_source mount) ''..''
      then Inl (PolicyViolation (''Path traversal not allowed: '' @ mt_source mount))
      else
        let normalized = normalize_path (mt_source mount)
        in if list_ex (\<lambda>forbidden. str_starts_with normalized forbidden \<or> normalized = forbidden) (sp_forbidden_mount_paths p)
           then Inl (PolicyViolation (''Mount path '' @ quote (mt_source mount) @ '' is forbidden''))
           else if (str_contains (mt_source mount) ''docker.sock'' \<or> str_contains normalized ''docker.sock'') \<and> \<not> sp_allow_docker_socket p
           then Inl (PolicyViolation ''Docker socket mounting is not allowed'')
           else if \<not> list_ex (str_starts_with normalized) (sp_allowed_mount_prefixes p)
           then Inl (PolicyViolation (''Mount source '' @ quote (mt_source mount) @ '' is not in allowed paths''))
           else Inr ())"

fun validate_mounts :: "SecurityPolicy \<Rightarrow> MountConfig list \<Rightarrow> ContainerError + unit" where
  "validate_mounts p [] = Inr ()"
| "validate_mounts p (mount # mounts) =
     (case validate_mount p mount of Inl e \<Rightarrow> Inl e | Inr _ \<Rightarrow> validate_mounts p mounts)"

definition validate_network :: "SecurityPolicy \<Rightarrow> NetworkConfig \<Rightarrow> ContainerError + unit" where
  "validate_network p network = Inr ()"

definition validate :: "text_env \<Rightarrow> SecurityPolicy \<Rightarrow> ContainerConfig \<Rightarrow> ContainerError + unit" where
  "validate T p config =
     (case validate_image T p (ct_image config) of
        Inl e \<Rightarrow> Inl e
      | Inr _ \<Rightarrow>
          case validate_resources T p (ct_resources config) of
            Inl e \<Rightarrow> Inl e
          | Inr _ \<Rightarrow>
              case validate_mounts p (ct_mounts config) of
                Inl e \<Rightarrow> Inl e
              | Inr _ \<Rightarrow>
                  case validate_network p (ct_network config) of
                    Inl e \<Rightarrow> Inl e
                  | Inr _ \<Rightarrow>
                      if ct_challenge_id config = '''' then Inl (InvalidConfig ''challenge_id is required'')
                      else if ct_owner_id config = '''' then Inl (InvalidConfig ''owner_id is required'')
                      else Inr ())"

definition check_container_limit :: "SecurityPolicy \<Rightarrow> string \<Rightarrow> usize \<Rightarrow> ContainerError + unit" where
  "check_container_limit p challenge_id current_count =
     (if current_count \<ge> sp_max_containers_per_challenge p
      then Inl (ResourceLimitExceeded (''Challenge '' @ quote challenge_id @ '' has reached maximum container limit ('' @
                  decimal (sp_max_containers_per_challenge p) @ '')''))
      else Inr ())"

definition check_owner_limit :: "SecurityPolicy \<Rightarrow> string \<Rightarrow> usize \<Rightarrow> ContainerError + unit" where
  "check_owner_limit p owner_id current_count =
     (if current_count \<ge> sp_max_containers_per_owner p
      then Inl (ResourceLimitExceeded (''Owner '' @ quote owner_id @ '' has reached maximum container limit ('' @
                  decimal (sp_max_containers_per_owner p) @ '')''))
      else Inr ())"

section \<open>Normalised paths\<close>

text \<open>A directory given as a slash-terminated absolute path, as the policy lists them.\<close>

definition dir_path :: "string list \<Rightarrow> string" where
  "dir_path dirs = abs_path dirs @ ''/''"

definition well_formed_dir :: "string \<Rightarrow> bool" where
  "well_formed_dir s \<longleftrightarrow> path_names s \<noteq> [] \<and> s = dir_path (path_names s)"

lemma fold_names:
  assumes "\<And>w. w \<in> set ws \<Longrightarrow> proper_name w \<and> w \<noteq> ''..''" "list_all proper_name ns"
  shows "foldl push_component (if ns = [] then ''/'' else abs_path ns) (map name_component ws) =
         (if ns @ ws = [] then ''/'' else abs_path (ns @ ws))"
  using assms
proof (induction ws arbitrary: ns)
  case (Cons w ws)
  have "push_component (if ns = [] then ''/'' else abs_path ns) (name_component w) = abs_path (ns @ [w])"
    using path_push_abs [of w ns] Cons.prems by (simp add: push_component_def name_component_def)
  then show ?case using Cons.IH [of "ns @ [w]"] Cons.prems by simp
qed simp

lemma path_names_no_parent:
  assumes "\<not> str_contains s ''..''" and "w \<in> set (path_names s)"
  shows "proper_name w \<and> w \<noteq> ''..''"
  using assms path_names_proper [OF assms(2)] path_names_contains [OF assms(2)] by (auto simp: proper_name_def)

lemma normalize_absolute:
  assumes "\<not> str_contains s ''..''" and "str_starts_with s ''/''"
  shows "normalize_path s = (if path_names s = [] then ''/'' else abs_path (path_names s))"
proof -
  have "push_component '''' RootDir = ''/''" by (simp add: push_component_def path_push_def str_starts_with_def)
  then show ?thesis
    using fold_names [of "path_names s" "[]"] path_names_no_parent [OF assms(1)] assms(2)
    by (simp add: normalize_path_def path_components_def)
qed

lemma push_keeps_relative:
  assumes "\<not> str_starts_with buf ''/''" "proper_name w"
  shows "\<not> str_starts_with (path_push buf w) ''/''"
  using assms by (cases buf; cases w) (auto simp: path_push_def str_starts_with_def proper_name_def)

lemma fold_relative:
  assumes "\<not> str_starts_with buf ''/''" "\<And>w. w \<in> set ws \<Longrightarrow> proper_name w \<and> w \<noteq> ''..''"
  shows "\<not> str_starts_with (foldl push_component buf (map name_component ws)) ''/''"
  using assms
proof (induction ws arbitrary: buf)
  case (Cons w ws)
  then show ?case using push_keeps_relative by (simp add: push_component_def name_component_def)
qed simp

lemma normalize_relative:
  assumes "\<not> str_contains s ''..''" and "\<not> str_starts_with s ''/''"
  shows "\<not> str_starts_with (normalize_path s) ''/''"
proof -
  have "foldl push_component '''' (path_components s) = foldl push_component '''' (map name_component (path_names s))"
    using assms(2) by (simp add: path_components_def push_component_def)
  then show ?thesis
    using fold_relative [of "''''" "path_names s"] path_names_no_parent [OF assms(1)]
    by (simp add: normalize_path_def str_starts_with_def)
qed

lemma names_proper: "w \<in> set (path_names s) \<Longrightarrow> proper_name w"
  using path_names_proper by (simp add: proper_name_def)

text \<open>The textual test of a prefix is a test on the names of the path.\<close>

lemma normalize_below:
  assumes "\<not> str_contains s ''..''" and "well_formed_dir d" and "str_starts_with (normalize_path s) d"
  shows "str_starts_with s ''/'' \<and> (\<exists>rest. rest \<noteq> [] \<and> path_names s = path_names d @ rest)"
proof -
  obtain x xs where d: "path_names d = x # xs" "d = dir_path (x # xs)"
    using assms(2) by (cases "path_names d") (auto simp: well_formed_dir_def)
  then have "str_starts_with d ''/''" by (simp add: dir_path_def str_starts_with_def)
  then have "str_starts_with (normalize_path s) ''/''" using assms(3) by (auto simp: str_starts_with_iff)
  then have abs: "str_starts_with s ''/''" using normalize_relative [OF assms(1)] by blast
  obtain t where t: "normalize_path s = abs_path (path_names d) @ CHR ''/'' # t"
    using assms(3) d by (auto simp: dir_path_def str_starts_with_iff)
  have "x \<noteq> []" using names_proper [of x d] d(1) by (simp add: proper_name_def)
  have "path_names s \<noteq> []"
  proof
    assume "path_names s = []"
    then have "''/'' = normalize_path s" using normalize_absolute [OF assms(1) abs] by simp
    then have "length ''/'' = length (CHR ''/'' # x @ abs_path xs @ CHR ''/'' # t)" using t d(1) by simp
    then show False by simp
  qed
  then have "abs_path (path_names s) = abs_path (path_names d) @ CHR ''/'' # t"
    using normalize_absolute [OF assms(1) abs] t by simp
  then have "\<exists>rest. rest \<noteq> [] \<and> path_names s = path_names d @ rest"
    by (rule abs_path_prefix [rotated 2]) (rule names_proper, assumption)+
  with abs show ?thesis by blast
qed

lemma forbidden_above:
  assumes "\<not> str_contains s ''..''" and "str_starts_with s ''/''" and "f = abs_path fs" and "fs \<noteq> []"
    and "path_names s = fs @ rest"
  shows "str_starts_with (normalize_path s) f"
  using normalize_absolute [OF assms(1,2)] assms(3-5) by (auto simp: str_starts_with_iff)

lemma validate_mounts_iff: "validate_mounts p ms = Inr () \<longleftrightarrow> (\<forall>m \<in> set ms. validate_mount p m = Inr ())"
  by (induction ms) (auto split: sum.splits)

lemma validate_mount_ok:
  assumes "validate_mount p m = Inr ()"
  shows "\<not> str_contains (mt_source m) ''..''"
    and "\<And>f. f \<in> set (sp_forbidden_mount_paths p) \<Longrightarrow> \<not> str_starts_with (normalize_path (mt_source m)) f"
    and "\<not> sp_allow_docker_socket p \<Longrightarrow> \<not> str_contains (mt_source m) ''docker.sock''"
    and "\<exists>d \<in> set (sp_allowed_mount_prefixes p). str_starts_with (normalize_path (mt_source m)) d"
  using assms by (auto simp: validate_mount_def Let_def list_ex_iff split: if_splits)

lemma validate_ok:
  assumes "validate T p c = Inr ()"
  shows "validate_image T p (ct_image c) = Inr ()" "validate_resources T p (ct_resources c) = Inr ()"
    "validate_mounts p (ct_mounts c) = Inr ()" "ct_challenge_id c \<noteq> ''''" "ct_owner_id c \<noteq> ''''"
  using assms by (auto simp: validate_def split: sum.splits if_splits)

section \<open>Properties\<close>

text \<open>What a policy promises of a container that passes it.\<close>

definition confined_mount :: "SecurityPolicy \<Rightarrow> MountConfig \<Rightarrow> bool" where
  "confined_mount p m \<longleftrightarrow>
     str_starts_with (mt_source m) ''/'' \<and> ''..'' \<notin> set (path_names (mt_source m)) \<and>
     (\<exists>d \<in> set (sp_allowed_mount_prefixes p). \<exists>rest. rest \<noteq> [] \<and> path_names (mt_source m) = path_names d @ rest) \<and>
     (\<forall>fs rest. fs \<noteq> [] \<longrightarrow> abs_path fs \<in> set (sp_forbidden_mount_paths p) \<longrightarrow> path_names (mt_source m) \<noteq> fs @ rest) \<and>
     (\<not> sp_allow_docker_socket p \<longrightarrow> ''docker.sock'' \<notin> set (path_names (mt_source m)))"

definition within_limits :: "SecurityPolicy \<Rightarrow> ResourceLimits \<Rightarrow> bool" where
  "within_limits p r \<longleftrightarrow>
     rl_memory_bytes r \<le> sp_max_memory_bytes p \<and> rl_cpu_cores r \<le> sp_max_cpu_cores p \<and> rl_pids_limit r \<le> sp_max_pids p"

lemma validated_mount_confined:
  assumes "\<And>d. d \<in> set (sp_allowed_mount_prefixes p) \<Longrightarrow> well_formed_dir d" and "validate_mount p m = Inr ()"
  shows "confined_mount p m"
proof -
  note ok = validate_mount_ok [OF assms(2)]
  obtain d where d: "d \<in> set (sp_allowed_mount_prefixes p)" "str_starts_with (normalize_path (mt_source m)) d"
    using ok(4) by blast
  have below: "str_starts_with (mt_source m) ''/'' \<and> (\<exists>rest. rest \<noteq> [] \<and> path_names (mt_source m) = path_names d @ rest)"
    by (rule normalize_below [OF ok(1) assms(1) [OF d(1)] d(2)])
  have "path_names (mt_source m) \<noteq> fs @ rest" if "fs \<noteq> []" "abs_path fs \<in> set (sp_forbidden_mount_paths p)" for fs rest
    using forbidden_above [OF ok(1) _ refl that(1)] ok(2) [OF that(2)] below by blast
  then show ?thesis
    using below d(1) path_names_no_parent [OF ok(1)] path_names_contains ok(3) by (auto simp: confined_mount_def)
qed

text \<open>
  C25. The policy confines containers. A configuration that \<^verbatim>\<open>validate\<close> accepts, under a policy whose allowed mount
  prefixes are slash-terminated absolute directories, has a challenge and an owner, stays within the limits of memory,
  CPU and processes, and mounts only absolute paths that lie, name by name, strictly below an allowed directory,
  without parent directories, below no forbidden path and not the Docker socket, whatever repeated slashes and
  single dots the path is written with.
\<close>

theorem validated_config_confined:
  assumes "validate T p config = Inr ()" and "\<And>d. d \<in> set (sp_allowed_mount_prefixes p) \<Longrightarrow> well_formed_dir d"
  shows "list_all (confined_mount p) (ct_mounts config) \<and> within_limits p (ct_resources config) \<and>
    ct_challenge_id config \<noteq> '''' \<and> ct_owner_id config \<noteq> ''''"
proof -
  note ok = validate_ok [OF assms(1)]
  have "within_limits p (ct_resources config)"
    using ok(2) by (auto simp: validate_resources_def within_limits_def split: if_splits)
  moreover have "list_all (confined_mount p) (ct_mounts config)"
    using ok(3) validated_mount_confined assms(2) by (auto simp: validate_mounts_iff list_all_iff)
  ultimately show ?thesis using ok(4,5) by blast
qed

definition sample_text :: text_env where
  "sample_text = \<lparr>unicode_lower = id, unicode_trim = id, show_f64 = (\<lambda>_. ''?'')\<rparr>"

definition sample_container :: ContainerConfig where
  "sample_container =
     ContainerConfig_default\<lparr>ct_image := ''GHCR.io/platformnetwork/term:1'', ct_challenge_id := ''c'', ct_owner_id := ''o'',
       ct_mounts := [\<lparr>mt_source = ''/tmp//./data'', mt_target = ''/d'', mt_read_only = True\<rparr>]\<rparr>"

lemma default_dirs: "d \<in> set (sp_allowed_mount_prefixes SecurityPolicy_default) \<Longrightarrow> well_formed_dir d"
  by (auto simp: SecurityPolicy_default_def well_formed_dir_def dir_path_def path_names_def)

lemma sample_container_valid: "validate sample_text SecurityPolicy_default sample_container = Inr ()"
proof -
  have mounts: "validate_mounts SecurityPolicy_default (ct_mounts sample_container) = Inr ()"
    by code_simp
  have img: "list_ex (\<lambda>pre. str_starts_with (map ascii_lower ''GHCR.io/platformnetwork/term:1'') (map ascii_lower pre))
      [''ghcr.io/platformnetwork/'', ''platform-'']"
    by code_simp
  show ?thesis
    using mounts img
    by (simp add: validate_def validate_image_def validate_resources_def validate_network_def sample_container_def
        ContainerConfig_default_def ResourceLimits_default_def SecurityPolicy_default_def to_lowercase_def is_ascii_def)
qed

theorem validated_config_confined_witness:
  "list_all (confined_mount SecurityPolicy_default) (ct_mounts sample_container)"
  using validated_config_confined [OF sample_container_valid default_dirs] by blast

text \<open>
  The limits are upper bounds only: a negative limit, which Docker reads as no limit, passes every one of them.
\<close>

lemma negative_limits_pass:
  assumes "0 \<le> sp_max_memory_bytes p" "0 \<le> sp_max_cpu_cores p" "0 \<le> sp_max_pids p"
  shows "validate_resources T p \<lparr>rl_memory_bytes = - 1, rl_cpu_cores = 0, rl_pids_limit = - 1, rl_disk_quota_bytes = 0\<rparr> = Inr ()"
  using assms by (simp add: validate_resources_def)

end
