(* ===== verification/Container_Broker.thy ===== *)
theory Container_Broker
  imports Container_Policy
begin

text \<open>
  The container broker (\<^verbatim>\<open>secure-container-runtime/src/broker.rs\<close>), the requests and responses it exchanges
  (\<^verbatim>\<open>protocol.rs\<close>) and the authenticated WebSocket sessions in front of it (\<^verbatim>\<open>ws_transport.rs\<close>). The Docker daemon, reached
  through the crate \<^verbatim>\<open>bollard\<close>, is a record of functions on an abstract state; base64, tar archives, JSON and JWT are
  further fields. The Unix and TCP sockets and the spawning of tasks are not represented: a session is the
  sequence of its messages.
\<close>

section \<open>Containers, audit log and protocol\<close>

datatype ContainerState = CsCreating | CsRunning | CsPaused | CsStopped | CsRemoving | CsDead | CsUnknown

record ContainerInfo =
  ci_id :: string
  ci_name :: string
  ci_challenge_id :: string
  ci_owner_id :: string
  ci_image :: string
  ci_state :: ContainerState
  ci_created_at :: i64
  ci_ports :: "(u16, u16) hashmap"
  ci_endpoint :: "string option"
  ci_labels :: "(string, string) hashmap"

record ExecOutput =
  eo_stdout :: string
  eo_stderr :: string
  eo_exit_code :: int
  eo_duration_ms :: u64
  eo_timed_out :: bool

datatype AuditAction =
    AuContainerCreate | AuContainerStart | AuContainerStop | AuContainerRemove | AuContainerExec | AuImagePull
  | AuImageBuild | AuPolicyViolation

record AuditEntry =
  au_timestamp :: i64
  au_action :: AuditAction
  au_challenge_id :: string
  au_owner_id :: string
  au_container_id :: "string option"
  au_success :: bool
  au_error :: "string option"
  au_details :: "(string, string) hashmap"

definition CHALLENGE_ID :: string where
  "CHALLENGE_ID = ''platform.challenge.id''"

definition OWNER_ID :: string where
  "OWNER_ID = ''platform.owner.id''"

definition CREATED_BY :: string where
  "CREATED_BY = ''platform.created-by''"

definition BROKER_VERSION_LABEL :: string where
  "BROKER_VERSION_LABEL = ''platform.broker.version''"

definition MANAGED :: string where
  "MANAGED = ''platform.managed''"

text \<open>Every constructor has the identifier of the request as its last argument.\<close>

datatype Request =
    RqCreate ContainerConfig string
  | RqStart string string
  | RqStop string u32 string
  | RqRemove string bool string
  | RqExec string "string list" "string option" u32 string
  | RqInspect string string
  | RqList "string option" "string option" string
  | RqLogs string usize string
  | RqPull string string
  | RqBuild string string "string option" string
  | RqPing string
  | RqCopyFrom string string string
  | RqCopyTo string string string string

fun Request_request_id :: "Request \<Rightarrow> string" where
  "Request_request_id (RqCreate _ r) = r"
| "Request_request_id (RqStart _ r) = r"
| "Request_request_id (RqStop _ _ r) = r"
| "Request_request_id (RqRemove _ _ r) = r"
| "Request_request_id (RqExec _ _ _ _ r) = r"
| "Request_request_id (RqInspect _ r) = r"
| "Request_request_id (RqList _ _ r) = r"
| "Request_request_id (RqLogs _ _ r) = r"
| "Request_request_id (RqPull _ r) = r"
| "Request_request_id (RqBuild _ _ _ r) = r"
| "Request_request_id (RqPing r) = r"
| "Request_request_id (RqCopyFrom _ _ r) = r"
| "Request_request_id (RqCopyTo _ _ _ r) = r"

fun Request_challenge_id :: "Request \<Rightarrow> string option" where
  "Request_challenge_id (RqCreate config _) = Some (ct_challenge_id config)"
| "Request_challenge_id (RqList challenge_id _ _) = challenge_id"
| "Request_challenge_id _ = None"

fun Request_owner_id :: "Request \<Rightarrow> string option" where
  "Request_owner_id (RqCreate config _) = Some (ct_owner_id config)"
| "Request_owner_id (RqList _ owner_id _) = owner_id"
| "Request_owner_id _ = None"

datatype Response =
    RsCreated string string string
  | RsStarted string "(u16, u16) hashmap" "string option" string
  | RsStopped string string
  | RsRemoved string string
  | RsExecResult ExecOutput string
  | RsInfo ContainerInfo string
  | RsContainerList "ContainerInfo list" string
  | RsLogsResult string string
  | RsPulled string string
  | RsBuilt string string string
  | RsPong string string
  | RsCopyFromResult string usize string
  | RsCopyToResult string
  | RsError ContainerError string

fun Response_request_id :: "Response \<Rightarrow> string" where
  "Response_request_id (RsCreated _ _ r) = r"
| "Response_request_id (RsStarted _ _ _ r) = r"
| "Response_request_id (RsStopped _ r) = r"
| "Response_request_id (RsRemoved _ r) = r"
| "Response_request_id (RsExecResult _ r) = r"
| "Response_request_id (RsInfo _ r) = r"
| "Response_request_id (RsContainerList _ r) = r"
| "Response_request_id (RsLogsResult _ r) = r"
| "Response_request_id (RsPulled _ r) = r"
| "Response_request_id (RsBuilt _ _ r) = r"
| "Response_request_id (RsPong _ r) = r"
| "Response_request_id (RsCopyFromResult _ _ r) = r"
| "Response_request_id (RsCopyToResult r) = r"
| "Response_request_id (RsError _ r) = r"

definition is_error :: "Response \<Rightarrow> bool" where
  "is_error r = (case r of RsError _ _ \<Rightarrow> True | _ \<Rightarrow> False)"

definition response_error :: "string \<Rightarrow> ContainerError \<Rightarrow> Response" where
  "response_error request_id e = RsError e request_id"

section \<open>The Docker daemon\<close>

datatype docker_error = DockerResponseServerError nat string | DockerOther string

datatype docker_status = StRunning | StPaused | StExited | StDead | StOther

datatype LogOutput = LoStdOut bytes | LoStdErr bytes | LoOther bytes

record PortBinding =
  pb_host_ip :: "string option"
  pb_host_port :: "string option"

record DockerMount =
  dm_target :: string
  dm_source :: string
  dm_read_only :: bool

record HostConfig =
  hc_memory :: i64
  hc_nano_cpus :: i64
  hc_pids_limit :: i64
  hc_network_mode :: string
  hc_port_bindings :: "(string, PortBinding list) hashmap"
  hc_mounts :: "DockerMount list"
  hc_privileged :: bool
  hc_auto_remove :: bool

record DockerConfig =
  dc_image :: string
  dc_hostname :: string
  dc_cmd :: "string list option"
  dc_working_dir :: "string option"
  dc_env :: "string list"
  dc_user :: "string option"
  dc_labels :: "(string, string) hashmap"
  dc_host_config :: HostConfig

record InspectResponse =
  ir_status :: "docker_status option"
  ir_labels :: "(string, string) hashmap option"
  ir_name :: "string option"
  ir_image :: "string option"
  ir_created :: "string option"
  ir_ports :: "(string \<times> PortBinding list option) list option"

record BuildInfo =
  bi_stream :: "string option"
  bi_aux_id :: "string option"
  bi_error :: "string option"

record 'd docker =
  dk_error_string :: "docker_error \<Rightarrow> string"
  dk_inspect_image :: "'d \<Rightarrow> string \<Rightarrow> docker_error option"
  dk_create_image :: "'d \<Rightarrow> string \<Rightarrow> docker_error option list \<times> 'd"
  dk_create_container :: "'d \<Rightarrow> string \<Rightarrow> DockerConfig \<Rightarrow> (docker_error + string) \<times> 'd"
  dk_start_container :: "'d \<Rightarrow> string \<Rightarrow> docker_error option \<times> 'd"
  dk_stop_container :: "'d \<Rightarrow> string \<Rightarrow> i64 \<Rightarrow> docker_error option \<times> 'd"
  dk_remove_container :: "'d \<Rightarrow> string \<Rightarrow> bool \<Rightarrow> docker_error option \<times> 'd"
  dk_inspect_container :: "'d \<Rightarrow> string \<Rightarrow> docker_error + InspectResponse"
  dk_list_containers :: "'d \<Rightarrow> string list \<Rightarrow> docker_error + string option list"
  dk_logs :: "'d \<Rightarrow> string \<Rightarrow> string \<Rightarrow> (docker_error + string) list"
  dk_create_exec :: "'d \<Rightarrow> string \<Rightarrow> string list \<Rightarrow> string option \<Rightarrow> (docker_error + string) \<times> 'd"
  dk_start_exec :: "'d \<Rightarrow> string \<Rightarrow> (docker_error + (docker_error + LogOutput) list option) \<times> 'd"
  dk_inspect_exec :: "'d \<Rightarrow> string \<Rightarrow> docker_error + i64 option"
  dk_build_image :: "'d \<Rightarrow> string \<Rightarrow> bytes \<Rightarrow> (docker_error + BuildInfo) list \<times> 'd"
  dk_download :: "'d \<Rightarrow> string \<Rightarrow> string \<Rightarrow> (docker_error + bytes) list"
  dk_upload :: "'d \<Rightarrow> string \<Rightarrow> string \<Rightarrow> bytes \<Rightarrow> docker_error option \<times> 'd"
  dk_list_networks :: "'d \<Rightarrow> docker_error + string option list"
  dk_create_network :: "'d \<Rightarrow> string \<Rightarrow> docker_error option \<times> 'd"

text \<open>
  The other libraries: text, the version the crate is built with, base64 (with the text of its errors), tar archives of one
  file with a mode, the first file of an archive, and RFC 3339 times.
\<close>

datatype tar_result = TarAppendError string | TarFinishError string | TarOk bytes

datatype tar_entry = TarEntriesError string | TarEntryError string | TarReadError string | TarFirst bytes | TarNoEntry

record 'd broker_env =
  be_text :: text_env
  be_version :: string
  be_docker :: "'d docker"
  be_base64_decode :: "string \<Rightarrow> string + bytes"
  be_base64_encode :: "bytes \<Rightarrow> string"
  be_tar_file :: "string \<Rightarrow> nat \<Rightarrow> bytes \<Rightarrow> tar_result"
  be_tar_first :: "bytes \<Rightarrow> tar_entry"
  be_parse_rfc3339 :: "string \<Rightarrow> i64 option"

record 'd broker =
  br_docker :: 'd
  br_policy :: SecurityPolicy
  br_network_name :: string
  br_by_challenge :: "(string, string list) hashmap"
  br_by_owner :: "(string, string list) hashmap"
  br_audit_log :: "AuditEntry list"

section \<open>Operations of the broker\<close>

definition broker_with_policy :: "SecurityPolicy \<Rightarrow> 'd \<Rightarrow> 'd broker" where
  "broker_with_policy p d =
     \<lparr>br_docker = d, br_policy = p, br_network_name = ''platform-network'', br_by_challenge = hm_new, br_by_owner = hm_new,
      br_audit_log = []\<rparr>"

definition audit ::
  "i64 \<Rightarrow> AuditAction \<Rightarrow> string \<Rightarrow> string \<Rightarrow> string option \<Rightarrow> bool \<Rightarrow> string option \<Rightarrow> 'd broker \<Rightarrow> 'd broker" where
  "audit now action challenge_id owner_id container_id success error_text b =
     (let entry = \<lparr>au_timestamp = now, au_action = action, au_challenge_id = challenge_id, au_owner_id = owner_id,
                   au_container_id = container_id, au_success = success, au_error = error_text, au_details = hm_new\<rparr>;
          log = br_audit_log b @ [entry]
      in b\<lparr>br_audit_log := if length log > 10000 then drop 1000 log else log\<rparr>)"

definition first_error :: "docker_error option list \<Rightarrow> docker_error option" where
  "first_error results = (case filter (\<lambda>r. r \<noteq> None) results of r # _ \<Rightarrow> r | [] \<Rightarrow> None)"

definition ensure_image :: "'d broker_env \<Rightarrow> 'd broker \<Rightarrow> string \<Rightarrow> (string + unit) \<times> 'd broker" where
  "ensure_image E b img =
     (let D = be_docker E
      in case dk_inspect_image D (br_docker b) img of
           None \<Rightarrow> (Inr (), b)
         | Some e \<Rightarrow>
             if (case e of DockerResponseServerError code _ \<Rightarrow> code = 404 | _ \<Rightarrow> False)
             then let (results, d) = dk_create_image D (br_docker b) img
                  in (case first_error results of
                        None \<Rightarrow> (Inr (), b\<lparr>br_docker := d\<rparr>)
                      | Some e' \<Rightarrow> (Inl (''Failed to pull image: '' @ dk_error_string D e'), b\<lparr>br_docker := d\<rparr>))
             else (Inl (''Failed to inspect image: '' @ dk_error_string D e), b))"

definition push_port :: "(string, PortBinding list) hashmap \<Rightarrow> u16 \<times> u16 \<Rightarrow> (string, PortBinding list) hashmap" where
  "push_port m ports =
     (let (container_port, host_port) = ports
      in hm_insert (decimal (unat container_port) @ ''/tcp'')
           [\<lparr>pb_host_ip = Some ''127.0.0.1'', pb_host_port = Some (if host_port = 0 then ''0'' else decimal (unat host_port))\<rparr>] m)"

text \<open>The cast \<open>as i64\<close> of an \<open>f64\<close>: towards zero, saturating.\<close>

definition f64_as_i64 :: "f64 \<Rightarrow> i64" where
  "f64_as_i64 x =
     (if x \<ge> 2 ^ 63 then 2 ^ 63 - 1 else if x \<le> - (2 ^ 63) then - (2 ^ 63) else if x \<ge> 0 then \<lfloor>x\<rfloor> else \<lceil>x\<rceil>)"

definition container_labels :: "'d broker_env \<Rightarrow> ContainerConfig \<Rightarrow> (string, string) hashmap" where
  "container_labels E config =
     hm_insert MANAGED ''true'' (hm_insert BROKER_VERSION_LABEL (be_version E) (hm_insert CREATED_BY ''secure-container-runtime''
       (hm_insert OWNER_ID (ct_owner_id config) (hm_insert CHALLENGE_ID (ct_challenge_id config) (ct_labels config)))))"

definition host_config :: "'d broker \<Rightarrow> ContainerConfig \<Rightarrow> HostConfig" where
  "host_config b config =
     \<lparr>hc_memory = rl_memory_bytes (ct_resources config),
      hc_nano_cpus = f64_as_i64 (rl_cpu_cores (ct_resources config) * 1000000000),
      hc_pids_limit = rl_pids_limit (ct_resources config),
      hc_network_mode = (case nc_mode (ct_network config) of NetNone \<Rightarrow> ''none'' | NetBridge \<Rightarrow> ''bridge'' | NetIsolated \<Rightarrow> br_network_name b),
      hc_port_bindings = foldl push_port hm_new (hm_iter (nc_ports (ct_network config))),
      hc_mounts = map (\<lambda>m. \<lparr>dm_target = mt_target m, dm_source = mt_source m, dm_read_only = mt_read_only m\<rparr>) (ct_mounts config),
      hc_privileged = False, hc_auto_remove = False\<rparr>"

definition docker_config :: "'d broker_env \<Rightarrow> 'd broker \<Rightarrow> string \<Rightarrow> ContainerConfig \<Rightarrow> DockerConfig" where
  "docker_config E b container_name config =
     \<lparr>dc_image = ct_image config, dc_hostname = container_name, dc_cmd = ct_cmd config, dc_working_dir = ct_working_dir config,
      dc_env = map (\<lambda>(k, v). k @ ''='' @ v) (hm_iter (ct_env config)), dc_user = ct_user config,
      dc_labels = container_labels E config, dc_host_config = host_config b config\<rparr>"

definition container_name_of :: "'d broker_env \<Rightarrow> string \<Rightarrow> ContainerConfig \<Rightarrow> string" where
  "container_name_of E uuid config =
     (case ct_name config of
        Some name \<Rightarrow> name
      | None \<Rightarrow> ''platform-'' @ str_replace CHR '' '' CHR ''-'' (to_lowercase (unicode_lower (be_text E)) (ct_challenge_id config)) @
                 ''-'' @ take 8 uuid)"

definition tracked :: "(string, string list) hashmap \<Rightarrow> string \<Rightarrow> string list" where
  "tracked m k = (case hm_get m k of Some ids \<Rightarrow> ids | None \<Rightarrow> [])"

text \<open>
  The creation of a container up to and after the call of the daemon: the checks run first and their locks are
  released before the container is created and tracked.
\<close>

definition create_checks ::
  "'d broker_env \<Rightarrow> i64 \<Rightarrow> ContainerConfig \<Rightarrow> string \<Rightarrow> 'd broker \<Rightarrow> Response option \<times> 'd broker" where
  "create_checks E now config request_id b =
     (case validate (be_text E) (br_policy b) config of
        Inl e \<Rightarrow>
          (Some (response_error request_id e),
           audit now AuContainerCreate (ct_challenge_id config) (ct_owner_id config) None False (Some (ContainerError_to_string e)) b)
      | Inr _ \<Rightarrow>
          case ensure_image E b (ct_image config) of
            (Inl e, b1) \<Rightarrow>
              (Some (response_error request_id (DockerError e)),
               audit now AuImagePull (ct_challenge_id config) (ct_owner_id config) None False (Some e) b1)
          | (Inr _, b1) \<Rightarrow>
              case check_container_limit (br_policy b1) (ct_challenge_id config)
                     (length (tracked (br_by_challenge b1) (ct_challenge_id config))) of
                Inl e \<Rightarrow> (Some (response_error request_id e), b1)
              | Inr _ \<Rightarrow>
                  case check_owner_limit (br_policy b1) (ct_owner_id config)
                         (length (tracked (br_by_owner b1) (ct_owner_id config))) of
                    Inl e \<Rightarrow> (Some (response_error request_id e), b1)
                  | Inr _ \<Rightarrow> (None, b1))"

definition track_container :: "(string, string list) hashmap \<Rightarrow> string \<Rightarrow> string \<Rightarrow> (string, string list) hashmap" where
  "track_container m k container_id = hm_insert k (tracked m k @ [container_id]) m"

text \<open>An identifier shorter than twelve bytes makes the slice panic.\<close>

definition create_finish ::
  "'d broker_env \<Rightarrow> i64 \<Rightarrow> string \<Rightarrow> ContainerConfig \<Rightarrow> string \<Rightarrow> 'd broker \<Rightarrow> (Response \<times> 'd broker) option" where
  "create_finish E now uuid config request_id b =
     (let container_name = container_name_of E uuid config;
          D = be_docker E
      in case dk_create_container D (br_docker b) container_name (docker_config E b container_name config) of
           (Inr full_id, d) \<Rightarrow>
             if length full_id < 12 then None
             else
               let container_id = take 12 full_id;
                   b1 = b\<lparr>br_docker := d,
                          br_by_challenge := track_container (br_by_challenge b) (ct_challenge_id config) container_id,
                          br_by_owner := track_container (br_by_owner b) (ct_owner_id config) container_id\<rparr>
               in Some (RsCreated container_id container_name request_id,
                        audit now AuContainerCreate (ct_challenge_id config) (ct_owner_id config) (Some container_id) True None b1)
         | (Inl e, d) \<Rightarrow>
             Some (response_error request_id (DockerError (dk_error_string D e)),
                   audit now AuContainerCreate (ct_challenge_id config) (ct_owner_id config) None False
                     (Some (dk_error_string D e)) (b\<lparr>br_docker := d\<rparr>)))"

definition create_container ::
  "'d broker_env \<Rightarrow> i64 \<Rightarrow> string \<Rightarrow> ContainerConfig \<Rightarrow> string \<Rightarrow> 'd broker \<Rightarrow> (Response \<times> 'd broker) option" where
  "create_container E now uuid config request_id b =
     (case create_checks E now config request_id b of
        (Some r, b1) \<Rightarrow> Some (r, b1)
      | (None, b1) \<Rightarrow> create_finish E now uuid config request_id b1)"

definition add_binding :: "string \<Rightarrow> (u16, u16) hashmap \<Rightarrow> PortBinding \<Rightarrow> (u16, u16) hashmap" where
  "add_binding container_port ports binding =
     (case pb_host_port binding of
        None \<Rightarrow> ports
      | Some host_port \<Rightarrow>
          case parse_u16 host_port of
            None \<Rightarrow> ports
          | Some hp \<Rightarrow>
              hm_insert (case parse_u16 (hd (str_split CHR ''/'' container_port)) of Some cp \<Rightarrow> cp | None \<Rightarrow> 0) hp ports)"

definition get_container_ports :: "'d broker_env \<Rightarrow> 'd broker \<Rightarrow> string \<Rightarrow> (u16, u16) hashmap" where
  "get_container_ports E b container_id =
     (case dk_inspect_container (be_docker E) (br_docker b) container_id of
        Inl _ \<Rightarrow> hm_new
      | Inr info \<Rightarrow>
          case ir_ports info of
            None \<Rightarrow> hm_new
          | Some port_map \<Rightarrow>
              foldl (\<lambda>ports (container_port, bindings).
                       case bindings of None \<Rightarrow> ports | Some bs \<Rightarrow> foldl (add_binding container_port) ports bs) hm_new port_map)"

definition start_container :: "'d broker_env \<Rightarrow> string \<Rightarrow> string \<Rightarrow> 'd broker \<Rightarrow> Response \<times> 'd broker" where
  "start_container E container_id request_id b =
     (let D = be_docker E
      in case dk_start_container D (br_docker b) container_id of
           (None, d) \<Rightarrow>
             let b1 = b\<lparr>br_docker := d\<rparr>;
                 ports = get_container_ports E b1 container_id;
                 endpoint = map_option (\<lambda>p. ''http://localhost:'' @ decimal (unat p)) (hm_get ports 8080)
             in (RsStarted container_id ports endpoint request_id, b1)
         | (Some e, d) \<Rightarrow> (response_error request_id (DockerError (dk_error_string D e)), b\<lparr>br_docker := d\<rparr>))"

definition stop_container :: "'d broker_env \<Rightarrow> string \<Rightarrow> u32 \<Rightarrow> string \<Rightarrow> 'd broker \<Rightarrow> Response \<times> 'd broker" where
  "stop_container E container_id timeout_secs request_id b =
     (let D = be_docker E; (result, d) = dk_stop_container D (br_docker b) container_id (uint timeout_secs); b1 = b\<lparr>br_docker := d\<rparr>
      in case result of
           None \<Rightarrow> (RsStopped container_id request_id, b1)
         | Some e \<Rightarrow>
             if (case e of DockerResponseServerError code _ \<Rightarrow> code = 304 | _ \<Rightarrow> False)
             then (RsStopped container_id request_id, b1)
             else (response_error request_id (DockerError (dk_error_string D e)), b1))"

definition untrack_container :: "string \<Rightarrow> (string, string list) hashmap \<Rightarrow> (string, string list) hashmap" where
  "untrack_container container_id m = hm_values_mut (filter (\<lambda>i. i \<noteq> container_id)) m"

definition remove_container :: "'d broker_env \<Rightarrow> string \<Rightarrow> bool \<Rightarrow> string \<Rightarrow> 'd broker \<Rightarrow> Response \<times> 'd broker" where
  "remove_container E container_id force request_id b =
     (let D = be_docker E; (result, d) = dk_remove_container D (br_docker b) container_id force; b1 = b\<lparr>br_docker := d\<rparr>
      in case result of
           None \<Rightarrow>
             (RsRemoved container_id request_id,
              b1\<lparr>br_by_challenge := untrack_container container_id (br_by_challenge b1), br_by_owner := untrack_container container_id (br_by_owner b1)\<rparr>)
         | Some e \<Rightarrow>
             if (case e of DockerResponseServerError code _ \<Rightarrow> code = 404 | _ \<Rightarrow> False)
             then (RsRemoved container_id request_id, b1)
             else (response_error request_id (DockerError (dk_error_string D e)), b1))"

fun collect_output :: "string \<Rightarrow> string \<Rightarrow> (docker_error + LogOutput) list \<Rightarrow> docker_error + string \<times> string" where
  "collect_output out err [] = Inr (out, err)"
| "collect_output out err (chunk # chunks) =
     (case chunk of
        Inl e \<Rightarrow> Inl e
      | Inr (LoStdOut message) \<Rightarrow> collect_output (out @ from_utf8_lossy message) err chunks
      | Inr (LoStdErr message) \<Rightarrow> collect_output out (err @ from_utf8_lossy message) chunks
      | Inr (LoOther _) \<Rightarrow> collect_output out err chunks)"

text \<open>The cast of an \<open>i64\<close> to \<open>i32\<close> keeps the low 32 bits.\<close>

definition i64_as_i32 :: "i64 \<Rightarrow> int" where
  "i64_as_i32 i = (i + 2 ^ 31) mod 2 ^ 32 - 2 ^ 31"

definition run_exec :: "'d broker_env \<Rightarrow> string \<Rightarrow> 'd broker \<Rightarrow> (docker_error + string \<times> string \<times> int) \<times> 'd broker" where
  "run_exec E exec_id b =
     (let D = be_docker E; (started, d) = dk_start_exec D (br_docker b) exec_id; b1 = b\<lparr>br_docker := d\<rparr>
      in case (case started of
                 Inl e \<Rightarrow> Inl e
               | Inr (Some chunks) \<Rightarrow> collect_output '''' '''' chunks
               | Inr None \<Rightarrow> Inr ('''', '''')) of
           Inl e \<Rightarrow> (Inl e, b1)
         | Inr (out, err) \<Rightarrow>
             case dk_inspect_exec D (br_docker b1) exec_id of
               Inl e \<Rightarrow> (Inl e, b1)
             | Inr code \<Rightarrow> (Inr (out, err, i64_as_i32 (case code of Some c \<Rightarrow> c | None \<Rightarrow> - 1)), b1))"

text \<open>Whether the command ran out of its time, and how long it took, come from the clock.\<close>

definition exec_in_container ::
  "'d broker_env \<Rightarrow> bool \<Rightarrow> u64 \<Rightarrow> string \<Rightarrow> string list \<Rightarrow> string option \<Rightarrow> u32 \<Rightarrow> string \<Rightarrow> 'd broker \<Rightarrow> Response \<times> 'd broker" where
  "exec_in_container E timed_out duration_ms container_id command working_dir timeout_secs request_id b =
     (let D = be_docker E
      in case dk_create_exec D (br_docker b) container_id command working_dir of
           (Inl e, d) \<Rightarrow> (response_error request_id (DockerError (dk_error_string D e)), b\<lparr>br_docker := d\<rparr>)
         | (Inr exec_id, d) \<Rightarrow>
             let (result, b1) = run_exec E exec_id (b\<lparr>br_docker := d\<rparr>)
             in if timed_out
                then (RsExecResult \<lparr>eo_stdout = '''', eo_stderr = ''Command timed out'', eo_exit_code = - 1,
                                    eo_duration_ms = duration_ms, eo_timed_out = True\<rparr> request_id, b1)
                else case result of
                       Inr (out, err, code) \<Rightarrow>
                         (RsExecResult \<lparr>eo_stdout = out, eo_stderr = err, eo_exit_code = code, eo_duration_ms = duration_ms,
                                        eo_timed_out = False\<rparr> request_id, b1)
                     | Inl e \<Rightarrow> (response_error request_id (DockerError (dk_error_string D e)), b1))"

definition container_state :: "docker_status option \<Rightarrow> ContainerState" where
  "container_state s =
     (case s of
        Some StRunning \<Rightarrow> CsRunning
      | Some StPaused \<Rightarrow> CsPaused
      | Some StExited \<Rightarrow> CsStopped
      | Some StDead \<Rightarrow> CsDead
      | _ \<Rightarrow> CsUnknown)"

definition or_default :: "string option \<Rightarrow> string" where
  "or_default s = (case s of Some x \<Rightarrow> x | None \<Rightarrow> '''')"

definition inspect_container :: "'d broker_env \<Rightarrow> i64 \<Rightarrow> string \<Rightarrow> string \<Rightarrow> 'd broker \<Rightarrow> Response" where
  "inspect_container E now container_id request_id b =
     (let D = be_docker E
      in case dk_inspect_container D (br_docker b) container_id of
           Inr info \<Rightarrow>
             let labels = (case ir_labels info of Some l \<Rightarrow> l | None \<Rightarrow> hm_new)
             in RsInfo \<lparr>ci_id = container_id,
                        ci_name = dropWhile (\<lambda>c. c = CHR ''/'') (or_default (ir_name info)),
                        ci_challenge_id = or_default (hm_get labels CHALLENGE_ID),
                        ci_owner_id = or_default (hm_get labels OWNER_ID),
                        ci_image = or_default (ir_image info),
                        ci_state = container_state (ir_status info),
                        ci_created_at = (case Option.bind (ir_created info) (be_parse_rfc3339 E) of Some t \<Rightarrow> t | None \<Rightarrow> now),
                        ci_ports = get_container_ports E b container_id,
                        ci_endpoint = None, ci_labels = labels\<rparr> request_id
         | Inl e \<Rightarrow>
             if (case e of DockerResponseServerError code _ \<Rightarrow> code = 404 | _ \<Rightarrow> False)
             then response_error request_id (ContainerNotFound container_id)
             else response_error request_id (DockerError (dk_error_string D e)))"

definition list_filters :: "string option \<Rightarrow> string option \<Rightarrow> string list" where
  "list_filters challenge_id owner_id =
     [MANAGED @ ''=true''] @
     (case challenge_id of Some cid \<Rightarrow> [CHALLENGE_ID @ ''='' @ cid] | None \<Rightarrow> []) @
     (case owner_id of Some oid \<Rightarrow> [OWNER_ID @ ''='' @ oid] | None \<Rightarrow> [])"

definition listed_info :: "'d broker_env \<Rightarrow> i64 \<Rightarrow> 'd broker \<Rightarrow> string option \<Rightarrow> ContainerInfo list" where
  "listed_info E now b cid =
     (case cid of
        None \<Rightarrow> []
      | Some i \<Rightarrow>
          case inspect_container E now (if length i \<ge> 12 then take 12 i else i) '''' b of
            RsInfo info _ \<Rightarrow> [info]
          | _ \<Rightarrow> [])"

definition list_containers ::
  "'d broker_env \<Rightarrow> i64 \<Rightarrow> string option \<Rightarrow> string option \<Rightarrow> string \<Rightarrow> 'd broker \<Rightarrow> Response" where
  "list_containers E now challenge_id owner_id request_id b =
     (let D = be_docker E
      in case dk_list_containers D (br_docker b) (list_filters challenge_id owner_id) of
           Inr ids \<Rightarrow> RsContainerList (concat (map (listed_info E now b) ids)) request_id
         | Inl e \<Rightarrow> response_error request_id (DockerError (dk_error_string D e)))"

fun collect_logs :: "(docker_error + string) list \<Rightarrow> string" where
  "collect_logs (Inr chunk # rest) = chunk @ collect_logs rest"
| "collect_logs _ = ''''"

definition get_logs :: "'d broker_env \<Rightarrow> string \<Rightarrow> usize \<Rightarrow> string \<Rightarrow> 'd broker \<Rightarrow> Response" where
  "get_logs E container_id tail request_id b =
     RsLogsResult (collect_logs (dk_logs (be_docker E) (br_docker b) container_id (decimal tail))) request_id"

definition pull_image :: "'d broker_env \<Rightarrow> i64 \<Rightarrow> string \<Rightarrow> string \<Rightarrow> 'd broker \<Rightarrow> Response \<times> 'd broker" where
  "pull_image E now img request_id b =
     (case validate_image (be_text E) (br_policy b) img of
        Inl e \<Rightarrow>
          (response_error request_id e, audit now AuImagePull '''' '''' None False (Some (ContainerError_to_string e)) b)
      | Inr _ \<Rightarrow>
          let D = be_docker E; (results, d) = dk_create_image D (br_docker b) img; b1 = b\<lparr>br_docker := d\<rparr>
          in case first_error results of
               Some e \<Rightarrow> (response_error request_id (DockerError (dk_error_string D e)), b1)
             | None \<Rightarrow> (RsPulled img request_id, audit now AuImagePull '''' '''' None True None b1))"

fun build_progress ::
  "'d broker_env \<Rightarrow> i64 \<Rightarrow> string \<Rightarrow> string \<Rightarrow> string \<Rightarrow> 'd broker \<Rightarrow> (docker_error + BuildInfo) list \<Rightarrow> Response \<times> 'd broker" where
  "build_progress E now request_id logs image_id b [] =
     (RsBuilt image_id logs request_id, audit now AuImageBuild '''' '''' (Some image_id) True None b)"
| "build_progress E now request_id logs image_id b (r # rs) =
     (case r of
        Inl e \<Rightarrow> (response_error request_id (DockerError (''Build error: '' @ dk_error_string (be_docker E) e)), b)
      | Inr info \<Rightarrow>
          let logs1 = logs @ or_default (bi_stream info);
              image_id1 = (case bi_aux_id info of Some i \<Rightarrow> i | None \<Rightarrow> image_id)
          in case bi_error info of
               Some e \<Rightarrow>
                 (response_error request_id (DockerError (''Build failed: '' @ e)),
                  audit now AuImageBuild '''' '''' None False (Some e) b)
             | None \<Rightarrow> build_progress E now request_id logs1 image_id1 b rs)"

definition build_context :: "'d broker_env \<Rightarrow> string \<Rightarrow> string option \<Rightarrow> ContainerError + bytes" where
  "build_context E dockerfile_b64 context_b64 =
     (case (case context_b64 of None \<Rightarrow> Inr [] | Some ctx \<Rightarrow> be_base64_decode E ctx) of
        Inl e \<Rightarrow> Inl (InvalidConfig (''Invalid base64 context: '' @ e))
      | Inr tar_buffer \<Rightarrow>
          case be_base64_decode E dockerfile_b64 of
            Inl e \<Rightarrow> Inl (InvalidConfig (''Invalid base64 dockerfile: '' @ e))
          | Inr dockerfile_content \<Rightarrow>
              if tar_buffer \<noteq> [] then Inr tar_buffer
              else case be_tar_file E ''Dockerfile'' 420 dockerfile_content of
                     TarAppendError e \<Rightarrow> Inl (InternalError (''Failed to create tar: '' @ e))
                   | TarFinishError e \<Rightarrow> Inl (InternalError (''Failed to finish tar: '' @ e))
                   | TarOk data \<Rightarrow> Inr data)"

definition build_image ::
  "'d broker_env \<Rightarrow> i64 \<Rightarrow> string \<Rightarrow> string \<Rightarrow> string option \<Rightarrow> string \<Rightarrow> 'd broker \<Rightarrow> Response \<times> 'd broker" where
  "build_image E now tag dockerfile_b64 context_b64 request_id b =
     (if \<not> str_starts_with tag ''term-compiler:'' \<and> \<not> str_starts_with tag ''ghcr.io/''
      then let err = ''Image tag not allowed: '' @ tag
           in (response_error request_id (PolicyViolation err), audit now AuImageBuild '''' '''' None False (Some err) b)
      else case build_context E dockerfile_b64 context_b64 of
             Inl e \<Rightarrow> (response_error request_id e, b)
           | Inr data \<Rightarrow>
               let (results, d) = dk_build_image (be_docker E) (br_docker b) tag data
               in build_progress E now request_id '''' '''' (b\<lparr>br_docker := d\<rparr>) results)"

fun try_collect :: "(docker_error + bytes) list \<Rightarrow> docker_error + bytes" where
  "try_collect [] = Inr []"
| "try_collect (Inl e # _) = Inl e"
| "try_collect (Inr chunk # rest) = (case try_collect rest of Inl e \<Rightarrow> Inl e | Inr bs \<Rightarrow> Inr (chunk @ bs))"

definition copy_from_container :: "'d broker_env \<Rightarrow> string \<Rightarrow> string \<Rightarrow> string \<Rightarrow> 'd broker \<Rightarrow> Response" where
  "copy_from_container E container_id path request_id b =
     (let D = be_docker E
      in case try_collect (dk_download D (br_docker b) container_id path) of
           Inl e \<Rightarrow> response_error request_id (DockerError (''Failed to download from container: '' @ dk_error_string D e))
         | Inr tar_data \<Rightarrow>
             case be_tar_first E tar_data of
               TarEntriesError e \<Rightarrow> response_error request_id (DockerError (''Failed to read tar archive: '' @ e))
             | TarEntryError e \<Rightarrow> response_error request_id (DockerError (''Failed to read tar entry: '' @ e))
             | TarReadError e \<Rightarrow> response_error request_id (DockerError (''Failed to read file from tar: '' @ e))
             | TarFirst file_data \<Rightarrow> RsCopyFromResult (be_base64_encode E file_data) (length file_data) request_id
             | TarNoEntry \<Rightarrow> RsCopyFromResult (be_base64_encode E []) 0 request_id)"

definition copy_to_container :: "'d broker_env \<Rightarrow> string \<Rightarrow> string \<Rightarrow> string \<Rightarrow> string \<Rightarrow> 'd broker \<Rightarrow> Response \<times> 'd broker" where
  "copy_to_container E container_id path data request_id b =
     (case be_base64_decode E data of
        Inl e \<Rightarrow> (response_error request_id (InvalidConfig (''Invalid base64 data: '' @ e)), b)
      | Inr file_data \<Rightarrow>
          let parent_dir = (case path_parent path of Some p \<Rightarrow> p | None \<Rightarrow> ''/'');
              filename = (case path_file_name path of Some f \<Rightarrow> f | None \<Rightarrow> ''file'')
          in case be_tar_file E filename 493 file_data of
               TarAppendError e \<Rightarrow> (response_error request_id (DockerError (''Failed to create tar archive: '' @ e)), b)
             | TarFinishError e \<Rightarrow> (response_error request_id (DockerError (''Failed to finish tar archive: '' @ e)), b)
             | TarOk tar_buffer \<Rightarrow>
                 let D = be_docker E; (result, d) = dk_upload D (br_docker b) container_id parent_dir tar_buffer; b1 = b\<lparr>br_docker := d\<rparr>
                 in case result of
                      None \<Rightarrow> (RsCopyToResult request_id, b1)
                    | Some e \<Rightarrow>
                        (response_error request_id (DockerError (''Failed to upload to container: '' @ dk_error_string D e)), b1))"

definition remove_stale :: "'d broker_env \<Rightarrow> 'd broker \<Rightarrow> string option \<Rightarrow> 'd broker" where
  "remove_stale E b cid =
     (case cid of
        None \<Rightarrow> b
      | Some i \<Rightarrow> b\<lparr>br_docker := snd (dk_remove_container (be_docker E) (br_docker b) i True)\<rparr>)"

definition cleanup_stale_containers :: "'d broker_env \<Rightarrow> 'd broker \<Rightarrow> (docker_error + unit) \<times> 'd broker" where
  "cleanup_stale_containers E b =
     (case dk_list_containers (be_docker E) (br_docker b) [MANAGED @ ''=true''] of
        Inl e \<Rightarrow> (Inl e, b)
      | Inr containers \<Rightarrow> (Inr (), foldl (remove_stale E) b containers))"

definition ensure_network :: "'d broker_env \<Rightarrow> 'd broker \<Rightarrow> (docker_error + unit) \<times> 'd broker" where
  "ensure_network E b =
     (let D = be_docker E
      in case dk_list_networks D (br_docker b) of
           Inl e \<Rightarrow> (Inl e, b)
         | Inr networks \<Rightarrow>
             if list_ex (\<lambda>n. n = Some (br_network_name b)) networks then (Inr (), b)
             else case dk_create_network D (br_docker b) (br_network_name b) of
                    (None, d) \<Rightarrow> (Inr (), b\<lparr>br_docker := d\<rparr>)
                  | (Some e, d) \<Rightarrow> (Inl e, b\<lparr>br_docker := d\<rparr>))"

text \<open>What the environment supplies to one request: the time, a fresh UUID, and the course of a timed command.\<close>

record request_ctx =
  rc_now :: i64
  rc_uuid :: string
  rc_timed_out :: bool
  rc_duration_ms :: u64

definition handle_request :: "'d broker_env \<Rightarrow> request_ctx \<Rightarrow> Request \<Rightarrow> 'd broker \<Rightarrow> (Response \<times> 'd broker) option" where
  "handle_request E x request b =
     (case request of
        RqPing request_id \<Rightarrow> Some (RsPong (be_version E) request_id, b)
      | RqCreate config request_id \<Rightarrow> create_container E (rc_now x) (rc_uuid x) config request_id b
      | RqStart container_id request_id \<Rightarrow> Some (start_container E container_id request_id b)
      | RqStop container_id timeout_secs request_id \<Rightarrow> Some (stop_container E container_id timeout_secs request_id b)
      | RqRemove container_id force request_id \<Rightarrow> Some (remove_container E container_id force request_id b)
      | RqExec container_id command working_dir timeout_secs request_id \<Rightarrow>
          Some (exec_in_container E (rc_timed_out x) (rc_duration_ms x) container_id command working_dir timeout_secs request_id b)
      | RqInspect container_id request_id \<Rightarrow> Some (inspect_container E (rc_now x) container_id request_id b, b)
      | RqList challenge_id owner_id request_id \<Rightarrow> Some (list_containers E (rc_now x) challenge_id owner_id request_id b, b)
      | RqLogs container_id tail request_id \<Rightarrow> Some (get_logs E container_id tail request_id b, b)
      | RqPull img request_id \<Rightarrow> Some (pull_image E (rc_now x) img request_id b)
      | RqBuild tag dockerfile context_b64 request_id \<Rightarrow>
          Some (build_image E (rc_now x) tag dockerfile context_b64 request_id b)
      | RqCopyFrom container_id path request_id \<Rightarrow> Some (copy_from_container E container_id path request_id b, b)
      | RqCopyTo container_id path data request_id \<Rightarrow> Some (copy_to_container E container_id path data request_id b))"

section \<open>WebSocket sessions\<close>

record WsConfig =
  ws_bind_addr :: string
  ws_jwt_secret :: "string option"
  ws_allow_unauthenticated :: bool
  ws_allowed_challenges :: "string list"
  ws_max_connections_per_challenge :: usize

definition WsConfig_default :: "string option \<Rightarrow> WsConfig" where
  "WsConfig_default env_secret =
     \<lparr>ws_bind_addr = ''0.0.0.0:8090'', ws_jwt_secret = env_secret, ws_allow_unauthenticated = False, ws_allowed_challenges = [],
      ws_max_connections_per_challenge = 10\<rparr>"

definition WsConfig_development :: "string option \<Rightarrow> WsConfig" where
  "WsConfig_development env_secret = (WsConfig_default env_secret)\<lparr>ws_allow_unauthenticated := True\<rparr>"

definition requires_auth :: "WsConfig \<Rightarrow> bool" where
  "requires_auth config = (\<not> ws_allow_unauthenticated config)"

record WsClaims =
  wcl_challenge_id :: string
  wcl_owner_id :: string
  wcl_exp :: u64
  wcl_iat :: u64

record WsConnection =
  cn_challenge_id :: string
  cn_owner_id :: string
  cn_authenticated :: bool

text \<open>
  JSON and JWT: the token of an authentication message, the claims of a token under a secret (the library checks the
  signature and the expiry), the claims without a check, and the request in a message; errors carry their text.
\<close>

record ws_env =
  we_auth_message :: "string \<Rightarrow> string + string"
  we_jwt_decode :: "string \<Rightarrow> string \<Rightarrow> string + WsClaims"
  we_jwt_decode_unverified :: "string \<Rightarrow> string + WsClaims"
  we_decode_request :: "string \<Rightarrow> string + Request"

definition authenticate :: "ws_env \<Rightarrow> WsConfig \<Rightarrow> string \<Rightarrow> string + WsClaims" where
  "authenticate W config message =
     (case we_auth_message W message of
        Inl e \<Rightarrow> Inl e
      | Inr token \<Rightarrow>
          case ws_jwt_secret config of
            None \<Rightarrow> Inl ''No JWT secret configured''
          | Some secret \<Rightarrow>
              case we_jwt_decode W secret token of
                Inl e \<Rightarrow> Inl e
              | Inr claims \<Rightarrow>
                  if ws_allowed_challenges config \<noteq> [] \<and> wcl_challenge_id claims \<notin> set (ws_allowed_challenges config)
                  then Inl (''Challenge not allowed: '' @ wcl_challenge_id claims)
                  else Inr claims)"

type_synonym ws_counts = "(string, usize) hashmap"

text \<open>
  The first phase of a connection: the answer that is sent and, unless the connection is refused, its state. The
  message is \<^term>\<open>None\<close> when none arrives in time.
\<close>

definition ws_open ::
  "ws_env \<Rightarrow> WsConfig \<Rightarrow> string option \<Rightarrow> ws_counts \<Rightarrow> Response option \<times> WsConnection option \<times> ws_counts" where
  "ws_open W config message conns =
     (if requires_auth config \<and> ws_jwt_secret config = None
      then (Some (RsError (Unauthorized (''Authentication required but JWT secret not configured. '' @
                    ''Set BROKER_JWT_SECRET or explicitly enable unauthenticated access.'')) ''auth''), None, conns)
      else case message of
             None \<Rightarrow> (None, None, conns)
           | Some m \<Rightarrow>
               if ws_jwt_secret config \<noteq> None
               then case authenticate W config m of
                      Inl e \<Rightarrow> (Some (RsError (Unauthorized e) ''auth''), None, conns)
                    | Inr claims \<Rightarrow>
                        let cid = wcl_challenge_id claims;
                            n = (case hm_get conns cid of Some k \<Rightarrow> k | None \<Rightarrow> 0)
                        in if n \<ge> ws_max_connections_per_challenge config
                           then (Some (RsError (PolicyViolation ''Too many connections'') ''auth''), None, hm_insert cid n conns)
                           else (Some (RsPong ''authenticated'' ''auth''),
                                 Some \<lparr>cn_challenge_id = cid, cn_owner_id = wcl_owner_id claims, cn_authenticated = True\<rparr>,
                                 hm_insert cid (n + 1) conns)
               else if ws_allow_unauthenticated config
               then let (cid, oid) = (case we_auth_message W m of
                                        Inl _ \<Rightarrow> ('''', '''')
                                      | Inr token \<Rightarrow> (case we_jwt_decode_unverified W token of
                                                       Inl _ \<Rightarrow> ('''', '''')
                                                     | Inr claims \<Rightarrow> (wcl_challenge_id claims, wcl_owner_id claims)))
                    in (Some (RsPong ''unauthenticated'' ''auth''),
                        Some \<lparr>cn_challenge_id = cid, cn_owner_id = oid, cn_authenticated = True\<rparr>, conns)
               else (Some (RsError (Unauthorized ''Authentication required'') ''auth''), None, conns))"

definition process_request ::
  "'d broker_env \<Rightarrow> ws_env \<Rightarrow> request_ctx \<Rightarrow> string \<Rightarrow> WsConnection \<Rightarrow> 'd broker \<Rightarrow> (Response \<times> 'd broker) option" where
  "process_request E W x message conn b =
     (case we_decode_request W message of
        Inl e \<Rightarrow> Some (RsError (InvalidRequest e) ''unknown'', b)
      | Inr request \<Rightarrow>
          case Request_challenge_id request of
            Some req_challenge \<Rightarrow>
              if cn_challenge_id conn \<noteq> '''' \<and> req_challenge \<noteq> cn_challenge_id conn
              then Some (RsError (Unauthorized (''Challenge mismatch: authenticated as '' @ cn_challenge_id conn @
                           '', requested '' @ req_challenge)) (Request_request_id request), b)
              else handle_request E x request b
          | None \<Rightarrow> handle_request E x request b)"

definition ws_close :: "WsConnection \<Rightarrow> ws_counts \<Rightarrow> ws_counts" where
  "ws_close conn conns =
     (if cn_authenticated conn \<and> cn_challenge_id conn \<noteq> ''''
      then case hm_get conns (cn_challenge_id conn) of
             Some n \<Rightarrow> hm_insert (cn_challenge_id conn) (n - 1) conns
           | None \<Rightarrow> conns
      else conns)"

text \<open>The claims \<^verbatim>\<open>generate_token\<close> signs; the signing itself is the JWT library's.\<close>

definition token_claims :: "u64 \<Rightarrow> string \<Rightarrow> string \<Rightarrow> u64 \<Rightarrow> WsClaims" where
  "token_claims now challenge_id owner_id ttl_secs =
     \<lparr>wcl_challenge_id = challenge_id, wcl_owner_id = owner_id, wcl_exp = now + ttl_secs, wcl_iat = now\<rparr>"

end
