(* ===== verification/Container_Safety.thy ===== *)
theory Container_Safety
  imports Container_Broker
begin

text \<open>
  What the broker guarantees: answers carry the identifier of their request, only configurations that the policy
  confines reach the Docker daemon, the tracked containers and the audit log stay within their limits, and WebSocket
  sessions are counted exactly and create containers of their own challenge only.
\<close>

section \<open>What reaches the daemon\<close>

text \<open>The configurations the policy lets through, as the daemon sees them.\<close>

definition safe_docker_config :: "SecurityPolicy \<Rightarrow> DockerConfig \<Rightarrow> bool" where
  "safe_docker_config p c \<longleftrightarrow>
     \<not> hc_privileged (dc_host_config c) \<and>
     hc_memory (dc_host_config c) \<le> sp_max_memory_bytes p \<and>
     hc_pids_limit (dc_host_config c) \<le> sp_max_pids p \<and>
     list_all (\<lambda>m. confined_mount p \<lparr>mt_source = dm_source m, mt_target = dm_target m, mt_read_only = dm_read_only m\<rparr>)
       (hc_mounts (dc_host_config c)) \<and>
     hm_get (dc_labels c) MANAGED = Some ''true'' \<and>
     (\<exists>i. hm_get (dc_labels c) CHALLENGE_ID = Some i \<and> i \<noteq> '''')"

text \<open>A property of the daemon that every call except the creation of a container keeps.\<close>

definition docker_keeps :: "'d docker \<Rightarrow> ('d \<Rightarrow> bool) \<Rightarrow> bool" where
  "docker_keeps D I \<longleftrightarrow>
     (\<forall>d. I d \<longrightarrow>
        (\<forall>i. I (snd (dk_create_image D d i))) \<and> (\<forall>i. I (snd (dk_start_container D d i))) \<and>
        (\<forall>i t. I (snd (dk_stop_container D d i t))) \<and> (\<forall>i f. I (snd (dk_remove_container D d i f))) \<and>
        (\<forall>i c w. I (snd (dk_create_exec D d i c w))) \<and> (\<forall>i. I (snd (dk_start_exec D d i))) \<and>
        (\<forall>t x. I (snd (dk_build_image D d t x))) \<and> (\<forall>i p x. I (snd (dk_upload D d i p x))))"

lemma docker_keepsD:
  assumes "docker_keeps D I" "I d"
  shows "dk_create_image D d i = (a, d1) \<Longrightarrow> I d1" "dk_start_container D d i = (r, d1) \<Longrightarrow> I d1"
    "dk_stop_container D d i t = (r, d1) \<Longrightarrow> I d1" "dk_remove_container D d i f = (r, d1) \<Longrightarrow> I d1"
    "dk_create_exec D d i c w = (s, d1) \<Longrightarrow> I d1" "dk_start_exec D d i = (u, d1) \<Longrightarrow> I d1"
    "dk_build_image D d t' x = (v, d1) \<Longrightarrow> I d1" "dk_upload D d i p x = (r, d1) \<Longrightarrow> I d1"
  using assms unfolding docker_keeps_def by (metis snd_conv)+

lemma audit_frame [simp]:
  "br_docker (audit now a c ow ci ok e b) = br_docker b" "br_policy (audit now a c ow ci ok e b) = br_policy b"
  "br_by_challenge (audit now a c ow ci ok e b) = br_by_challenge b" "br_by_owner (audit now a c ow ci ok e b) = br_by_owner b"
  "br_network_name (audit now a c ow ci ok e b) = br_network_name b"
  by (simp_all add: audit_def Let_def)

lemma ensure_image_frame:
  assumes "ensure_image E b i = (r, b1)"
  shows "br_policy b1 = br_policy b" "br_by_challenge b1 = br_by_challenge b" "br_by_owner b1 = br_by_owner b"
    "br_audit_log b1 = br_audit_log b" "docker_keeps (be_docker E) I \<Longrightarrow> I (br_docker b) \<Longrightarrow> I (br_docker b1)"
  using assms by (auto simp: ensure_image_def Let_def split: option.splits if_splits prod.splits dest: docker_keepsD(1))

lemma create_checks_passed:
  assumes "create_checks E now config request_id b = (None, b1)"
  shows "validate (be_text E) (br_policy b) config = Inr ()"
    "length (tracked (br_by_challenge b1) (ct_challenge_id config)) < sp_max_containers_per_challenge (br_policy b1)"
    "length (tracked (br_by_owner b1) (ct_owner_id config)) < sp_max_containers_per_owner (br_policy b1)"
  using assms
  by (auto simp: create_checks_def check_container_limit_def check_owner_limit_def split: sum.splits prod.splits if_splits)

lemma create_checks_frame:
  assumes "create_checks E now config request_id b = (r, b1)"
  shows "br_policy b1 = br_policy b" "br_by_challenge b1 = br_by_challenge b" "br_by_owner b1 = br_by_owner b"
    "docker_keeps (be_docker E) I \<Longrightarrow> I (br_docker b) \<Longrightarrow> I (br_docker b1)"
proof -
  obtain q b2 where img: "ensure_image E b (ct_image config) = (q, b2)" by fastforce
  note frame = ensure_image_frame [OF img]
  show "br_policy b1 = br_policy b" "br_by_challenge b1 = br_by_challenge b" "br_by_owner b1 = br_by_owner b"
    using assms frame(1-3) img by (auto simp: create_checks_def split: sum.splits)
  show "I (br_docker b1)" if "docker_keeps (be_docker E) I" "I (br_docker b)"
    using assms frame(5) [OF that] that(2) img by (auto simp: create_checks_def split: sum.splits)
qed

lemma docker_config_safe:
  assumes "validate T p config = Inr ()" and "\<And>d. d \<in> set (sp_allowed_mount_prefixes p) \<Longrightarrow> well_formed_dir d"
  shows "safe_docker_config p (docker_config E b name config)"
proof -
  note ok = validate_ok [OF assms(1)]
  have "list_all (confined_mount p) (ct_mounts config)"
    using ok(3) validated_mount_confined assms(2) by (auto simp: validate_mounts_iff list_all_iff)
  then have "list_all (\<lambda>m. confined_mount p \<lparr>mt_source = dm_source m, mt_target = dm_target m, mt_read_only = dm_read_only m\<rparr>)
      (hc_mounts (host_config b config))"
    by (auto simp: host_config_def list_all_iff confined_mount_def)
  moreover have "CHALLENGE_ID \<noteq> OWNER_ID" "CHALLENGE_ID \<noteq> CREATED_BY" "CHALLENGE_ID \<noteq> BROKER_VERSION_LABEL" "CHALLENGE_ID \<noteq> MANAGED"
    by (simp_all add: CHALLENGE_ID_def OWNER_ID_def CREATED_BY_def BROKER_VERSION_LABEL_def MANAGED_def)
  moreover have "rl_memory_bytes (ct_resources config) \<le> sp_max_memory_bytes p" "rl_pids_limit (ct_resources config) \<le> sp_max_pids p"
    using ok(2) by (auto simp: validate_resources_def split: if_splits)
  ultimately show ?thesis
    using ok(4) by (simp add: safe_docker_config_def docker_config_def container_labels_def lookup_update host_config_def)
qed

lemma create_container_docker:
  assumes keeps: "docker_keeps (be_docker E) I" and "I (br_docker b)"
    and safe: "\<And>d name c. I d \<Longrightarrow> safe_docker_config (br_policy b) c \<Longrightarrow> I (snd (dk_create_container (be_docker E) d name c))"
    and dirs: "\<And>d. d \<in> set (sp_allowed_mount_prefixes (br_policy b)) \<Longrightarrow> well_formed_dir d"
    and run: "create_container E now uuid config request_id b = Some (r, b')"
  shows "I (br_docker b')"
proof -
  obtain q b1 where checks: "create_checks E now config request_id b = (q, b1)" by fastforce
  have b1: "I (br_docker b1)" by (rule create_checks_frame(4) [OF checks keeps assms(2)])
  show ?thesis
  proof (cases q)
    case (Some r1)
    then show ?thesis using run checks b1 by (simp add: create_container_def)
  next
    case None
    let ?c = "docker_config E b1 (container_name_of E uuid config) config"
    have "safe_docker_config (br_policy b) ?c"
      by (rule docker_config_safe [OF create_checks_passed(1) dirs]) (use checks None in auto)
    then have "I (snd (dk_create_container (be_docker E) (br_docker b1) (container_name_of E uuid config) ?c))"
      by (rule safe [OF b1])
    then show ?thesis
      using run checks None by (auto simp: create_container_def create_finish_def Let_def split: prod.splits sum.splits if_splits)
  qed
qed

lemma run_exec_docker:
  assumes "run_exec E i b = (r, b1)" "docker_keeps (be_docker E) I" "I (br_docker b)"
  shows "I (br_docker b1)"
  using assms docker_keepsD(6) [OF assms(2,3)]
  by (auto simp: run_exec_def Let_def split: prod.splits sum.splits option.splits)

lemma build_progress_docker: "br_docker (snd (build_progress E now rid logs i b rs)) = br_docker b"
  by (induction E now rid logs i b rs rule: build_progress.induct) (auto simp: Let_def split: sum.splits option.splits)

lemma other_requests_docker:
  assumes keeps: "docker_keeps (be_docker E) I" and I: "I (br_docker b)"
  shows "I (br_docker (snd (start_container E i rid b)))" "I (br_docker (snd (stop_container E i t rid b)))"
    "I (br_docker (snd (remove_container E i f rid b)))" "I (br_docker (snd (exec_in_container E to ms i c w t rid b)))"
    "I (br_docker (snd (pull_image E now img rid b)))" "I (br_docker (snd (build_image E now tag df ctx rid b)))"
    "I (br_docker (snd (copy_to_container E i p x rid b)))"
proof -
  note keep = docker_keepsD [OF keeps I]
  show "I (br_docker (snd (start_container E i rid b)))"
    by (auto simp: start_container_def Let_def I split: prod.splits option.splits dest: keep(2))
  show "I (br_docker (snd (stop_container E i t rid b)))"
    by (auto simp: stop_container_def Let_def I split: prod.splits option.splits dest: keep(3))
  show "I (br_docker (snd (remove_container E i f rid b)))"
    by (auto simp: remove_container_def Let_def I split: prod.splits option.splits dest: keep(4))
  show "I (br_docker (snd (exec_in_container E to ms i c w t rid b)))"
  proof -
    have "I (br_docker b1)" if "run_exec E j (b\<lparr>br_docker := d1\<rparr>) = (r, b1)" "I d1" for j d1 r b1
      using run_exec_docker [OF that(1) keeps] that(2) by simp
    then show ?thesis
      by (auto simp: exec_in_container_def Let_def split: prod.splits sum.splits dest: keep(5))
  qed
  show "I (br_docker (snd (pull_image E now img rid b)))"
    by (auto simp: pull_image_def Let_def I split: prod.splits option.splits sum.splits dest: keep(1))
  show "I (br_docker (snd (build_image E now tag df ctx rid b)))"
    by (auto simp: build_image_def Let_def I build_progress_docker split: prod.splits sum.splits dest: keep(7))
  show "I (br_docker (snd (copy_to_container E i p x rid b)))"
    by (auto simp: copy_to_container_def Let_def I split: prod.splits option.splits sum.splits tar_result.splits dest: keep(8))
qed

text \<open>What every handler keeps, handling a request keeps.\<close>

lemma handle_request_keeps:
  assumes "handle_request E x request b = Some (r, b')" and "Q b"
    and "\<And>config rid. create_container E (rc_now x) (rc_uuid x) config rid b = Some (r, b') \<Longrightarrow> Q b'"
    and "\<And>i rid. Q (snd (start_container E i rid b))" "\<And>i t rid. Q (snd (stop_container E i t rid b))"
      "\<And>i f rid. Q (snd (remove_container E i f rid b))" "\<And>to ms i c w t rid. Q (snd (exec_in_container E to ms i c w t rid b))"
      "\<And>now img rid. Q (snd (pull_image E now img rid b))" "\<And>now tag df ctx rid. Q (snd (build_image E now tag df ctx rid b))"
      "\<And>i p y rid. Q (snd (copy_to_container E i p y rid b))"
  shows "Q b'"
proof -
  have pick: "Q b'" if "f = (r, b')" "Q (snd f)" for f using that by simp
  show ?thesis
    using assms(1,2)
    by (cases request)
      (auto simp: handle_request_def intro: assms(3) pick [OF _ assms(4)] pick [OF _ assms(5)] pick [OF _ assms(6)]
        pick [OF _ assms(7)] pick [OF _ assms(8)] pick [OF _ assms(9)] pick [OF _ assms(10)])
qed

section \<open>Tracking within the limits\<close>

definition broker_inv :: "SecurityPolicy \<Rightarrow> 'd broker \<Rightarrow> bool" where
  "broker_inv p b \<longleftrightarrow>
     br_policy b = p \<and>
     (\<forall>k. length (tracked (br_by_challenge b) k) \<le> sp_max_containers_per_challenge p) \<and>
     (\<forall>k. length (tracked (br_by_owner b) k) \<le> sp_max_containers_per_owner p) \<and>
     length (br_audit_log b) \<le> 10000"

lemma tracked_new [simp]: "tracked hm_new k = []"
  by (simp add: tracked_def)

lemma tracked_track: "tracked (track_container m k i) j = (if j = k then tracked m k @ [i] else tracked m j)"
  by (simp add: tracked_def track_container_def lookup_update)

lemma tracked_untrack: "tracked (untrack_container i m) k = filter (\<lambda>x. x \<noteq> i) (tracked m k)"
  by (simp add: tracked_def untrack_container_def hm_get_values_mut split: option.split)

lemma broker_inv_audit [simp]: "broker_inv p b \<Longrightarrow> broker_inv p (audit now a c ow ci ok e b)"
  by (simp add: broker_inv_def) (auto simp: audit_def Let_def)

lemma broker_inv_docker [simp]: "broker_inv p (b\<lparr>br_docker := d\<rparr>) \<longleftrightarrow> broker_inv p b"
  by (simp add: broker_inv_def)

lemma broker_inv_new: "broker_inv p (broker_with_policy p d)"
  by (simp add: broker_inv_def broker_with_policy_def)

lemma broker_inv_untrack:
  assumes "broker_inv p b"
  shows "broker_inv p (b\<lparr>br_by_challenge := untrack_container i (br_by_challenge b), br_by_owner := untrack_container i (br_by_owner b)\<rparr>)"
proof -
  have "length (tracked (untrack_container i m) k) \<le> length (tracked m k)" for m k by (simp add: tracked_untrack)
  then show ?thesis using assms by (simp add: broker_inv_def) (meson le_trans)
qed

lemma broker_inv_checks:
  assumes "create_checks E now config request_id b = (r, b1)" and "broker_inv p b"
  shows "broker_inv p b1"
proof -
  obtain q b2 where img: "ensure_image E b (ct_image config) = (q, b2)" by fastforce
  have "broker_inv p b2" using assms(2) ensure_image_frame(1-4) [OF img] by (simp add: broker_inv_def)
  then show ?thesis using assms img by (auto simp: create_checks_def split: sum.splits)
qed

lemma broker_inv_create:
  assumes "create_container E now uuid config request_id b = Some (r, b')" and "broker_inv p b"
  shows "broker_inv p b'"
proof -
  obtain q b1 where checks: "create_checks E now config request_id b = (q, b1)" by fastforce
  have b1: "broker_inv p b1" by (rule broker_inv_checks [OF checks assms(2)])
  show ?thesis
  proof (cases q)
    case (Some r1)
    then show ?thesis using assms(1) checks b1 by (simp add: create_container_def)
  next
    case None
    note room = create_checks_passed(2,3) [OF checks [unfolded None]]
    have "broker_inv p (b1\<lparr>br_docker := d,
        br_by_challenge := track_container (br_by_challenge b1) (ct_challenge_id config) i,
        br_by_owner := track_container (br_by_owner b1) (ct_owner_id config) i\<rparr>)" for d i
      using b1 room by (auto simp: broker_inv_def tracked_track Suc_le_eq)
    then show ?thesis
      using assms(1) checks None b1
      by (auto simp: create_container_def create_finish_def Let_def split: prod.splits sum.splits if_splits)
  qed
qed

lemma broker_inv_build: "broker_inv p b \<Longrightarrow> broker_inv p (snd (build_progress E now rid logs i b rs))"
  by (induction E now rid logs i b rs rule: build_progress.induct) (auto simp: Let_def split: sum.splits option.splits)

lemma broker_inv_exec: "broker_inv p b \<Longrightarrow> run_exec E i b = (r, b1) \<Longrightarrow> broker_inv p b1"
  by (auto simp: run_exec_def Let_def split: prod.splits sum.splits option.splits)

lemma broker_inv_others:
  assumes "broker_inv p b"
  shows "broker_inv p (snd (start_container E i rid b))" "broker_inv p (snd (stop_container E i t rid b))"
    "broker_inv p (snd (remove_container E i f rid b))" "broker_inv p (snd (exec_in_container E to ms i c w t rid b))"
    "broker_inv p (snd (pull_image E now img rid b))" "broker_inv p (snd (build_image E now tag df ctx rid b))"
    "broker_inv p (snd (copy_to_container E i q x rid b))"
proof -
  show "broker_inv p (snd (start_container E i rid b))"
    using assms by (auto simp: start_container_def Let_def split: prod.splits option.splits)
  show "broker_inv p (snd (stop_container E i t rid b))"
    using assms by (auto simp: stop_container_def Let_def split: prod.splits option.splits)
  show "broker_inv p (snd (remove_container E i f rid b))"
    using assms broker_inv_untrack [of p "b\<lparr>br_docker := d\<rparr>" i for d]
    by (auto simp: remove_container_def Let_def split: prod.splits option.splits)
  show "broker_inv p (snd (exec_in_container E to ms i c w t rid b))"
    using assms broker_inv_exec [of p "b\<lparr>br_docker := d\<rparr>" E for d]
    by (auto simp: exec_in_container_def Let_def split: prod.splits sum.splits)
  show "broker_inv p (snd (pull_image E now img rid b))"
    using assms by (auto simp: pull_image_def Let_def split: prod.splits option.splits sum.splits)
  show "broker_inv p (snd (build_image E now tag df ctx rid b))"
    using assms by (auto simp: build_image_def Let_def broker_inv_build split: prod.splits sum.splits)
  show "broker_inv p (snd (copy_to_container E i q x rid b))"
    using assms by (auto simp: copy_to_container_def Let_def split: prod.splits option.splits sum.splits tar_result.splits)
qed

text \<open>A request that panics ends its task and leaves the tracked state as it was.\<close>

definition broker_step :: "'d broker_env \<Rightarrow> 'd broker \<Rightarrow> request_ctx \<times> Request \<Rightarrow> 'd broker" where
  "broker_step E b xr = (case handle_request E (fst xr) (snd xr) b of Some (_, b') \<Rightarrow> b' | None \<Rightarrow> b)"

lemma broker_inv_step:
  assumes "broker_inv p b"
  shows "broker_inv p (broker_step E b xr)"
proof (cases "handle_request E (fst xr) (snd xr) b")
  case (Some rb)
  then obtain r b' where step: "handle_request E (fst xr) (snd xr) b = Some (r, b')" by (metis surj_pair)
  have "broker_inv p b'"
    by (rule handle_request_keeps [OF step, where Q = "broker_inv p"])
      (use assms broker_inv_create in \<open>auto intro: broker_inv_others\<close>)
  with step show ?thesis by (simp add: broker_step_def)
qed (use assms in \<open>simp add: broker_step_def\<close>)

interpretation broker: machine "broker_step E" "broker_inv p" for E p
  by unfold_locales (rule broker_inv_step)

section \<open>Answers\<close>

definition is_created :: "Response \<Rightarrow> bool" where
  "is_created r = (case r of RsCreated _ _ _ \<Rightarrow> True | _ \<Rightarrow> False)"

text \<open>An answer to the request that does not announce a new container.\<close>

definition answers :: "string \<Rightarrow> Response \<Rightarrow> bool" where
  "answers rid r \<longleftrightarrow> Response_request_id r = rid \<and> \<not> is_created r"

lemma build_progress_answers: "answers rid (fst (build_progress E now rid logs i b rs))"
  by (induction E now rid logs i b rs rule: build_progress.induct)
    (auto simp: Let_def response_error_def answers_def is_created_def split: sum.splits option.splits)

lemma create_container_id:
  "create_container E now uuid config rid b = Some (r, b') \<Longrightarrow> Response_request_id r = rid"
  by (auto simp: create_container_def create_checks_def create_finish_def Let_def response_error_def
      split: sum.splits prod.splits option.splits if_splits)

lemma handlers_answer:
  shows "answers rid (fst (start_container E i rid b))" "answers rid (fst (stop_container E i t rid b))"
    "answers rid (fst (remove_container E i f rid b))" "answers rid (fst (exec_in_container E to ms i c w t rid b))"
    "answers rid (inspect_container E now i rid b)" "answers rid (list_containers E now ch ow rid b)"
    "answers rid (get_logs E i n rid b)" "answers rid (fst (pull_image E now img rid b))"
    "answers rid (fst (build_image E now tag df ctx rid b))" "answers rid (copy_from_container E i p rid b)"
    "answers rid (fst (copy_to_container E i p x rid b))"
  by (simp_all add: start_container_def stop_container_def remove_container_def exec_in_container_def inspect_container_def
      list_containers_def get_logs_def pull_image_def build_image_def copy_from_container_def copy_to_container_def
      response_error_def Let_def build_progress_answers
      split: option.split sum.split prod.split tar_result.split tar_entry.split)
    (simp_all add: answers_def is_created_def)

lemma handle_request_answers:
  assumes "handle_request E x request b = Some (r, b')"
  shows "(\<exists>config. request = RqCreate config (Response_request_id r)) \<or> answers (Request_request_id request) r"
proof -
  have pick: "answers rid r" if "f = (r, b')" "answers rid (fst f)" for f rid using that by simp
  show ?thesis
    using assms
    by (cases request)
      (auto simp: handle_request_def handlers_answer create_container_id answers_def [of _ "RsPong _ _"] is_created_def
        intro!: pick intro: handlers_answer)
qed

lemma created_tracked:
  assumes "create_container E now uuid config rid' b = Some (RsCreated i name rid, b')"
  shows "br_by_challenge b' = track_container (br_by_challenge b) (ct_challenge_id config) i"
proof -
  obtain q b1 where checks: "create_checks E now config rid' b = (q, b1)" by fastforce
  have no_created: "q \<noteq> Some (RsCreated i name rid)"
    using checks by (auto simp: create_checks_def response_error_def split: sum.splits prod.splits)
  then have "q = None" using assms checks by (cases q) (auto simp: create_container_def)
  then show ?thesis
    using assms checks create_checks_frame(2) [OF checks]
    by (auto simp: create_container_def create_finish_def Let_def response_error_def split: prod.splits sum.splits if_splits)
qed

section \<open>Sessions\<close>

text \<open>The open connections of the server, in the order they were accepted, beside the counts it keeps.\<close>

record ws_server =
  wv_counts :: ws_counts
  wv_open :: "WsConnection list"

datatype ws_event = WsOpen "string option" | WsClose nat

fun ws_step :: "ws_env \<Rightarrow> WsConfig \<Rightarrow> ws_server \<Rightarrow> ws_event \<Rightarrow> ws_server" where
  "ws_step W config s (WsOpen message) =
     (let (_, conn, counts) = ws_open W config message (wv_counts s)
      in s\<lparr>wv_counts := counts, wv_open := wv_open s @ (case conn of Some c \<Rightarrow> [c] | None \<Rightarrow> [])\<rparr>)"
| "ws_step W config s (WsClose i) =
     (if i < length (wv_open s)
      then s\<lparr>wv_counts := ws_close (wv_open s ! i) (wv_counts s), wv_open := take i (wv_open s) @ drop (Suc i) (wv_open s)\<rparr>
      else s)"

definition count_of :: "ws_counts \<Rightarrow> string \<Rightarrow> usize" where
  "count_of m c = (case hm_get m c of Some n \<Rightarrow> n | None \<Rightarrow> 0)"

definition open_for :: "WsConnection list \<Rightarrow> string \<Rightarrow> nat" where
  "open_for conns c = length (filter (\<lambda>k. cn_challenge_id k = c) conns)"

definition ws_inv :: "WsConfig \<Rightarrow> ws_server \<Rightarrow> bool" where
  "ws_inv config s \<longleftrightarrow>
     (ws_jwt_secret config \<noteq> None \<longrightarrow>
        (\<forall>c. c \<noteq> '''' \<longrightarrow> count_of (wv_counts s) c = open_for (wv_open s) c) \<and>
        (\<forall>c. count_of (wv_counts s) c \<le> ws_max_connections_per_challenge config) \<and>
        (\<forall>k \<in> set (wv_open s). cn_authenticated k))"

lemma open_for_remove:
  assumes "i < length conns"
  shows "open_for (take i conns @ drop (Suc i) conns) c + (if cn_challenge_id (conns ! i) = c then 1 else 0) = open_for conns c"
proof -
  have "conns = take i conns @ conns ! i # drop (Suc i) conns" using assms by (rule id_take_nth_drop)
  then have "open_for conns c = open_for (take i conns @ conns ! i # drop (Suc i) conns) c" by simp
  then show ?thesis by (simp add: open_for_def)
qed

lemma ws_inv_open:
  assumes "ws_inv config s"
  shows "ws_inv config (ws_step W config s (WsOpen message))"
proof (cases "ws_jwt_secret config = None \<or> message = None")
  case True
  then show ?thesis using assms by (cases message) (auto simp: ws_inv_def ws_open_def Let_def split: prod.splits)
next
  case False
  then obtain m where m: "message = Some m" by auto
  show ?thesis
  proof (cases "authenticate W config m")
    case (Inl e)
    then show ?thesis using assms False m by (simp add: ws_open_def ws_inv_def)
  next
    case (Inr claims)
    let ?n = "count_of (wv_counts s) (wcl_challenge_id claims)"
    have le: "?n \<le> ws_max_connections_per_challenge config" using assms False by (simp add: ws_inv_def)
    have open_eq: "ws_open W config message (wv_counts s) =
        (if ?n \<ge> ws_max_connections_per_challenge config
         then (Some (RsError (PolicyViolation ''Too many connections'') ''auth''), None, hm_insert (wcl_challenge_id claims) ?n (wv_counts s))
         else (Some (RsPong ''authenticated'' ''auth''),
               Some \<lparr>cn_challenge_id = wcl_challenge_id claims, cn_owner_id = wcl_owner_id claims, cn_authenticated = True\<rparr>,
               hm_insert (wcl_challenge_id claims) (?n + 1) (wv_counts s)))"
      using False m Inr by (simp add: ws_open_def count_of_def Let_def)
    have ins: "count_of (hm_insert k n counts) c = (if c = k then n else count_of counts c)" for k n counts c
      by (simp add: count_of_def lookup_update)
    show ?thesis using assms le by (auto simp: open_eq ws_inv_def ins open_for_def)
  qed
qed

lemma ws_inv_close:
  assumes "ws_inv config s"
  shows "ws_inv config (ws_step W config s (WsClose i))"
proof (cases "i < length (wv_open s) \<and> ws_jwt_secret config \<noteq> None")
  case True
  let ?k = "wv_open s ! i"
  let ?rest = "take i (wv_open s) @ drop (Suc i) (wv_open s)"
  have auth: "cn_authenticated ?k" using assms True by (simp add: ws_inv_def)
  have closed: "count_of (ws_close ?k (wv_counts s)) c =
      (if c \<noteq> '''' \<and> c = cn_challenge_id ?k then count_of (wv_counts s) c - 1 else count_of (wv_counts s) c)" for c
    using auth by (simp add: ws_close_def count_of_def lookup_update split: option.split)
  have rest: "open_for ?rest c + (if cn_challenge_id ?k = c then 1 else 0) = open_for (wv_open s) c" for c
    using True open_for_remove by blast
  have "count_of (ws_close ?k (wv_counts s)) c = open_for ?rest c" if "c \<noteq> ''''" for c
    using assms True that closed [of c] rest [of c] by (auto simp: ws_inv_def)
  moreover have "count_of (ws_close ?k (wv_counts s)) c \<le> ws_max_connections_per_challenge config" for c
  proof -
    have "count_of (wv_counts s) c \<le> ws_max_connections_per_challenge config" using assms True by (simp add: ws_inv_def)
    then show ?thesis using closed [of c] by auto
  qed
  moreover have "\<forall>c \<in> set ?rest. cn_authenticated c"
    using assms True by (auto simp: ws_inv_def dest: in_set_takeD in_set_dropD)
  ultimately show ?thesis using True by (simp add: ws_inv_def)
qed (use assms in \<open>auto simp: ws_inv_def\<close>)

lemma ws_inv_step: "ws_inv config s \<Longrightarrow> ws_inv config (ws_step W config s e)"
  using ws_inv_open ws_inv_close by (cases e) auto

interpretation ws: machine "ws_step W config" "ws_inv config" for W config
  by unfold_locales (rule ws_inv_step)

section \<open>A daemon that records what it is asked to create\<close>

definition recording_docker :: "DockerConfig list docker" where
  "recording_docker =
     \<lparr>dk_error_string = (\<lambda>_. ''error''), dk_inspect_image = (\<lambda>_ _. None), dk_create_image = (\<lambda>d _. ([], d)),
      dk_create_container = (\<lambda>d _ c. (Inr ''0123456789abcdef'', d @ [c])), dk_start_container = (\<lambda>d _. (None, d)),
      dk_stop_container = (\<lambda>d _ _. (None, d)), dk_remove_container = (\<lambda>d _ _. (None, d)),
      dk_inspect_container = (\<lambda>_ _. Inl (DockerOther ''x'')), dk_list_containers = (\<lambda>_ _. Inr []), dk_logs = (\<lambda>_ _ _. []),
      dk_create_exec = (\<lambda>d _ _ _. (Inr ''e'', d)), dk_start_exec = (\<lambda>d _. (Inr None, d)), dk_inspect_exec = (\<lambda>_ _. Inr None),
      dk_build_image = (\<lambda>d _ _. ([], d)), dk_download = (\<lambda>_ _ _. []), dk_upload = (\<lambda>d _ _ _. (None, d)),
      dk_list_networks = (\<lambda>_. Inr []), dk_create_network = (\<lambda>d _. (None, d))\<rparr>"

definition recording_env :: "DockerConfig list broker_env" where
  "recording_env =
     \<lparr>be_text = sample_text, be_version = ''0.1.0'', be_docker = recording_docker, be_base64_decode = (\<lambda>_. Inr []),
      be_base64_encode = (\<lambda>_. ''''), be_tar_file = (\<lambda>_ _ _. TarOk []), be_tar_first = (\<lambda>_. TarNoEntry), be_parse_rfc3339 = (\<lambda>_. None)\<rparr>"

definition sample_ctx :: request_ctx where
  "sample_ctx = \<lparr>rc_now = 7, rc_uuid = ''123e4567-e89b'', rc_timed_out = False, rc_duration_ms = 0\<rparr>"

definition sample_broker :: "DockerConfig list broker" where
  "sample_broker = broker_with_policy SecurityPolicy_default []"

text \<open>Messages that are taken as the token, the challenge and the owner at once.\<close>

definition sample_ws :: ws_env where
  "sample_ws =
     \<lparr>we_auth_message = Inr, we_jwt_decode = (\<lambda>_ t. Inr (token_claims 0 t t 60)), we_jwt_decode_unverified = (\<lambda>t. Inr (token_claims 0 t t 60)),
      we_decode_request = (\<lambda>m. Inr (RqCreate sample_container m))\<rparr>"

definition sample_ws_config :: WsConfig where
  "sample_ws_config = WsConfig_default (Some ''secret'')"

definition sample_connection :: WsConnection where
  "sample_connection = \<lparr>cn_challenge_id = ''c'', cn_owner_id = ''o'', cn_authenticated = True\<rparr>"

lemma recording_keeps: "docker_keeps (be_docker recording_env) I"
  by (simp add: docker_keeps_def recording_docker_def recording_env_def)

section \<open>Properties\<close>



text \<open>
  C26. The tracked containers stay within the limits. Whatever requests the broker handles, one after the other, no challenge and
  no owner has more containers tracked than the policy allows, and the audit log has at most 10000 entries.
\<close>

theorem tracked_within_limits:
  assumes "b = foldl (broker_step E) (broker_with_policy p d) requests"
  shows "length (tracked (br_by_challenge b) challenge) \<le> sp_max_containers_per_challenge p \<and>
    length (tracked (br_by_owner b) owner) \<le> sp_max_containers_per_owner p \<and> length (br_audit_log b) \<le> 10000"
  using broker.run_inv [OF broker_inv_new [of p d], of E requests] assms by (simp add: broker_inv_def)

theorem tracked_within_limits_witness:
  "length (tracked (br_by_challenge (foldl (broker_step recording_env) sample_broker [(sample_ctx, RqCreate sample_container ''q'')])) ''c'') \<le> 100"
  using tracked_within_limits [OF refl, of recording_env SecurityPolicy_default "[]" "[(sample_ctx, RqCreate sample_container ''q'')]" "''c''"]
  by (simp add: sample_broker_def SecurityPolicy_default_def)

text \<open>
  Answers carry the identifier of their request, for every kind of request and on every path, errors included, so that a
  client can match them.
\<close>

theorem responses_correlated:
  assumes "handle_request E x request b = Some (r, b')"
  shows "Response_request_id r = Request_request_id request"
  using handle_request_answers [OF assms] by (auto simp: answers_def)

theorem responses_correlated_witness:
  "Response_request_id (fst (the (handle_request recording_env sample_ctx (RqPull ''alpine'' ''q7'') sample_broker))) = ''q7''"
proof -
  obtain r b' where "handle_request recording_env sample_ctx (RqPull ''alpine'' ''q7'') sample_broker = Some (r, b')"
    by (cases "pull_image recording_env (rc_now sample_ctx) ''alpine'' ''q7'' sample_broker") (simp add: handle_request_def)
  from responses_correlated [OF this] this show ?thesis by simp
qed

text \<open>
  Connections are counted exactly. On a server with a JWT secret, after any sequence of connections and closings, the count
  of every named challenge is the number of its open connections, and no count exceeds the configured maximum.
\<close>

theorem ws_connections_counted:
  assumes "ws_jwt_secret config \<noteq> None"
    and "s = foldl (ws_step W config) \<lparr>wv_counts = hm_new, wv_open = []\<rparr> events"
    and "challenge \<noteq> ''''"
  shows "count_of (wv_counts s) challenge = open_for (wv_open s) challenge \<and>
    open_for (wv_open s) challenge \<le> ws_max_connections_per_challenge config"
proof -
  have "ws_inv config \<lparr>wv_counts = hm_new, wv_open = []\<rparr>" by (simp add: ws_inv_def count_of_def open_for_def)
  then have "ws_inv config s" unfolding assms(2) by (rule ws.run_inv)
  then show ?thesis using assms(1,3) by (metis ws_inv_def)
qed

theorem ws_connections_counted_witness:
  "count_of (wv_counts (foldl (ws_step sample_ws sample_ws_config) \<lparr>wv_counts = hm_new, wv_open = []\<rparr>
     [WsOpen (Some ''c''), WsOpen (Some ''c''), WsClose 0])) ''c'' = 1"
proof -
  let ?s = "foldl (ws_step sample_ws sample_ws_config) \<lparr>wv_counts = hm_new, wv_open = []\<rparr>
     [WsOpen (Some ''c''), WsOpen (Some ''c''), WsClose 0]"
  have "ws_jwt_secret sample_ws_config \<noteq> None" by (simp add: sample_ws_config_def WsConfig_default_def)
  from ws_connections_counted [OF this refl, of "''c''" sample_ws "[WsOpen (Some ''c''), WsOpen (Some ''c''), WsClose 0]"]
  have "count_of (wv_counts ?s) ''c'' = open_for (wv_open ?s) ''c''" by simp
  moreover have "open_for (wv_open ?s) ''c'' = 1"
    by (simp add: ws_open_def authenticate_def sample_ws_def sample_ws_config_def WsConfig_default_def open_for_def Let_def
        requires_auth_def lookup_update token_claims_def)
  ultimately show ?thesis by simp
qed

text \<open>
  C27. A session creates containers of its own challenge only. When a message on a connection that is bound to a challenge creates
  a container, the container is tracked for that challenge, and no other challenge gains one.
\<close>

theorem session_creates_own_containers:
  assumes "process_request E W x message conn b = Some (RsCreated i name rid, b')" and "cn_challenge_id conn \<noteq> ''''"
  shows "br_by_challenge b' = track_container (br_by_challenge b) (cn_challenge_id conn) i"
proof -
  obtain request where req: "we_decode_request W message = Inr request" "handle_request E x request b = Some (RsCreated i name rid, b')"
    and own: "\<And>c. Request_challenge_id request = Some c \<Longrightarrow> c = cn_challenge_id conn"
    using assms by (auto simp: process_request_def split: sum.splits option.splits if_splits)
  obtain config rid' where create: "request = RqCreate config rid'"
    using handle_request_answers [OF req(2)] by (auto simp: answers_def is_created_def)
  then have "create_container E (rc_now x) (rc_uuid x) config rid' b = Some (RsCreated i name rid, b')"
    using req(2) by (simp add: handle_request_def)
  from created_tracked [OF this] own create show ?thesis by simp
qed

lemma sample_create:
  "\<exists>b'. handle_request recording_env sample_ctx (RqCreate sample_container rid) sample_broker =
     Some (RsCreated ''0123456789ab'' (container_name_of recording_env ''123e4567-e89b'' sample_container) rid, b')"
  using sample_container_valid
  by (simp add: handle_request_def create_container_def create_checks_def create_finish_def recording_env_def sample_broker_def
      broker_with_policy_def ensure_image_def recording_docker_def check_container_limit_def check_owner_limit_def
      SecurityPolicy_default_def Let_def sample_ctx_def)

theorem session_creates_own_containers_witness:
  "\<exists>r b'. process_request recording_env sample_ws sample_ctx ''q'' sample_connection sample_broker = Some (r, b') \<and>
     br_by_challenge b' = track_container (br_by_challenge sample_broker) ''c'' ''0123456789ab''"
proof -
  obtain b' where "handle_request recording_env sample_ctx (RqCreate sample_container ''q'') sample_broker =
     Some (RsCreated ''0123456789ab'' (container_name_of recording_env ''123e4567-e89b'' sample_container) ''q'', b')"
    using sample_create by blast
  then have p: "process_request recording_env sample_ws sample_ctx ''q'' sample_connection sample_broker =
     Some (RsCreated ''0123456789ab'' (container_name_of recording_env ''123e4567-e89b'' sample_container) ''q'', b')"
    by (simp add: process_request_def sample_ws_def sample_connection_def sample_container_def)
  from session_creates_own_containers [OF p] show ?thesis using p by (simp add: sample_connection_def)
qed

section \<open>Gaps\<close>

text \<open>
  Sessions are only bound to their challenge when they create or list: every other request is handled as it is,
  whichever challenge the connection belongs to, also when the container is another challenge's.
\<close>

lemma session_commands_unbound:
  assumes "we_decode_request W message = Inr request" and "Request_challenge_id request = None"
  shows "process_request E W x message conn b = handle_request E x request b"
  using assms by (simp add: process_request_def)

text \<open>The limits are checked before the daemon is called: requests whose checks both pass first exceed them together.\<close>

lemma concurrent_creates_exceed:
  assumes "create_checks E now c1 r1 b = (None, b1)" and "create_checks E now c2 r2 b1 = (None, b2)"
    and "create_finish E now u1 c1 r1 b2 = Some (RsCreated i1 n1 q1, b3)" and "create_finish E now u2 c2 r2 b3 = Some (RsCreated i2 n2 q2, b4)"
    and "ct_challenge_id c1 = k" and "ct_challenge_id c2 = k"
    and "length (tracked (br_by_challenge b) k) + 1 = sp_max_containers_per_challenge (br_policy b)"
  shows "length (tracked (br_by_challenge b4) k) = sp_max_containers_per_challenge (br_policy b4) + 1"
proof -
  have finish: "br_by_challenge b'' = track_container (br_by_challenge b') (ct_challenge_id c) i \<and> br_policy b'' = br_policy b'"
    if "create_finish E now u c r b' = Some (RsCreated i n q, b'')" for u c r b' i n q b''
    using that by (auto simp: create_finish_def Let_def response_error_def split: prod.splits sum.splits if_splits)
  show ?thesis
    using finish [OF assms(3)] finish [OF assms(4)] create_checks_frame(1,2) [OF assms(1)] create_checks_frame(1,2) [OF assms(2)] assms(5-7)
    by (simp add: tracked_track)
qed

text \<open>A container removed by another of its names than the tracked one, its full identifier for one, stays tracked.\<close>

lemma removal_by_full_id_keeps_tracking:
  assumes "\<forall>i \<in> set (tracked m k). length i = 12" and "length full_id \<noteq> 12"
  shows "tracked (untrack_container full_id m) k = tracked m k"
  using assms by (auto simp: tracked_untrack filter_id_conv)

text \<open>Any image can be built under a tag of the allowed registry, which the policy then accepts as an image.\<close>

lemma built_tag_is_whitelisted:
  assumes "tag = ''ghcr.io/platformnetwork/'' @ name" and "is_ascii name"
  shows "str_starts_with tag ''ghcr.io/'' \<and> validate_image T strict_policy tag = Inr ()"
proof -
  have "is_ascii tag" using assms by (simp add: is_ascii_def)
  moreover have "is_ascii ''ghcr.io/platformnetwork/''" by (simp add: is_ascii_def)
  ultimately have "str_starts_with (to_lowercase (unicode_lower T) tag) (to_lowercase (unicode_lower T) ''ghcr.io/platformnetwork/'')"
    using assms(1) by (simp add: to_lowercase_def str_starts_with_iff)
  then show ?thesis
    using assms(1) by (simp add: validate_image_def strict_policy_def str_starts_with_def Let_def)
qed

end
