(* ===== verification/Core_State.thy ===== *)
theory Core_State
  imports Core_Types Text_Strings
begin

text \<open>
  The chain state of the crate \<^verbatim>\<open>platform-core\<close>: its types (\<^verbatim>\<open>core/src/types.rs\<close>), challenges
  (\<^verbatim>\<open>core/src/challenge.rs\<close>), the configurations and messages of the subnet owner (\<^verbatim>\<open>core/src/message.rs\<close>) and the
  state itself with every operation that changes it (\<^verbatim>\<open>core/src/state.rs\<close>).
\<close>

section \<open>Types\<close>

type_synonym Uuid = nat \<comment> \<open>128 bits\<close>

record CoreValidatorInfo =
  cvi_hotkey :: Hotkey
  cvi_stake :: u64
  cvi_is_active :: bool
  cvi_last_seen :: i64
  cvi_peer_id :: "string option"
  cvi_x25519_pubkey :: "string option"

definition CoreValidatorInfo_new :: "i64 \<Rightarrow> Hotkey \<Rightarrow> u64 \<Rightarrow> CoreValidatorInfo" where
  "CoreValidatorInfo_new now h stake =
     \<lparr>cvi_hotkey = h, cvi_stake = stake, cvi_is_active = True, cvi_last_seen = now, cvi_peer_id = None,
      cvi_x25519_pubkey = None\<rparr>"

definition as_tao :: "u64 \<Rightarrow> f64" where
  "as_tao stake = real (unat stake) / 1000000000"

record CoreNetworkConfig =
  cnc_subnet_id :: u16
  cnc_min_stake :: u64
  cnc_consensus_threshold :: f64
  cnc_block_time_ms :: u64
  cnc_max_validators :: usize
  cnc_evaluation_timeout_secs :: u64

definition CoreNetworkConfig_default :: CoreNetworkConfig where
  "CoreNetworkConfig_default =
     \<lparr>cnc_subnet_id = 100, cnc_min_stake = 1000000000, cnc_consensus_threshold = 1 / 2, cnc_block_time_ms = 12000,
      cnc_max_validators = 64, cnc_evaluation_timeout_secs = 300\<rparr>"

definition CoreNetworkConfig_production :: CoreNetworkConfig where
  "CoreNetworkConfig_production =
     \<lparr>cnc_subnet_id = 100, cnc_min_stake = 1000000000000, cnc_consensus_threshold = 1 / 2, cnc_block_time_ms = 12000,
      cnc_max_validators = 64, cnc_evaluation_timeout_secs = 3600\<rparr>"

record Score =
  sc_value :: f64
  sc_weight :: f64

definition Score_new :: "f64 \<Rightarrow> f64 \<Rightarrow> Score" where
  "Score_new v w = \<lparr>sc_value = max 0 (min 1 v), sc_weight = max 0 (min 1 w)\<rparr>"

definition weighted_value :: "Score \<Rightarrow> f64" where
  "weighted_value s = sc_value s * sc_weight s"

datatype JobStatus = JobPending | JobRunning | JobCompleted | JobFailed | JobTimeout

record Job =
  jb_id :: Uuid
  jb_challenge_id :: ChallengeId
  jb_agent_hash :: string
  jb_status :: JobStatus
  jb_created_at :: i64
  jb_assigned_validator :: "Hotkey option"
  jb_result :: "Score option"

definition Job_new :: "i64 \<Rightarrow> Uuid \<Rightarrow> ChallengeId \<Rightarrow> string \<Rightarrow> Job" where
  "Job_new now uuid challenge_id agent_hash =
     \<lparr>jb_id = uuid, jb_challenge_id = challenge_id, jb_agent_hash = agent_hash, jb_status = JobPending, jb_created_at = now,
      jb_assigned_validator = None, jb_result = None\<rparr>"

section \<open>Challenges\<close>

record CoreChallengeConfig =
  ccg_mechanism_id :: u8
  ccg_timeout_secs :: u64
  ccg_max_memory_mb :: u64
  ccg_max_cpu_secs :: u64
  ccg_emission_weight :: f64
  ccg_min_validators :: usize
  ccg_params_json :: string

definition CoreChallengeConfig_default :: CoreChallengeConfig where
  "CoreChallengeConfig_default =
     \<lparr>ccg_mechanism_id = 1, ccg_timeout_secs = 300, ccg_max_memory_mb = 512, ccg_max_cpu_secs = 60, ccg_emission_weight = 1,
      ccg_min_validators = 1, ccg_params_json = ''{}''\<rparr>"

definition config_with_mechanism :: "u8 \<Rightarrow> CoreChallengeConfig" where
  "config_with_mechanism mechanism_id = CoreChallengeConfig_default\<lparr>ccg_mechanism_id := mechanism_id\<rparr>"

record Challenge =
  ch_id :: ChallengeId
  ch_name :: string
  ch_description :: string
  ch_wasm_code :: bytes
  ch_code_hash :: string
  ch_owner :: Hotkey
  ch_config :: CoreChallengeConfig
  ch_created_at :: i64
  ch_updated_at :: i64
  ch_is_active :: bool

definition Challenge_new ::
  "platform \<Rightarrow> i64 \<Rightarrow> ChallengeId \<Rightarrow> string \<Rightarrow> string \<Rightarrow> bytes \<Rightarrow> Hotkey \<Rightarrow> CoreChallengeConfig \<Rightarrow> Challenge" where
  "Challenge_new P now fresh_id name description wasm_code owner config =
     \<lparr>ch_id = fresh_id, ch_name = name, ch_description = description, ch_wasm_code = wasm_code,
      ch_code_hash = hex_encode P (hash P wasm_code), ch_owner = owner, ch_config = config, ch_created_at = now,
      ch_updated_at = now, ch_is_active = True\<rparr>"

definition update_code :: "platform \<Rightarrow> i64 \<Rightarrow> Challenge \<Rightarrow> bytes \<Rightarrow> Challenge" where
  "update_code P now c wasm_code =
     c\<lparr>ch_code_hash := hex_encode P (hash P wasm_code), ch_wasm_code := wasm_code, ch_updated_at := now\<rparr>"

definition verify_code :: "platform \<Rightarrow> Challenge \<Rightarrow> bool" where
  "verify_code P c \<longleftrightarrow> hex_encode P (hash P (ch_wasm_code c)) = ch_code_hash c"

record ChallengeMeta =
  cmt_id :: ChallengeId
  cmt_name :: string
  cmt_description :: string
  cmt_code_hash :: string
  cmt_owner :: Hotkey
  cmt_config :: CoreChallengeConfig
  cmt_created_at :: i64
  cmt_updated_at :: i64
  cmt_is_active :: bool

definition meta_of :: "Challenge \<Rightarrow> ChallengeMeta" where
  "meta_of c =
     \<lparr>cmt_id = ch_id c, cmt_name = ch_name c, cmt_description = ch_description c, cmt_code_hash = ch_code_hash c,
      cmt_owner = ch_owner c, cmt_config = ch_config c, cmt_created_at = ch_created_at c, cmt_updated_at = ch_updated_at c,
      cmt_is_active = ch_is_active c\<rparr>"

section \<open>Configurations set by the subnet owner\<close>

record ChallengeContainerConfig =
  kc_challenge_id :: ChallengeId
  kc_name :: string
  kc_docker_image :: string
  kc_mechanism_id :: u8
  kc_emission_weight :: f64
  kc_timeout_secs :: u64
  kc_cpu_cores :: f64
  kc_memory_mb :: u64
  kc_gpu_required :: bool

definition ALLOWED_DOCKER_PREFIXES :: "string list" where
  "ALLOWED_DOCKER_PREFIXES = [''ghcr.io/platformnetwork/'', ''ghcr.io/PlatformNetwork/'']"

definition ChallengeContainerConfig_new :: "ChallengeId \<Rightarrow> string \<Rightarrow> string \<Rightarrow> u8 \<Rightarrow> f64 \<Rightarrow> ChallengeContainerConfig" where
  "ChallengeContainerConfig_new fresh_id name docker_image mechanism_id emission_weight =
     \<lparr>kc_challenge_id = fresh_id, kc_name = name, kc_docker_image = docker_image, kc_mechanism_id = mechanism_id,
      kc_emission_weight = emission_weight, kc_timeout_secs = 3600, kc_cpu_cores = 2, kc_memory_mb = 4096, kc_gpu_required = False\<rparr>"

definition with_resources :: "ChallengeContainerConfig \<Rightarrow> f64 \<Rightarrow> u64 \<Rightarrow> bool \<Rightarrow> ChallengeContainerConfig" where
  "with_resources c cpu_cores memory_mb gpu =
     c\<lparr>kc_cpu_cores := cpu_cores, kc_memory_mb := memory_mb, kc_gpu_required := gpu\<rparr>"

definition with_timeout :: "ChallengeContainerConfig \<Rightarrow> u64 \<Rightarrow> ChallengeContainerConfig" where
  "with_timeout c timeout_secs = c\<lparr>kc_timeout_secs := timeout_secs\<rparr>"

text \<open>The value of the environment variable \<^verbatim>\<open>DEVELOPMENT_MODE\<close> is the argument \<open>dev\<close>.\<close>

definition is_development_mode :: "string option \<Rightarrow> bool" where
  "is_development_mode dev \<longleftrightarrow> (case dev of Some v \<Rightarrow> v = ''true'' \<or> v = ''1'' | None \<Rightarrow> False)"

definition is_docker_image_allowed :: "text_env \<Rightarrow> string option \<Rightarrow> ChallengeContainerConfig \<Rightarrow> bool" where
  "is_docker_image_allowed T dev c \<longleftrightarrow>
     is_development_mode dev \<or>
     (let image_lower = to_lowercase (unicode_lower T) (kc_docker_image c)
      in list_ex (\<lambda>p. str_starts_with image_lower (to_lowercase (unicode_lower T) p)) ALLOWED_DOCKER_PREFIXES)"

definition validate_container_config :: "text_env \<Rightarrow> string option \<Rightarrow> ChallengeContainerConfig \<Rightarrow> string + unit" where
  "validate_container_config T dev c =
     (if str_trim T (kc_name c) = '''' then Inl ''Challenge name cannot be empty''
      else if str_trim T (kc_docker_image c) = '''' then Inl ''Docker image cannot be empty''
      else if \<not> is_docker_image_allowed T dev c
      then Inl (''Docker image '' @ quote (kc_docker_image c) @ '' is not from an allowed registry. '' @
                ''Only images from ghcr.io/platformnetwork/ are allowed.'')
      else if kc_emission_weight c < 0 \<or> kc_emission_weight c > 1
      then Inl (''Emission weight must be between 0.0 and 1.0, got '' @ show_f64 T (kc_emission_weight c))
      else if kc_timeout_secs c < 60 then Inl ''Timeout must be at least 60 seconds''
      else if kc_timeout_secs c > 86400 then Inl ''Timeout cannot exceed 24 hours (86400 seconds)''
      else if kc_cpu_cores c < 1 / 2 \<or> kc_cpu_cores c > 64
      then Inl (''CPU cores must be between 0.5 and 64, got '' @ show_f64 T (kc_cpu_cores c))
      else if kc_memory_mb c < 512 \<or> kc_memory_mb c > 131072
      then Inl (''Memory must be between 512MB and 128GB, got '' @ decimal (unat (kc_memory_mb c)) @ ''MB'')
      else Inr ())"

record MechanismWeightConfig =
  mwc_mechanism_id :: u8
  mwc_base_burn_rate :: f64
  mwc_equal_distribution :: bool
  mwc_min_weight_threshold :: f64
  mwc_max_weight_cap :: f64
  mwc_active :: bool

definition MechanismWeightConfig_new :: "u8 \<Rightarrow> MechanismWeightConfig" where
  "MechanismWeightConfig_new mechanism_id =
     \<lparr>mwc_mechanism_id = mechanism_id, mwc_base_burn_rate = 0, mwc_equal_distribution = True,
      mwc_min_weight_threshold = 1 / 10000, mwc_max_weight_cap = 1, mwc_active = True\<rparr>"

definition with_burn_rate :: "MechanismWeightConfig \<Rightarrow> f64 \<Rightarrow> MechanismWeightConfig" where
  "with_burn_rate c rate = c\<lparr>mwc_base_burn_rate := max 0 (min 1 rate)\<rparr>"

definition with_max_cap :: "MechanismWeightConfig \<Rightarrow> f64 \<Rightarrow> MechanismWeightConfig" where
  "with_max_cap c cap = c\<lparr>mwc_max_weight_cap := max 0 (min 1 cap)\<rparr>"

record ChallengeWeightAllocation =
  cwa_challenge_id :: ChallengeId
  cwa_mechanism_id :: u8
  cwa_weight_ratio :: f64
  cwa_active :: bool

definition ChallengeWeightAllocation_new :: "ChallengeId \<Rightarrow> u8 \<Rightarrow> f64 \<Rightarrow> ChallengeWeightAllocation" where
  "ChallengeWeightAllocation_new challenge_id mechanism_id weight_ratio =
     \<lparr>cwa_challenge_id = challenge_id, cwa_mechanism_id = mechanism_id, cwa_weight_ratio = max 0 (min 1 weight_ratio),
      cwa_active = True\<rparr>"

section \<open>The state\<close>

record RequiredVersion =
  rv_min_version :: string
  rv_recommended_version :: string
  rv_docker_image :: string
  rv_mandatory :: bool
  rv_deadline_block :: "u64 option"

record CoreState =
  co_block_height :: u64
  co_epoch :: u64
  co_config :: CoreNetworkConfig
  co_sudo_key :: Hotkey
  co_validators :: "(Hotkey, CoreValidatorInfo) hashmap"
  co_challenges :: "(ChallengeId, Challenge) hashmap"
  co_challenge_configs :: "(ChallengeId, ChallengeContainerConfig) hashmap"
  co_mechanism_configs :: "(u8, MechanismWeightConfig) hashmap"
  co_challenge_weights :: "(ChallengeId, ChallengeWeightAllocation) hashmap"
  co_required_version :: "RequiredVersion option"
  co_pending_jobs :: "Job list"
  co_state_hash :: bytes
  co_last_updated :: i64
  co_registered_hotkeys :: "Hotkey set"

definition CoreState_default :: "i64 \<Rightarrow> CoreState" where
  "CoreState_default now =
     \<lparr>co_block_height = 0, co_epoch = 0, co_config = CoreNetworkConfig_default, co_sudo_key = Hotkey zero_hash,
      co_validators = hm_new, co_challenges = hm_new, co_challenge_configs = hm_new, co_mechanism_configs = hm_new,
      co_challenge_weights = hm_new, co_required_version = None, co_pending_jobs = [], co_state_hash = zero_hash,
      co_last_updated = now, co_registered_hotkeys = {}\<rparr>"

definition core_hash_input :: "CoreState \<Rightarrow> serde" where
  "core_hash_input s =
     STuple [SU64 (co_block_height s), SBytes (hotkey_bytes (co_sudo_key s)), SUsize (hm_len (co_validators s)),
       SUsize (hm_len (co_challenges s)), SUsize (length (co_pending_jobs s))]"

definition core_update_hash :: "platform \<Rightarrow> i64 \<Rightarrow> CoreState \<Rightarrow> CoreState" where
  "core_update_hash P now s =
     s\<lparr>co_state_hash := (case hash_data P (core_hash_input s) of Inr h \<Rightarrow> h | Inl _ \<Rightarrow> zero_hash), co_last_updated := now\<rparr>"

definition CoreState_new :: "platform \<Rightarrow> i64 \<Rightarrow> Hotkey \<Rightarrow> CoreNetworkConfig \<Rightarrow> CoreState" where
  "CoreState_new P now sudo_key config =
     core_update_hash P now ((CoreState_default now)\<lparr>co_config := config, co_sudo_key := sudo_key\<rparr>)"

definition new_production :: "platform \<Rightarrow> i64 \<Rightarrow> CoreNetworkConfig \<Rightarrow> CoreState" where
  "new_production P now config = CoreState_new P now production_sudo_key config"

definition production_default :: "platform \<Rightarrow> i64 \<Rightarrow> CoreState" where
  "production_default P now = new_production P now CoreNetworkConfig_production"

definition core_is_sudo :: "CoreState \<Rightarrow> Hotkey \<Rightarrow> bool" where
  "core_is_sudo s h \<longleftrightarrow> co_sudo_key s = h"

definition core_add_validator ::
  "platform \<Rightarrow> i64 \<Rightarrow> CoreState \<Rightarrow> CoreValidatorInfo \<Rightarrow> (MiniChainError + unit) \<times> CoreState" where
  "core_add_validator P now s info =
     (if hm_len (co_validators s) \<ge> cnc_max_validators (co_config s) then (Inl (Consensus ''Max validators reached''), s)
      else if cvi_stake info < cnc_min_stake (co_config s) then (Inl (Consensus ''Insufficient stake''), s)
      else (Inr (), core_update_hash P now (s\<lparr>co_validators := hm_insert (cvi_hotkey info) info (co_validators s)\<rparr>)))"

definition core_remove_validator ::
  "platform \<Rightarrow> i64 \<Rightarrow> CoreState \<Rightarrow> Hotkey \<Rightarrow> CoreValidatorInfo option \<times> CoreState" where
  "core_remove_validator P now s h =
     (let removed = hm_get (co_validators s) h;
          s' = s\<lparr>co_validators := hm_remove h (co_validators s)\<rparr>
      in (removed, if removed \<noteq> None then core_update_hash P now s' else s'))"

definition core_get_validator :: "CoreState \<Rightarrow> Hotkey \<Rightarrow> CoreValidatorInfo option" where
  "core_get_validator s h = hm_get (co_validators s) h"

definition core_active_validators :: "CoreState \<Rightarrow> CoreValidatorInfo list" where
  "core_active_validators s = filter cvi_is_active (hm_values (co_validators s))"

definition core_total_stake :: "CoreState \<Rightarrow> u64" where
  "core_total_stake s = sum_list (map cvi_stake (core_active_validators s))"

definition core_consensus_threshold :: "CoreState \<Rightarrow> usize" where
  "core_consensus_threshold s =
     nat \<lceil>real (length (core_active_validators s)) * cnc_consensus_threshold (co_config s)\<rceil>"

definition core_add_challenge :: "platform \<Rightarrow> i64 \<Rightarrow> CoreState \<Rightarrow> Challenge \<Rightarrow> CoreState" where
  "core_add_challenge P now s c = core_update_hash P now (s\<lparr>co_challenges := hm_insert (ch_id c) c (co_challenges s)\<rparr>)"

definition core_remove_challenge :: "platform \<Rightarrow> i64 \<Rightarrow> CoreState \<Rightarrow> ChallengeId \<Rightarrow> Challenge option \<times> CoreState" where
  "core_remove_challenge P now s i =
     (let removed = hm_get (co_challenges s) i;
          s' = s\<lparr>co_challenges := hm_remove i (co_challenges s)\<rparr>
      in (removed, if removed \<noteq> None then core_update_hash P now s' else s'))"

definition core_get_challenge :: "CoreState \<Rightarrow> ChallengeId \<Rightarrow> Challenge option" where
  "core_get_challenge s i = hm_get (co_challenges s) i"

definition add_job :: "platform \<Rightarrow> i64 \<Rightarrow> CoreState \<Rightarrow> Job \<Rightarrow> CoreState" where
  "add_job P now s job = core_update_hash P now (s\<lparr>co_pending_jobs := co_pending_jobs s @ [job]\<rparr>)"

definition claim_job :: "platform \<Rightarrow> i64 \<Rightarrow> CoreState \<Rightarrow> Hotkey \<Rightarrow> Job option \<times> CoreState" where
  "claim_job P now s validator =
     (case position (\<lambda>j. jb_assigned_validator j = None) (co_pending_jobs s) of
        Some pos \<Rightarrow>
          let job = (co_pending_jobs s ! pos)\<lparr>jb_assigned_validator := Some validator, jb_status := JobRunning\<rparr>
          in (Some job, core_update_hash P now (s\<lparr>co_pending_jobs := remove_at pos (co_pending_jobs s)\<rparr>))
      | None \<Rightarrow> (None, s))"

definition increment_block :: "platform \<Rightarrow> i64 \<Rightarrow> CoreState \<Rightarrow> CoreState" where
  "increment_block P now s = core_update_hash P now (s\<lparr>co_block_height := co_block_height s + 1\<rparr>)"

record StateSnapshot =
  ss_block_height :: u64
  ss_state_hash :: bytes
  ss_validator_count :: usize
  ss_challenge_count :: usize
  ss_pending_jobs :: usize
  ss_timestamp :: i64

definition core_snapshot :: "CoreState \<Rightarrow> StateSnapshot" where
  "core_snapshot s =
     \<lparr>ss_block_height = co_block_height s, ss_state_hash = co_state_hash s, ss_validator_count = hm_len (co_validators s),
      ss_challenge_count = hm_len (co_challenges s), ss_pending_jobs = length (co_pending_jobs s), ss_timestamp = co_last_updated s\<rparr>"

section \<open>Sequences of operations\<close>

datatype core_event =
    CoAddValidator CoreValidatorInfo
  | CoRemoveValidator Hotkey
  | CoAddChallenge Challenge
  | CoRemoveChallenge ChallengeId
  | CoAddJob Job
  | CoClaimJob Hotkey
  | CoIncrementBlock

fun core_step :: "platform \<Rightarrow> CoreState \<Rightarrow> i64 \<times> core_event \<Rightarrow> CoreState" where
  "core_step P s (now, CoAddValidator info) = snd (core_add_validator P now s info)"
| "core_step P s (now, CoRemoveValidator h) = snd (core_remove_validator P now s h)"
| "core_step P s (now, CoAddChallenge c) = core_add_challenge P now s c"
| "core_step P s (now, CoRemoveChallenge i) = snd (core_remove_challenge P now s i)"
| "core_step P s (now, CoAddJob job) = add_job P now s job"
| "core_step P s (now, CoClaimJob h) = snd (claim_job P now s h)"
| "core_step P s (now, CoIncrementBlock) = increment_block P now s"

text \<open>The invariant of a state made with a configuration.\<close>

definition core_hash_of :: "platform \<Rightarrow> CoreState \<Rightarrow> bytes" where
  "core_hash_of P s = (case hash_data P (core_hash_input s) of Inr h \<Rightarrow> h | Inl _ \<Rightarrow> zero_hash)"

definition core_validators_ok :: "CoreNetworkConfig \<Rightarrow> CoreState \<Rightarrow> bool" where
  "core_validators_ok config s \<longleftrightarrow>
     co_config s = config \<and> hm_len (co_validators s) \<le> cnc_max_validators config \<and>
     (\<forall>h v. hm_get (co_validators s) h = Some v \<longrightarrow> cvi_hotkey v = h \<and> cnc_min_stake config \<le> cvi_stake v)"

definition core_inv :: "platform \<Rightarrow> CoreNetworkConfig \<Rightarrow> CoreState \<Rightarrow> bool" where
  "core_inv P config s \<longleftrightarrow> co_state_hash s = core_hash_of P s \<and> core_validators_ok config s"

lemma core_update_hash_frame [simp]:
  "co_validators (core_update_hash P now s) = co_validators s" "co_config (core_update_hash P now s) = co_config s"
  "co_pending_jobs (core_update_hash P now s) = co_pending_jobs s" "co_sudo_key (core_update_hash P now s) = co_sudo_key s"
  "co_challenges (core_update_hash P now s) = co_challenges s" "co_block_height (core_update_hash P now s) = co_block_height s"
  by (simp_all add: core_update_hash_def)

lemma core_hash_current [simp]: "co_state_hash (core_update_hash P now s) = core_hash_of P (core_update_hash P now s)"
  by (simp add: core_update_hash_def core_hash_of_def core_hash_input_def)

lemma core_inv_update_hash [simp]: "core_inv P config (core_update_hash P now s) \<longleftrightarrow> core_validators_ok config s"
  by (simp add: core_inv_def core_validators_ok_def)

lemma core_validators_ok_frame [simp]:
  "core_validators_ok config (s\<lparr>co_challenges := c\<rparr>) \<longleftrightarrow> core_validators_ok config s"
  "core_validators_ok config (s\<lparr>co_pending_jobs := js\<rparr>) \<longleftrightarrow> core_validators_ok config s"
  "core_validators_ok config (s\<lparr>co_block_height := n\<rparr>) \<longleftrightarrow> core_validators_ok config s"
  by (simp_all add: core_validators_ok_def)

lemma core_validators_ok_insert:
  assumes "core_validators_ok config s" and "hm_len (co_validators s) < cnc_max_validators config"
    and "cnc_min_stake config \<le> cvi_stake info"
  shows "core_validators_ok config (s\<lparr>co_validators := hm_insert (cvi_hotkey info) info (co_validators s)\<rparr>)"
  using assms by (auto simp: core_validators_ok_def lookup_update hm_len_insert split: if_splits)

lemma core_validators_ok_remove:
  assumes "core_validators_ok config s"
  shows "core_validators_ok config (s\<lparr>co_validators := hm_remove h (co_validators s)\<rparr>)"
  using assms by (auto simp: core_validators_ok_def lookup_delete hm_len_remove split: if_splits)

lemma core_inv_ok: "core_inv P config s \<Longrightarrow> core_validators_ok config s"
  by (simp add: core_inv_def)

lemma core_inv_step:
  assumes "core_inv P config s"
  shows "core_inv P config (core_step P s e)"
proof -
  note ok = core_inv_ok [OF assms]
  obtain now ev where e: "e = (now, ev)" by fastforce
  show ?thesis
  proof (cases ev)
    case (CoAddValidator info)
    have "co_config s = config" using ok by (simp add: core_validators_ok_def)
    then show ?thesis
      using assms ok core_validators_ok_insert [OF ok, of info] by (simp add: e CoAddValidator core_add_validator_def not_le not_less)
  next
    case (CoRemoveValidator h)
    then show ?thesis
      using assms ok core_validators_ok_remove [OF ok, of h]
      by (cases "hm_get (co_validators s) h") (simp_all add: e core_remove_validator_def Let_def hm_remove_absent hm_contains_def)
  next
    case (CoRemoveChallenge i)
    then show ?thesis
      using assms ok by (cases "hm_get (co_challenges s) i") (simp_all add: e core_remove_challenge_def Let_def hm_remove_absent hm_contains_def)
  qed (use assms ok in \<open>auto simp: e core_add_challenge_def add_job_def increment_block_def claim_job_def Let_def split: option.split\<close>)
qed

interpretation core: machine "core_step P" "core_inv P config" for P config
  by unfold_locales (rule core_inv_step)

lemma core_inv_new: "core_inv P config (CoreState_new P now sudo config)"
  by (simp add: CoreState_new_def core_validators_ok_def CoreState_default_def)

section \<open>Jobs\<close>

text \<open>The jobs added and the jobs handed out, in order, beside the state.\<close>

record job_run =
  jr_state :: CoreState
  jr_added :: "Uuid list"
  jr_claimed :: "Uuid list"

definition claimed_id :: "platform \<Rightarrow> CoreState \<Rightarrow> i64 \<times> core_event \<Rightarrow> Uuid list" where
  "claimed_id P s e =
     (case snd e of
        CoClaimJob h \<Rightarrow> (case fst (claim_job P (fst e) s h) of Some job \<Rightarrow> [jb_id job] | None \<Rightarrow> [])
      | _ \<Rightarrow> [])"

definition added_id :: "i64 \<times> core_event \<Rightarrow> Uuid list" where
  "added_id e = (case snd e of CoAddJob job \<Rightarrow> [jb_id job] | _ \<Rightarrow> [])"

definition job_step :: "platform \<Rightarrow> job_run \<Rightarrow> i64 \<times> core_event \<Rightarrow> job_run" where
  "job_step P r e =
     \<lparr>jr_state = core_step P (jr_state r) e, jr_added = jr_added r @ added_id e,
      jr_claimed = jr_claimed r @ claimed_id P (jr_state r) e\<rparr>"

definition fresh_jobs :: "Job list \<Rightarrow> bool" where
  "fresh_jobs js \<longleftrightarrow> list_all (\<lambda>j. jb_assigned_validator j = None) js"

definition fresh_event :: "i64 \<times> core_event \<Rightarrow> bool" where
  "fresh_event e \<longleftrightarrow> (case snd e of CoAddJob job \<Rightarrow> jb_assigned_validator job = None | _ \<Rightarrow> True)"

definition jobs_in_order :: "job_run \<Rightarrow> bool" where
  "jobs_in_order r \<longleftrightarrow>
     fresh_jobs (co_pending_jobs (jr_state r)) \<and>
     jr_claimed r @ map jb_id (co_pending_jobs (jr_state r)) = jr_added r"

lemma claim_job_fresh:
  assumes "fresh_jobs (co_pending_jobs s)"
  shows "co_pending_jobs (snd (claim_job P now s h)) = tl (co_pending_jobs s)"
    "(case fst (claim_job P now s h) of Some job \<Rightarrow> [jb_id job] | None \<Rightarrow> []) = map jb_id (take 1 (co_pending_jobs s))"
  using assms by (cases "co_pending_jobs s"; simp add: claim_job_def fresh_jobs_def remove_at_def Let_def)+

lemma jobs_in_order_step:
  assumes "jobs_in_order r" and "fresh_event e"
  shows "jobs_in_order (job_step P r e)"
proof -
  let ?s = "jr_state r"
  obtain now ev where e: "e = (now, ev)" by fastforce
  show ?thesis
  proof (cases ev)
    case (CoClaimJob h)
    have fresh: "fresh_jobs (co_pending_jobs ?s)" using assms(1) by (simp add: jobs_in_order_def)
    have "map jb_id (take 1 (co_pending_jobs ?s)) @ map jb_id (tl (co_pending_jobs ?s)) = map jb_id (co_pending_jobs ?s)"
      by (cases "co_pending_jobs ?s") auto
    moreover have "fresh_jobs (tl (co_pending_jobs ?s))" using fresh by (cases "co_pending_jobs ?s") (auto simp: fresh_jobs_def)
    ultimately show ?thesis
      using assms(1) claim_job_fresh [OF fresh, of P now h]
      by (simp add: jobs_in_order_def job_step_def e CoClaimJob claimed_id_def added_id_def)
  next
    case (CoAddJob job)
    then show ?thesis
      using assms by (simp add: jobs_in_order_def job_step_def e claimed_id_def added_id_def add_job_def fresh_jobs_def fresh_event_def)
  qed (use assms(1) in \<open>auto simp: jobs_in_order_def job_step_def e claimed_id_def added_id_def core_add_validator_def
      core_remove_validator_def core_add_challenge_def core_remove_challenge_def increment_block_def Let_def\<close>)
qed

lemma jobs_in_order_run:
  assumes "jobs_in_order r" and "list_all fresh_event es"
  shows "jobs_in_order (foldl (job_step P) r es)"
  using assms by (induction es arbitrary: r) (auto intro: jobs_in_order_step)

lemma job_run_state: "jr_state (foldl (job_step P) r es) = foldl (core_step P) (jr_state r) es"
  by (induction es arbitrary: r) (auto simp: job_step_def)

section \<open>Samples\<close>

definition sample_core_config :: CoreNetworkConfig where
  "sample_core_config = CoreNetworkConfig_default\<lparr>cnc_max_validators := 2, cnc_min_stake := 10\<rparr>"

definition sample_core :: CoreState where
  "sample_core = CoreState_new sample_platform 0 (Hotkey [9]) sample_core_config"

definition sample_job :: "Uuid \<Rightarrow> Job" where
  "sample_job i = Job_new 0 i 1 ''agent''"

definition sample_core_events :: "(i64 \<times> core_event) list" where
  "sample_core_events =
     [(1, CoAddValidator (CoreValidatorInfo_new 1 (Hotkey [1]) 10)), (2, CoAddValidator (CoreValidatorInfo_new 2 (Hotkey [2]) 9)),
      (3, CoAddJob (sample_job 5)), (4, CoAddJob (sample_job 6)), (5, CoClaimJob (Hotkey [1])), (6, CoIncrementBlock)]"

section \<open>Properties\<close>

text \<open>
  C30. The core state stays valid. Whatever validators, challenges and jobs are added, removed or claimed, and whatever
  blocks pass, the recorded hash is the hash of the current state, there are at most the configured number of validators,
  and every validator is stored under its own hotkey with at least the minimal stake.
\<close>

theorem core_state_valid:
  assumes "s = foldl (core_step P) (CoreState_new P now sudo config) events"
  shows "co_state_hash s = core_hash_of P s \<and> hm_len (co_validators s) \<le> cnc_max_validators config \<and>
    (\<forall>h v. hm_get (co_validators s) h = Some v \<longrightarrow> cvi_hotkey v = h \<and> cnc_min_stake config \<le> cvi_stake v)"
  using core.run_inv [OF core_inv_new, of P config now sudo events] by (simp add: assms core_inv_def core_validators_ok_def)

theorem core_state_valid_witness:
  "hm_len (co_validators (foldl (core_step sample_platform) sample_core sample_core_events)) \<le> 2"
  using core_state_valid [OF refl, of sample_platform 0 "Hotkey [9]" sample_core_config sample_core_events]
  by (simp add: sample_core_def sample_core_config_def)

text \<open>
  C31. Jobs are handed out once, in order. When only unassigned jobs are added, the jobs claimed so far followed by the jobs
  still pending are the jobs added, in the order they were added, whatever else happens to the state in between.
\<close>

theorem jobs_claimed_once_in_order:
  assumes "list_all fresh_event events"
    and "r = foldl (job_step P) \<lparr>jr_state = CoreState_new P now sudo config, jr_added = [], jr_claimed = []\<rparr> events"
  shows "jr_claimed r @ map jb_id (co_pending_jobs (foldl (core_step P) (CoreState_new P now sudo config) events)) = jr_added r"
proof -
  have "jobs_in_order \<lparr>jr_state = CoreState_new P now sudo config, jr_added = [], jr_claimed = []\<rparr>"
    by (simp add: jobs_in_order_def CoreState_new_def CoreState_default_def fresh_jobs_def)
  from jobs_in_order_run [OF this assms(1), of P] show ?thesis
    by (simp add: jobs_in_order_def assms(2) job_run_state)
qed

theorem jobs_claimed_once_in_order_witness:
  "jr_claimed (foldl (job_step sample_platform) \<lparr>jr_state = sample_core, jr_added = [], jr_claimed = []\<rparr> sample_core_events) @ [6] = [5, 6]"
proof -
  have "list_all fresh_event sample_core_events"
    by (simp add: sample_core_events_def fresh_event_def sample_job_def Job_new_def)
  from jobs_claimed_once_in_order [OF this refl, of sample_platform 0 "Hotkey [9]" sample_core_config]
  have "jr_claimed (foldl (job_step sample_platform) \<lparr>jr_state = sample_core, jr_added = [], jr_claimed = []\<rparr> sample_core_events) @
      map jb_id (co_pending_jobs (foldl (core_step sample_platform) sample_core sample_core_events)) =
      jr_added (foldl (job_step sample_platform) \<lparr>jr_state = sample_core, jr_added = [], jr_claimed = []\<rparr> sample_core_events)"
    by (simp add: sample_core_def)
  moreover have "map jb_id (co_pending_jobs (foldl (core_step sample_platform) sample_core sample_core_events)) = [6]"
    by code_simp
  moreover have "jr_added (foldl (job_step sample_platform) \<lparr>jr_state = sample_core, jr_added = [], jr_claimed = []\<rparr> sample_core_events) = [5, 6]"
    by (simp add: sample_core_events_def job_step_def added_id_def sample_job_def Job_new_def)
  ultimately show ?thesis by simp
qed

text \<open>
  A container configuration is accepted exactly when its name and image are not blank, the image is of an allowed registry
  or development mode is on, and the emission weight, timeout, processor and memory are in their ranges.
\<close>

theorem container_config_accepted_iff:
  "validate_container_config T dev c = Inr () \<longleftrightarrow>
     str_trim T (kc_name c) \<noteq> '''' \<and> str_trim T (kc_docker_image c) \<noteq> '''' \<and> is_docker_image_allowed T dev c \<and>
     0 \<le> kc_emission_weight c \<and> kc_emission_weight c \<le> 1 \<and> 60 \<le> unat (kc_timeout_secs c) \<and> unat (kc_timeout_secs c) \<le> 86400 \<and>
     1 / 2 \<le> kc_cpu_cores c \<and> kc_cpu_cores c \<le> 64 \<and> 512 \<le> unat (kc_memory_mb c) \<and> unat (kc_memory_mb c) \<le> 131072"
  by (auto simp: validate_container_config_def word_less_nat_alt not_less split: if_splits)

text \<open>The limit on validators also stops the update of one that is already registered, once the set is full.\<close>

lemma full_set_rejects_update:
  assumes "hm_len (co_validators s) = cnc_max_validators (co_config s)" and "hm_contains (co_validators s) (cvi_hotkey info)"
  shows "core_add_validator P now s info = (Inl (Consensus ''Max validators reached''), s)"
  using assms by (simp add: core_add_validator_def)

end
