(* ===== verification/State_Versions.thy ===== *)
theory State_Versions
  imports Core_State
begin

text \<open>
  Saving and loading the core state across versions (\<^verbatim>\<open>core/src/state_versioning.rs\<close>) and the guard against unversioned
  changes of its layout (\<^verbatim>\<open>core/src/schema_guard.rs\<close>). The byte format is that of \<^verbatim>\<open>bincode\<close>: its encoders and decoders for the
  types involved are the record \<open>state_codec\<close>, and what the code relies on, that a decoder undoes its encoder, is the
  hypothesis \<open>codec_round_trips\<close>.
\<close>

section \<open>Versions of the state\<close>

definition CURRENT_STATE_VERSION :: u32 where
  "CURRENT_STATE_VERSION = 3"

definition MIN_SUPPORTED_VERSION :: u32 where
  "MIN_SUPPORTED_VERSION = 1"

record VersionedState =
  vst_version :: u32
  vst_data :: bytes

record ValidatorInfoLegacy =
  vl_hotkey :: Hotkey
  vl_stake :: u64
  vl_is_active :: bool
  vl_last_seen :: i64
  vl_peer_id :: "string option"

definition migrate_validator :: "ValidatorInfoLegacy \<Rightarrow> CoreValidatorInfo" where
  "migrate_validator v =
     \<lparr>cvi_hotkey = vl_hotkey v, cvi_stake = vl_stake v, cvi_is_active = vl_is_active v, cvi_last_seen = vl_last_seen v,
      cvi_peer_id = vl_peer_id v, cvi_x25519_pubkey = None\<rparr>"

record ChainStateV1 =
  v1_block_height :: u64
  v1_epoch :: u64
  v1_config :: CoreNetworkConfig
  v1_sudo_key :: Hotkey
  v1_validators :: "(Hotkey, ValidatorInfoLegacy) hashmap"
  v1_challenges :: "(ChallengeId, Challenge) hashmap"
  v1_challenge_configs :: "(ChallengeId, ChallengeContainerConfig) hashmap"
  v1_mechanism_configs :: "(u8, MechanismWeightConfig) hashmap"
  v1_challenge_weights :: "(ChallengeId, ChallengeWeightAllocation) hashmap"
  v1_required_version :: "RequiredVersion option"
  v1_pending_jobs :: "Job list"
  v1_state_hash :: bytes
  v1_last_updated :: i64

text \<open>Version 2 is version 1 with the registered hotkeys.\<close>

record ChainStateV2 = ChainStateV1 +
  v2_registered_hotkeys :: "Hotkey set"

definition collect_migrated :: "(Hotkey, ValidatorInfoLegacy) hashmap \<Rightarrow> (Hotkey, CoreValidatorInfo) hashmap" where
  "collect_migrated m = foldl (\<lambda>acc (k, v). hm_insert k (migrate_validator v) acc) hm_new (hm_iter m)"

definition migrate_v1 :: "ChainStateV1 \<Rightarrow> CoreState" where
  "migrate_v1 s =
     \<lparr>co_block_height = v1_block_height s, co_epoch = v1_epoch s, co_config = v1_config s, co_sudo_key = v1_sudo_key s,
      co_validators = collect_migrated (v1_validators s), co_challenges = v1_challenges s,
      co_challenge_configs = v1_challenge_configs s, co_mechanism_configs = v1_mechanism_configs s,
      co_challenge_weights = v1_challenge_weights s, co_required_version = v1_required_version s,
      co_pending_jobs = v1_pending_jobs s, co_state_hash = v1_state_hash s, co_last_updated = v1_last_updated s,
      co_registered_hotkeys = {}\<rparr>"

definition migrate_v2 :: "ChainStateV2 \<Rightarrow> CoreState" where
  "migrate_v2 s =
     \<lparr>co_block_height = v1_block_height s, co_epoch = v1_epoch s, co_config = v1_config s, co_sudo_key = v1_sudo_key s,
      co_validators = collect_migrated (v1_validators s), co_challenges = v1_challenges s,
      co_challenge_configs = v1_challenge_configs s, co_mechanism_configs = v1_mechanism_configs s,
      co_challenge_weights = v1_challenge_weights s, co_required_version = v1_required_version s,
      co_pending_jobs = v1_pending_jobs s, co_state_hash = v1_state_hash s, co_last_updated = v1_last_updated s,
      co_registered_hotkeys = v2_registered_hotkeys s\<rparr>"

section \<open>Saving and loading\<close>

record state_codec =
  enc_core :: "CoreState \<Rightarrow> string + bytes"
  dec_core :: "bytes \<Rightarrow> string + CoreState"
  dec_v1 :: "bytes \<Rightarrow> string + ChainStateV1"
  dec_v2 :: "bytes \<Rightarrow> string + ChainStateV2"
  enc_versioned :: "VersionedState \<Rightarrow> string + bytes"
  dec_versioned :: "bytes \<Rightarrow> string + VersionedState"

definition codec_round_trips :: "state_codec \<Rightarrow> bool" where
  "codec_round_trips C \<longleftrightarrow>
     (\<forall>s bs. enc_core C s = Inr bs \<longrightarrow> dec_core C bs = Inr s) \<and>
     (\<forall>v bs. enc_versioned C v = Inr bs \<longrightarrow> dec_versioned C bs = Inr v)"

definition from_state :: "state_codec \<Rightarrow> CoreState \<Rightarrow> MiniChainError + VersionedState" where
  "from_state C s =
     (case enc_core C s of
        Inl e \<Rightarrow> Inl (Serialization e)
      | Inr data \<Rightarrow> Inr \<lparr>vst_version = CURRENT_STATE_VERSION, vst_data = data\<rparr>)"

definition migrate_state :: "state_codec \<Rightarrow> u32 \<Rightarrow> bytes \<Rightarrow> MiniChainError + CoreState" where
  "migrate_state C version data =
     (if version = 1 then
        (case dec_v1 C data of
           Inl e \<Rightarrow> Inl (Serialization (''V1 migration failed: '' @ e))
         | Inr v1 \<Rightarrow> Inr (migrate_v1 v1))
      else if version = 2 then
        (case dec_v2 C data of
           Inl e \<Rightarrow> Inl (Serialization (''V2 migration failed: '' @ e))
         | Inr v2 \<Rightarrow> Inr (migrate_v2 v2))
      else Inl (Serialization (''Unknown state version: '' @ decimal (unat version))))"

definition into_state :: "state_codec \<Rightarrow> VersionedState \<Rightarrow> MiniChainError + CoreState" where
  "into_state C v =
     (if vst_version v = CURRENT_STATE_VERSION then
        (case dec_core C (vst_data v) of Inl e \<Rightarrow> Inl (Serialization e) | Inr s \<Rightarrow> Inr s)
      else if vst_version v \<ge> MIN_SUPPORTED_VERSION then migrate_state C (vst_version v) (vst_data v)
      else Inl (Serialization (''State version '' @ decimal (unat (vst_version v)) @ '' is too old (minimum supported: '' @
                  decimal (unat MIN_SUPPORTED_VERSION) @ '')'')))"

definition deserialize_state_smart :: "state_codec \<Rightarrow> bytes \<Rightarrow> MiniChainError + CoreState" where
  "deserialize_state_smart C data =
     (case dec_versioned C data of
        Inr versioned \<Rightarrow> into_state C versioned
      | Inl _ \<Rightarrow>
          case dec_core C data of
            Inr s \<Rightarrow> Inr s
          | Inl _ \<Rightarrow>
              case dec_v2 C data of
                Inr v2 \<Rightarrow> Inr (migrate_v2 v2)
              | Inl _ \<Rightarrow>
                  case dec_v1 C data of
                    Inr v1 \<Rightarrow> Inr (migrate_v1 v1)
                  | Inl _ \<Rightarrow> Inl (Serialization ''Failed to deserialize state: incompatible format''))"

definition serialize_state_versioned :: "state_codec \<Rightarrow> CoreState \<Rightarrow> MiniChainError + bytes" where
  "serialize_state_versioned C s =
     (case from_state C s of
        Inl e \<Rightarrow> Inl e
      | Inr v \<Rightarrow> (case enc_versioned C v of Inl e \<Rightarrow> Inl (Serialization e) | Inr bs \<Rightarrow> Inr bs))"

section \<open>The schema guard\<close>

unbundle bit_operations_syntax

definition fnv_step :: "u64 \<Rightarrow> u8 \<Rightarrow> u64" where
  "fnv_step h b = (h XOR ucast b) * 0x100000001b3"

definition const_hash :: "string \<Rightarrow> u64" where
  "const_hash s = foldl fnv_step 0xcbf29ce484222325 (as_bytes s)"

definition validator_info_schema :: string where
  "validator_info_schema =
     ''ValidatorInfo:hotkey:Hotkey,stake:Stake,is_active:bool,last_seen:DateTime,peer_id:Option<String>,x25519_pubkey:Option<String>''"

definition validator_info_schema_v1 :: string where
  "validator_info_schema_v1 =
     ''ValidatorInfo:hotkey:Hotkey,stake:Stake,is_active:bool,last_seen:DateTime,peer_id:Option<String>''"

definition chain_state_schema_v1 :: string where
  "chain_state_schema_v1 =
     ''ChainState:block_height:u64,epoch:u64,config:NetworkConfig,sudo_key:Hotkey,validators:HashMap<Hotkey,ValidatorInfo>,'' @
     ''challenges:HashMap<ChallengeId,Challenge>,challenge_configs:HashMap,mechanism_configs:HashMap,challenge_weights:HashMap,'' @
     ''required_version:Option,pending_jobs:Vec,state_hash:[u8;32],last_updated:DateTime''"

definition chain_state_schema :: string where
  "chain_state_schema = chain_state_schema_v1 @ '',registered_hotkeys:HashSet<Hotkey>''"

record SchemaRegistry =
  sr_version :: u32
  sr_validator_info_hash :: u64
  sr_chain_state_hash :: u64

datatype SchemaError =
    SchemaMismatch string u64 u64 u32 \<comment> \<open>type, expected, actual, version\<close>
  | MissingVersion u32

definition expected_schema_hashes :: "u32 \<Rightarrow> SchemaRegistry option" where
  "expected_schema_hashes v =
     (if v = 1 then Some \<lparr>sr_version = 1, sr_validator_info_hash = const_hash validator_info_schema_v1,
                          sr_chain_state_hash = const_hash chain_state_schema_v1\<rparr>
      else if v = 2 then Some \<lparr>sr_version = 2, sr_validator_info_hash = const_hash validator_info_schema_v1,
                               sr_chain_state_hash = const_hash chain_state_schema\<rparr>
      else if v = 3 then Some \<lparr>sr_version = 3, sr_validator_info_hash = const_hash validator_info_schema,
                               sr_chain_state_hash = const_hash chain_state_schema\<rparr>
      else None)"

definition compare_schema :: "u64 \<Rightarrow> u64 \<Rightarrow> SchemaError + unit" where
  "compare_schema validator_info_hash chain_state_hash =
     (case expected_schema_hashes CURRENT_STATE_VERSION of
        None \<Rightarrow> Inl (MissingVersion CURRENT_STATE_VERSION)
      | Some expected \<Rightarrow>
          if validator_info_hash \<noteq> sr_validator_info_hash expected
          then Inl (SchemaMismatch ''ValidatorInfo'' (sr_validator_info_hash expected) validator_info_hash CURRENT_STATE_VERSION)
          else if chain_state_hash \<noteq> sr_chain_state_hash expected
          then Inl (SchemaMismatch ''ChainState'' (sr_chain_state_hash expected) chain_state_hash CURRENT_STATE_VERSION)
          else Inr ())"

definition verify_schema_integrity :: "SchemaError + unit" where
  "verify_schema_integrity = compare_schema (const_hash validator_info_schema) (const_hash chain_state_schema)"

fun check_versions :: "u32 list \<Rightarrow> SchemaError + unit" where
  "check_versions [] = Inr ()"
| "check_versions (v # vs) = (if expected_schema_hashes v = None then Inl (MissingVersion v) else check_versions vs)"

definition verify_migration_paths :: "SchemaError + unit" where
  "verify_migration_paths =
     check_versions (map of_nat [unat MIN_SUPPORTED_VERSION ..< Suc (unat CURRENT_STATE_VERSION)])"

section \<open>Migrated validators\<close>

lemma foldl_insert_get:
  "distinct (map fst xs) \<Longrightarrow>
   hm_get (foldl (\<lambda>acc (k, v). hm_insert k (f v) acc) m xs) k =
     (case map_of xs k of Some v \<Rightarrow> Some (f v) | None \<Rightarrow> hm_get m k)"
proof (induction xs arbitrary: m)
  case (Cons x xs)
  then show ?case
    by (cases x) (auto simp: lookup_update split: option.splits dest: map_of_SomeD intro: rev_image_eqI)
qed simp

lemma collect_migrated_get: "hm_get (collect_migrated m) k = map_option migrate_validator (hm_get m k)"
  using foldl_insert_get [of "hm_iter m" migrate_validator hm_new k] hm_keys_distinct [of m]
  by (simp add: collect_migrated_def hm_get_iter hm_keys_def split: option.split)

section \<open>The hash detects single changes\<close>

text \<open>Multiplying by the odd FNV prime can be undone modulo \<open>2 ^ 64\<close>.\<close>

lemma fnv_prime_inverse: "(0x100000001b3 :: u64) * 0xce965057aff6957b = 1"
  by simp

lemma fnv_prime_cancel: "(x :: u64) * 0x100000001b3 = y * 0x100000001b3 \<longleftrightarrow> x = y"
proof
  assume "x * 0x100000001b3 = y * 0x100000001b3"
  then have "x * 0x100000001b3 * 0xce965057aff6957b = y * 0x100000001b3 * 0xce965057aff6957b" by simp
  then show "x = y" by (simp only: mult.assoc fnv_prime_inverse mult_1_right)
qed simp

lemma xor_cancel: "(x :: 'a :: len word) XOR c = y XOR c \<longleftrightarrow> x = y"
  by (metis xor.assoc xor_self_eq xor.right_neutral)

lemma fnv_step_state_inj: "fnv_step h b = fnv_step h' b \<longleftrightarrow> h = h'"
  by (simp add: fnv_step_def fnv_prime_cancel xor_cancel)

lemma fnv_step_byte_inj: "fnv_step h b = fnv_step h b' \<longleftrightarrow> b = b'"
proof -
  have "h XOR ucast b = h XOR ucast b' \<longleftrightarrow> (ucast b :: u64) = ucast b'" by (metis xor.commute xor_cancel)
  also have "\<dots> \<longleftrightarrow> b = b'"
  proof
    assume "(ucast b :: u64) = ucast b'"
    then have "(ucast (ucast b :: u64) :: u8) = ucast (ucast b' :: u64)" by (rule arg_cong)
    then show "b = b'" by (simp add: ucast_up_ucast_id is_up.rep_eq)
  qed simp
  finally show ?thesis by (simp add: fnv_step_def fnv_prime_cancel)
qed

lemma fnv_fold_inj: "foldl fnv_step h bs = foldl fnv_step h' bs \<longleftrightarrow> h = h'"
  by (induction bs arbitrary: h h') (simp_all add: fnv_step_state_inj)

section \<open>Samples\<close>

text \<open>
  A codec that has the documented behaviour: it marks the type in the first byte and keeps a table of two states.
\<close>

definition le_u32 :: "bytes \<Rightarrow> u32" where
  "le_u32 bs = of_nat (foldr (\<lambda>b n. unat b + 256 * n) (take 4 bs) 0)"

definition le_len :: "bytes \<Rightarrow> nat" where
  "le_len bs = foldr (\<lambda>b n. unat b + 256 * n) (take 8 bs) 0"

text \<open>The layout of \<open>VersionedState\<close> in \<^verbatim>\<open>bincode\<close>: four bytes of version, eight of length, the data; more bytes may follow.\<close>

definition bincode_versioned :: "bytes \<Rightarrow> string + VersionedState" where
  "bincode_versioned bs =
     (if length bs < 12 then Inl ''unexpected end of file''
      else let n = le_len (drop 4 bs); rest = drop 12 bs
           in if length rest < n then Inl ''unexpected end of file''
              else Inr \<lparr>vst_version = le_u32 bs, vst_data = take n rest\<rparr>)"

definition sample_state_codec :: state_codec where
  "sample_state_codec =
     \<lparr>enc_core = (\<lambda>s. if s = sample_core then Inr [7] else Inl ''unsupported''),
      dec_core = (\<lambda>bs. if bs = [7] then Inr sample_core else Inl ''invalid''),
      dec_v1 = (\<lambda>_. Inl ''invalid''), dec_v2 = (\<lambda>_. Inl ''invalid''),
      enc_versioned = (\<lambda>v. if v = \<lparr>vst_version = 3, vst_data = [7]\<rparr> then Inr [3, 0, 0, 0, 1, 0, 0, 0, 0, 0, 0, 0, 7] else Inl ''unsupported''),
      dec_versioned = bincode_versioned\<rparr>"

lemma sample_codec_round_trips: "codec_round_trips sample_state_codec"
  by (auto simp: codec_round_trips_def sample_state_codec_def bincode_versioned_def le_len_def le_u32_def split: if_splits)

definition sample_legacy_validator :: ValidatorInfoLegacy where
  "sample_legacy_validator = \<lparr>vl_hotkey = Hotkey [5], vl_stake = 7, vl_is_active = True, vl_last_seen = 0, vl_peer_id = None\<rparr>"

definition sample_v1 :: ChainStateV1 where
  "sample_v1 =
     \<lparr>v1_block_height = 12, v1_epoch = 1, v1_config = co_config sample_core, v1_sudo_key = Hotkey [1],
      v1_validators = hm_insert (Hotkey [5]) sample_legacy_validator hm_new, v1_challenges = hm_new, v1_challenge_configs = hm_new,
      v1_mechanism_configs = hm_new, v1_challenge_weights = hm_new, v1_required_version = None, v1_pending_jobs = [],
      v1_state_hash = [], v1_last_updated = 0\<rparr>"

section \<open>Properties\<close>

definition carried_over :: "ChainStateV1 \<Rightarrow> CoreState \<Rightarrow> bool" where
  "carried_over old s \<longleftrightarrow>
     co_block_height s = v1_block_height old \<and> co_epoch s = v1_epoch old \<and> co_config s = v1_config old \<and>
     co_sudo_key s = v1_sudo_key old \<and> co_challenges s = v1_challenges old \<and>
     co_challenge_configs s = v1_challenge_configs old \<and> co_mechanism_configs s = v1_mechanism_configs old \<and>
     co_challenge_weights s = v1_challenge_weights old \<and> co_required_version s = v1_required_version old \<and>
     co_pending_jobs s = v1_pending_jobs old \<and> co_state_hash s = v1_state_hash old \<and>
     (\<forall>h. hm_get (co_validators s) h = map_option migrate_validator (hm_get (v1_validators old) h))"

lemma migrate_v1_carries: "carried_over s (migrate_v1 s)" "co_registered_hotkeys (migrate_v1 s) = {}"
  by (simp_all add: carried_over_def migrate_v1_def collect_migrated_get)

lemma migrate_v2_carries:
  "carried_over (ChainStateV1.truncate s) (migrate_v2 s)" "co_registered_hotkeys (migrate_v2 s) = v2_registered_hotkeys s"
  by (simp_all add: carried_over_def migrate_v2_def collect_migrated_get ChainStateV1.truncate_def)

text \<open>
  C32. A saved state loads unchanged. For a codec whose decoders undo its encoders, what \<^verbatim>\<open>serialize_state_versioned\<close> writes,
  \<^verbatim>\<open>deserialize_state_smart\<close> reads back as the same state.
\<close>

theorem versioned_state_round_trip:
  assumes "codec_round_trips C" and "serialize_state_versioned C s = Inr bs"
  shows "deserialize_state_smart C bs = Inr s"
proof -
  obtain data where data: "enc_core C s = Inr data" and bs: "enc_versioned C \<lparr>vst_version = CURRENT_STATE_VERSION, vst_data = data\<rparr> = Inr bs"
    using assms(2) by (auto simp: serialize_state_versioned_def from_state_def split: sum.splits)
  have "dec_versioned C bs = Inr \<lparr>vst_version = CURRENT_STATE_VERSION, vst_data = data\<rparr>" "dec_core C data = Inr s"
    using assms(1) data bs by (auto simp: codec_round_trips_def)
  then show ?thesis by (simp add: deserialize_state_smart_def into_state_def)
qed

theorem versioned_state_round_trip_witness:
  "\<exists>bs. serialize_state_versioned sample_state_codec sample_core = Inr bs \<and> deserialize_state_smart sample_state_codec bs = Inr sample_core"
proof -
  have "serialize_state_versioned sample_state_codec sample_core = Inr [3, 0, 0, 0, 1, 0, 0, 0, 0, 0, 0, 0, 7]"
    by (simp add: serialize_state_versioned_def from_state_def sample_state_codec_def CURRENT_STATE_VERSION_def)
  with versioned_state_round_trip [OF sample_codec_round_trips this] show ?thesis by blast
qed





section \<open>Unversioned states of epoch zero\<close>

text \<open>
  A state saved without the version header starts with its height and its epoch, eight bytes each. At epoch 0 and a height below
  \<open>2 ^ 32\<close> these bytes also read as a version with empty data, so loading it fails, whatever the later strategies would
  make of it.
\<close>

definition le_bytes4 :: "nat \<Rightarrow> bytes" where
  "le_bytes4 n = map of_nat [n mod 256, n div 256 mod 256, n div 65536 mod 256, n div 16777216 mod 256]"

lemma unversioned_epoch_zero_fails:
  assumes "dec_versioned C = bincode_versioned" and "dec_core C [] = Inl e3" "dec_v2 C [] = Inl e2" "dec_v1 C [] = Inl e1"
    and "raw = le_bytes4 height @ [0, 0, 0, 0] @ [0, 0, 0, 0, 0, 0, 0, 0] @ rest"
  shows "\<exists>e. deserialize_state_smart C raw = Inl (Serialization e)"
proof -
  have "length (le_bytes4 height) = 4" by (simp add: le_bytes4_def)
  then have drop: "drop 4 raw = [0, 0, 0, 0] @ [0, 0, 0, 0, 0, 0, 0, 0] @ rest" using assms(5) by simp
  have "le_len (drop 4 raw) = 0" by (simp add: drop le_len_def)
  moreover have "12 \<le> length raw" using \<open>length (le_bytes4 height) = 4\<close> assms(5) by simp
  ultimately have "dec_versioned C raw = Inr \<lparr>vst_version = le_u32 raw, vst_data = []\<rparr>"
    by (simp add: assms(1) bincode_versioned_def Let_def)
  then show ?thesis
    using assms(2-4) by (simp add: deserialize_state_smart_def into_state_def migrate_state_def)
qed

end
