(* ===== verification/Core_Messages.thy ===== *)
theory Core_Messages
  imports Core_State
begin

text \<open>
  The messages of the core crate and their signed envelope (\<^verbatim>\<open>core/src/message.rs\<close>): handshakes with the version check, sudo
  actions, proposals and votes, job and evaluation messages, synchronisation, heartbeats, weight commitments and reveals. The
  serialisation of a message is \<^verbatim>\<open>bincode\<close>'s and a parameter.
\<close>

section \<open>Messages\<close>

record TaskProgressMessage =
  tp_challenge_id :: string
  tp_agent_hash :: string
  tp_evaluation_id :: string
  tp_task_id :: string
  tp_task_index :: u32
  tp_total_tasks :: u32
  tp_passed :: bool
  tp_score :: f64
  tp_execution_time_ms :: u64
  tp_cost_usd :: f64
  tp_error :: "string option"
  tp_validator_hotkey :: string
  tp_timestamp :: u64

definition TaskProgressMessage_new ::
    "i64 \<Rightarrow> string \<Rightarrow> string \<Rightarrow> string \<Rightarrow> string \<Rightarrow> u32 \<Rightarrow> u32 \<Rightarrow> bool \<Rightarrow> f64 \<Rightarrow> u64 \<Rightarrow> f64 \<Rightarrow> string option \<Rightarrow> string \<Rightarrow>
     TaskProgressMessage" where
  "TaskProgressMessage_new now challenge agent evaluation task index total_tasks passed score time cost err validator =
     \<lparr>tp_challenge_id = challenge, tp_agent_hash = agent, tp_evaluation_id = evaluation, tp_task_id = task, tp_task_index = index,
      tp_total_tasks = total_tasks, tp_passed = passed, tp_score = score, tp_execution_time_ms = time, tp_cost_usd = cost,
      tp_error = err, tp_validator_hotkey = validator, tp_timestamp = of_int now\<rparr>"

datatype ChallengeMessageType =
    EncryptedSubmission | SubmissionAck | KeyReveal | EvaluationResultType | RequestEvaluations | EvaluationsResponse
  | WeightResult | StorageWrite | StorageRequest | StorageResponse | StorageSync | CustomType string

record ChallengeNetworkMessage =
  cnm_challenge_id :: string
  cnm_payload :: bytes
  cnm_message_type :: ChallengeMessageType

record AgentSubmissionMessage =
  as_challenge_id :: string
  as_agent_hash :: string
  as_miner_hotkey :: string
  as_source_code :: "string option"
  as_obfuscated_hash :: "string option"
  as_submitted_at :: i64
  as_submitting_validator :: Hotkey
  as_miner_signature :: bytes
  as_source_code_len :: usize

definition AgentSubmissionMessage_new ::
    "i64 \<Rightarrow> string \<Rightarrow> string \<Rightarrow> string \<Rightarrow> string option \<Rightarrow> Hotkey \<Rightarrow> AgentSubmissionMessage" where
  "AgentSubmissionMessage_new now challenge agent miner source validator =
     \<lparr>as_challenge_id = challenge, as_agent_hash = agent, as_miner_hotkey = miner, as_source_code = source,
      as_obfuscated_hash = None, as_submitted_at = now, as_submitting_validator = validator, as_miner_signature = [],
      as_source_code_len = (case source of None \<Rightarrow> 0 | Some s \<Rightarrow> length s)\<rparr>"

definition PROTOCOL_VERSION :: string where
  "PROTOCOL_VERSION = ''0.1.0''"

definition protocol_version :: "u32 \<times> u32 \<times> u32" where
  "protocol_version = (0, 1, 0)"

record HandshakeMessage =
  hs_hotkey :: Hotkey
  hs_block_height :: u64
  hs_state_hash :: bytes
  hs_version :: string
  hs_version_major :: u32
  hs_version_minor :: u32
  hs_version_patch :: u32
  hs_timestamp :: i64

definition HandshakeMessage_new :: "i64 \<Rightarrow> Hotkey \<Rightarrow> u64 \<Rightarrow> bytes \<Rightarrow> HandshakeMessage" where
  "HandshakeMessage_new now key height state_hash =
     (let (major, minor, patch) = protocol_version
      in \<lparr>hs_hotkey = key, hs_block_height = height, hs_state_hash = state_hash, hs_version = PROTOCOL_VERSION,
          hs_version_major = major, hs_version_minor = minor, hs_version_patch = patch, hs_timestamp = now\<rparr>)"

definition is_compatible :: "HandshakeMessage \<Rightarrow> bool" where
  "is_compatible h = is_version_compatible (hs_version_major h) (hs_version_minor h) (hs_version_patch h)"

datatype SudoAction =
    UpdateConfig CoreNetworkConfig
  | AddChallenge ChallengeContainerConfig
  | UpdateChallenge ChallengeContainerConfig
  | RemoveChallenge ChallengeId
  | RefreshChallenges "ChallengeId option"
  | SetChallengeWeight ChallengeId u8 f64
  | SetMechanismBurnRate u8 f64
  | SetMechanismConfig u8 MechanismWeightConfig
  | SetRequiredVersion string string string bool "u64 option" "string option"
      \<comment> \<open>minimum, recommended, image, mandatory, deadline block, release notes\<close>
  | AddValidator CoreValidatorInfo
  | RemoveValidator Hotkey
  | EmergencyPause string
  | Resume
  | ForceStateUpdate CoreState

datatype ProposalAction =
    Sudo SudoAction
  | NewBlock bytes
  | JobCompletion Uuid Score Hotkey

record Proposal =
  pp_id :: Uuid
  pp_block_height :: u64
  pp_action :: ProposalAction
  pp_proposer :: Hotkey
  pp_timestamp :: i64

definition Proposal_new :: "i64 \<Rightarrow> Uuid \<Rightarrow> ProposalAction \<Rightarrow> Hotkey \<Rightarrow> u64 \<Rightarrow> Proposal" where
  "Proposal_new now fresh act proposer height =
     \<lparr>pp_id = fresh, pp_block_height = height, pp_action = act, pp_proposer = proposer, pp_timestamp = now\<rparr>"

record Vote =
  vo_proposal_id :: Uuid
  vo_voter :: Hotkey
  vo_approve :: bool
  vo_timestamp :: i64

definition Vote_approve :: "i64 \<Rightarrow> Uuid \<Rightarrow> Hotkey \<Rightarrow> Vote" where
  "Vote_approve now proposal voter = \<lparr>vo_proposal_id = proposal, vo_voter = voter, vo_approve = True, vo_timestamp = now\<rparr>"

definition Vote_reject :: "i64 \<Rightarrow> Uuid \<Rightarrow> Hotkey \<Rightarrow> Vote" where
  "Vote_reject now proposal voter = \<lparr>vo_proposal_id = proposal, vo_voter = voter, vo_approve = False, vo_timestamp = now\<rparr>"

record JobAssignment =
  ja_job :: Job
  ja_assigned_to :: Hotkey
  ja_deadline :: i64

record CoreEvaluationResult =
  cer_job_id :: Uuid
  cer_challenge_id :: ChallengeId
  cer_agent_hash :: string
  cer_score :: Score
  cer_execution_time_ms :: u64
  cer_validator :: Hotkey
  cer_timestamp :: i64

definition CoreEvaluationResult_new ::
    "i64 \<Rightarrow> Uuid \<Rightarrow> ChallengeId \<Rightarrow> string \<Rightarrow> Score \<Rightarrow> u64 \<Rightarrow> Hotkey \<Rightarrow> CoreEvaluationResult" where
  "CoreEvaluationResult_new now job challenge agent score time validator =
     \<lparr>cer_job_id = job, cer_challenge_id = challenge, cer_agent_hash = agent, cer_score = score, cer_execution_time_ms = time,
      cer_validator = validator, cer_timestamp = now\<rparr>"

datatype SyncDataType = SyncValidators | SyncChallenges | SyncPendingJobs | SyncConfig

datatype StateSyncMessage =
    RequestSnapshot
  | FullState CoreState
  | Snapshot StateSnapshot
  | RequestData SyncDataType
  | DataResponse SyncDataType bytes

record CoreHeartbeat =
  chb_hotkey :: Hotkey
  chb_block_height :: u64
  chb_state_hash :: bytes
  chb_timestamp :: i64

definition CoreHeartbeat_new :: "i64 \<Rightarrow> Hotkey \<Rightarrow> u64 \<Rightarrow> bytes \<Rightarrow> CoreHeartbeat" where
  "CoreHeartbeat_new now key height state_hash =
     \<lparr>chb_hotkey = key, chb_block_height = height, chb_state_hash = state_hash, chb_timestamp = now\<rparr>"

record WeightCommitmentMessage =
  wcm_validator :: Hotkey
  wcm_challenge_id :: ChallengeId
  wcm_epoch :: u64
  wcm_commitment_hash :: bytes
  wcm_timestamp :: i64

definition WeightCommitmentMessage_new :: "i64 \<Rightarrow> Hotkey \<Rightarrow> ChallengeId \<Rightarrow> u64 \<Rightarrow> bytes \<Rightarrow> WeightCommitmentMessage" where
  "WeightCommitmentMessage_new now validator challenge epoch commitment =
     \<lparr>wcm_validator = validator, wcm_challenge_id = challenge, wcm_epoch = epoch, wcm_commitment_hash = commitment, wcm_timestamp = now\<rparr>"

record WeightEntry =
  we_agent_hash :: string
  we_weight :: f64

record WeightRevealMessage =
  wrm_validator :: Hotkey
  wrm_challenge_id :: ChallengeId
  wrm_epoch :: u64
  wrm_weights :: "WeightEntry list"
  wrm_secret :: bytes
  wrm_timestamp :: i64

definition WeightRevealMessage_new ::
    "i64 \<Rightarrow> Hotkey \<Rightarrow> ChallengeId \<Rightarrow> u64 \<Rightarrow> WeightEntry list \<Rightarrow> bytes \<Rightarrow> WeightRevealMessage" where
  "WeightRevealMessage_new now validator challenge epoch weights secret =
     \<lparr>wrm_validator = validator, wrm_challenge_id = challenge, wrm_epoch = epoch, wrm_weights = weights, wrm_secret = secret,
      wrm_timestamp = now\<rparr>"

record EpochTransitionMessage =
  etm_epoch :: u64
  etm_phase :: string
  etm_block_height :: u64
  etm_timestamp :: i64

definition EpochTransitionMessage_new :: "i64 \<Rightarrow> u64 \<Rightarrow> string \<Rightarrow> u64 \<Rightarrow> EpochTransitionMessage" where
  "EpochTransitionMessage_new now epoch phase height =
     \<lparr>etm_epoch = epoch, etm_phase = phase, etm_block_height = height, etm_timestamp = now\<rparr>"

datatype NetworkMessage =
    NmHandshake HandshakeMessage
  | NmSudoAction SudoAction
  | NmProposal Proposal
  | NmVote Vote
  | NmJobAssignment JobAssignment
  | NmEvaluationResult CoreEvaluationResult
  | NmStateSync StateSyncMessage
  | NmHeartbeat CoreHeartbeat
  | NmWeightCommitment WeightCommitmentMessage
  | NmWeightReveal WeightRevealMessage
  | NmEpochTransition EpochTransitionMessage
  | NmAgentSubmission AgentSubmissionMessage
  | NmChallengeMessage ChallengeNetworkMessage
  | NmTaskProgress TaskProgressMessage
  | NmVersionMismatch string string \<comment> \<open>our version, required minimum\<close>

section \<open>The signed envelope\<close>

record SignedNetworkMessage =
  snm_message :: NetworkMessage
  snm_signature :: SignedMessage

definition SignedNetworkMessage_new ::
    "platform \<Rightarrow> (NetworkMessage \<Rightarrow> string + bytes) \<Rightarrow> NetworkMessage \<Rightarrow> Keypair \<Rightarrow> MiniChainError + SignedNetworkMessage" where
  "SignedNetworkMessage_new P enc message k =
     (case enc message of
        Inl e \<Rightarrow> Inl (Serialization e)
      | Inr bs \<Rightarrow> Inr \<lparr>snm_message = message, snm_signature = sign P k bs\<rparr>)"

definition SignedNetworkMessage_verify :: "platform \<Rightarrow> SignedNetworkMessage \<Rightarrow> MiniChainError + bool" where
  "SignedNetworkMessage_verify P m = verify P (snm_signature m)"

definition signer :: "SignedNetworkMessage \<Rightarrow> Hotkey" where
  "signer m = sm_signer (snm_signature m)"

section \<open>Properties\<close>

lemma own_handshake_compatible: "is_compatible (HandshakeMessage_new now key height state_hash)"
  by (simp add: is_compatible_def HandshakeMessage_new_def protocol_version_def is_version_compatible_def)



end
