(* ===== verification/Subtensor.thy ===== *)
theory Subtensor
  imports Mechanism_Weights Text_Strings
begin

text \<open>
  The client of the Bittensor chain (\<^verbatim>\<open>bittensor-integration/src/config.rs\<close>, \<^verbatim>\<open>client.rs\<close>). The chain itself, reached through the
  crate \<^verbatim>\<open>bittensor_rs\<close>, is the record \<open>chain_api\<close> of functions on a state \<open>'s\<close> of the outside world; so are the file
  that keeps pending commits and the source of random salts.
\<close>

section \<open>Configuration\<close>

record BittensorConfig =
  bt_endpoint :: string
  bt_netuid :: u16
  bt_use_commit_reveal :: bool
  bt_version_key :: u64

definition DEFAULT_NETUID :: u16 where
  "DEFAULT_NETUID = 100"

definition BittensorConfig_default :: BittensorConfig where
  "BittensorConfig_default =
     \<lparr>bt_endpoint = ''wss://entrypoint-finney.opentensor.ai:443'', bt_netuid = DEFAULT_NETUID, bt_use_commit_reveal = True,
      bt_version_key = 1\<rparr>"

definition BittensorConfig_testnet :: "u16 \<Rightarrow> BittensorConfig" where
  "BittensorConfig_testnet netuid =
     \<lparr>bt_endpoint = ''wss://test.finney.opentensor.ai:443'', bt_netuid = netuid, bt_use_commit_reveal = True, bt_version_key = 1\<rparr>"

definition BittensorConfig_local :: "u16 \<Rightarrow> BittensorConfig" where
  "BittensorConfig_local netuid =
     \<lparr>bt_endpoint = ''ws://127.0.0.1:9944'', bt_netuid = netuid, bt_use_commit_reveal = False, bt_version_key = 1\<rparr>"

definition BittensorConfig_mainnet :: BittensorConfig where
  "BittensorConfig_mainnet = BittensorConfig_default"

section \<open>The metagraph and the chain\<close>

text \<open>What the code reads of a neuron; the stakes are 128-bit numbers, kept as naturals.\<close>

record Neuron =
  nu_hotkey :: bytes
  nu_stake :: nat
  nu_root_stake :: nat
  nu_incentive :: f64
  nu_trust :: f64
  nu_consensus :: f64

text \<open>The neurons in the order of iteration.\<close>

type_synonym Metagraph = "(u64 \<times> Neuron) list"

record CommitData =
  cd_commit_hash :: string
  cd_uids :: "u16 list"
  cd_weights :: "u16 list"
  cd_salt :: "u16 list"
  cd_version_key :: u64

record PendingCommitV2 =
  p2_hash :: string
  p2_uids :: "u16 list"
  p2_weights :: "u16 list"
  p2_salt_hex :: string
  p2_version_key :: u64
  p2_epoch :: u64

record PendingMechanismCommit =
  pm_mechanism_id :: u8
  pm_hash :: string
  pm_uids :: "u16 list"
  pm_weights :: "u16 list"
  pm_salt_hex :: string
  pm_version_key :: u64
  pm_epoch :: u64

record PersistedCommitState =
  pcs_committed_epoch :: "u64 option"
  pcs_pending_mechanism_commits :: "(u8, PendingMechanismCommit) hashmap"
  pcs_pending_commit :: "PendingCommitV2 option"
  pcs_last_revealed_epoch :: "(u8, u64) hashmap"

text \<open>
  The functions of \<^verbatim>\<open>bittensor_rs\<close> the code calls. A signer is given by its account; every call may fail and may change
  the outside world. \<open>api_load\<close> and \<open>api_save\<close> read and write the file of pending commits as JSON; a write that fails
  is only logged by the code.
\<close>

record 's chain_api =
  api_ss58 :: "string \<Rightarrow> bytes option"
  api_connect :: "string \<Rightarrow> 's \<Rightarrow> (string + unit) \<times> 's"
  api_signer_from_seed :: "string \<Rightarrow> string + bytes"
  api_sync_metagraph :: "u16 \<Rightarrow> 's \<Rightarrow> (string + Metagraph) \<times> 's"
  api_set_weights :: "bytes \<Rightarrow> u16 \<Rightarrow> u64 list \<Rightarrow> f64 list \<Rightarrow> u64 option \<Rightarrow> 's \<Rightarrow> (string + string) \<times> 's"
  api_prepare_commit_reveal :: "bytes \<Rightarrow> u16 \<Rightarrow> u16 list \<Rightarrow> u16 list \<Rightarrow> u64 \<Rightarrow> usize \<Rightarrow> 's \<Rightarrow> CommitData \<times> 's"
  api_commit_weights :: "bytes \<Rightarrow> u16 \<Rightarrow> string \<Rightarrow> 's \<Rightarrow> (string + string) \<times> 's"
  api_reveal_weights :: "bytes \<Rightarrow> u16 \<Rightarrow> u64 list \<Rightarrow> u16 list \<Rightarrow> u16 list \<Rightarrow> u64 \<Rightarrow> 's \<Rightarrow> (string + string) \<times> 's"
  api_set_mechanism_weights :: "bytes \<Rightarrow> u16 \<Rightarrow> u8 \<Rightarrow> u64 list \<Rightarrow> f64 list \<Rightarrow> u64 option \<Rightarrow> 's \<Rightarrow> (string + string) \<times> 's"
  api_prepare_mechanism_commit :: "bytes \<Rightarrow> u16 \<Rightarrow> u8 \<Rightarrow> u16 list \<Rightarrow> u16 list \<Rightarrow> u64 \<Rightarrow> usize \<Rightarrow> 's \<Rightarrow> CommitData \<times> 's"
  api_commit_mechanism_weights :: "bytes \<Rightarrow> u16 \<Rightarrow> u8 \<Rightarrow> string \<Rightarrow> 's \<Rightarrow> (string + string) \<times> 's"
  api_reveal_mechanism_weights ::
    "bytes \<Rightarrow> u16 \<Rightarrow> u8 \<Rightarrow> u16 list \<Rightarrow> u16 list \<Rightarrow> u16 list \<Rightarrow> u64 \<Rightarrow> 's \<Rightarrow> (string + string) \<times> 's"
  api_generate_salt :: "usize \<Rightarrow> 's \<Rightarrow> u16 list \<times> 's"
  api_mechanism_commit_hash :: "bytes \<Rightarrow> u16 \<Rightarrow> u8 \<Rightarrow> u16 list \<Rightarrow> u16 list \<Rightarrow> u16 list \<Rightarrow> u64 \<Rightarrow> bytes"
  api_commit_hash_to_hex :: "bytes \<Rightarrow> string"
  api_batch_commit :: "bytes \<Rightarrow> u16 \<Rightarrow> (u8 \<times> bytes) list \<Rightarrow> 's \<Rightarrow> (string + string) \<times> 's"
  api_batch_set_mechanism_weights :: "bytes \<Rightarrow> u16 \<Rightarrow> (u8 \<times> u16 list \<times> u16 list) list \<Rightarrow> u64 \<Rightarrow> 's \<Rightarrow> (string + string) \<times> 's"
  api_commit_reveal_version :: "'s \<Rightarrow> (string + u16) \<times> 's"
  api_block_number :: "'s \<Rightarrow> (string + u64) \<times> 's"
  api_tempo :: "u16 \<Rightarrow> 's \<Rightarrow> (string + u64) \<times> 's"
  api_reveal_period :: "u16 \<Rightarrow> 's \<Rightarrow> (string + u64) \<times> 's"
  api_last_drand_round :: "'s \<Rightarrow> (string + u64) \<times> 's"
  api_storage_index :: "u16 \<Rightarrow> u8 \<Rightarrow> u16"
  api_reveal_round :: "u64 \<Rightarrow> u64 \<Rightarrow> u16 \<Rightarrow> u64 \<Rightarrow> f64 \<Rightarrow> u64 \<Rightarrow> u64"
  api_prepare_crv4 :: "bytes \<Rightarrow> u16 list \<Rightarrow> u16 list \<Rightarrow> u64 \<Rightarrow> u64 \<Rightarrow> 's \<Rightarrow> (string + bytes) \<times> 's"
  api_commit_timelocked :: "bytes \<Rightarrow> u16 \<Rightarrow> u8 \<Rightarrow> bytes \<Rightarrow> u64 \<Rightarrow> u16 \<Rightarrow> 's \<Rightarrow> (string + string) \<times> 's"
  api_next_epoch_start :: "u16 \<Rightarrow> 's \<Rightarrow> (string + u64 option) \<times> 's"
  api_default_crv_version :: u16
  api_load :: "string \<Rightarrow> 's \<Rightarrow> PersistedCommitState option"
  api_save :: "string \<Rightarrow> PersistedCommitState \<Rightarrow> 's \<Rightarrow> 's"

section \<open>The client\<close>

record SubtensorClient =
  stc_config :: BittensorConfig
  stc_connected :: bool
  stc_signer :: "bytes option"
  stc_metagraph :: "Metagraph option"
  stc_uid_overrides :: "(string, u16) hashmap"

definition SubtensorClient_new :: "BittensorConfig \<Rightarrow> SubtensorClient" where
  "SubtensorClient_new config =
     \<lparr>stc_config = config, stc_connected = False, stc_signer = None, stc_metagraph = None, stc_uid_overrides = hm_new\<rparr>"

definition stc_connect :: "'s chain_api \<Rightarrow> SubtensorClient \<Rightarrow> 's \<Rightarrow> (string + unit) \<times> SubtensorClient \<times> 's" where
  "stc_connect A c s =
     (case api_connect A (bt_endpoint (stc_config c)) s of
        (Inl e, s') \<Rightarrow> (Inl e, c, s')
      | (Inr u, s') \<Rightarrow> (Inr (), c\<lparr>stc_connected := True\<rparr>, s'))"

definition set_signer :: "'s chain_api \<Rightarrow> SubtensorClient \<Rightarrow> string \<Rightarrow> (string + unit) \<times> SubtensorClient" where
  "set_signer A c phrase =
     (case api_signer_from_seed A phrase of
        Inl e \<Rightarrow> (Inl e, c)
      | Inr account \<Rightarrow> (Inr (), c\<lparr>stc_signer := Some account\<rparr>))"

definition stc_client :: "SubtensorClient \<Rightarrow> string + unit" where
  "stc_client c = (if stc_connected c then Inr () else Inl ''Not connected to Subtensor'')"

definition stc_signer_result :: "SubtensorClient \<Rightarrow> string + bytes" where
  "stc_signer_result c = (case stc_signer c of Some a \<Rightarrow> Inr a | None \<Rightarrow> Inl ''Signer not set'')"

definition netuid :: "SubtensorClient \<Rightarrow> u16" where
  "netuid c = bt_netuid (stc_config c)"

definition version_key :: "SubtensorClient \<Rightarrow> u64" where
  "version_key c = bt_version_key (stc_config c)"

definition use_commit_reveal :: "SubtensorClient \<Rightarrow> bool" where
  "use_commit_reveal c = bt_use_commit_reveal (stc_config c)"

text \<open>The arguments \<^verbatim>\<open>self.client.client()?\<close> and \<^verbatim>\<open>self.client.signer()?\<close> of the chain calls, in this order.\<close>

definition client_and_signer :: "SubtensorClient \<Rightarrow> string + bytes" where
  "client_and_signer c = (case stc_client c of Inl e \<Rightarrow> Inl e | Inr u \<Rightarrow> stc_signer_result c)"

definition stc_sync_metagraph :: "'s chain_api \<Rightarrow> SubtensorClient \<Rightarrow> 's \<Rightarrow> (string + Metagraph) \<times> SubtensorClient \<times> 's" where
  "stc_sync_metagraph A c s =
     (case stc_client c of
        Inl e \<Rightarrow> (Inl e, c, s)
      | Inr u \<Rightarrow>
          case api_sync_metagraph A (netuid c) s of
            (Inl e, s') \<Rightarrow> (Inl e, c, s')
          | (Inr m, s') \<Rightarrow> (Inr m, c\<lparr>stc_metagraph := Some m\<rparr>, s'))"

definition set_metagraph :: "SubtensorClient \<Rightarrow> Metagraph \<Rightarrow> SubtensorClient" where
  "set_metagraph c m = c\<lparr>stc_metagraph := Some m\<rparr>"

definition lookup_uid_in_metagraph :: "'s chain_api \<Rightarrow> SubtensorClient \<Rightarrow> string \<Rightarrow> u16 option" where
  "lookup_uid_in_metagraph A c h =
     (case stc_metagraph c of
        None \<Rightarrow> None
      | Some m \<Rightarrow>
          case api_ss58 A h of
            None \<Rightarrow> None
          | Some account \<Rightarrow> map_option (\<lambda>(uid, n). ucast uid) (find (\<lambda>(uid, n). nu_hotkey n = account) m))"

definition get_uid_for_hotkey :: "'s chain_api \<Rightarrow> SubtensorClient \<Rightarrow> string \<Rightarrow> u16 option" where
  "get_uid_for_hotkey A c h =
     (case hm_get (stc_uid_overrides c) h of Some uid \<Rightarrow> Some uid | None \<Rightarrow> lookup_uid_in_metagraph A c h)"

fun get_uids_for_hotkeys :: "'s chain_api \<Rightarrow> SubtensorClient \<Rightarrow> string list \<Rightarrow> (string \<times> u16) list" where
  "get_uids_for_hotkeys A c [] = []"
| "get_uids_for_hotkeys A c (h # hs) =
     (case get_uid_for_hotkey A c h of
        Some uid \<Rightarrow> (h, uid) # get_uids_for_hotkeys A c hs
      | None \<Rightarrow> get_uids_for_hotkeys A c hs)"

section \<open>Lookups\<close>

lemma get_uids_for_hotkeys_find:
  "find (\<lambda>(h', uid). h' = h) (get_uids_for_hotkeys A c hs) =
     (if h \<in> set hs then map_option (Pair h) (get_uid_for_hotkey A c h) else None)"
  by (induction hs) (auto split: option.splits)

lemma get_uids_for_hotkeys_set:
  "(h, uid) \<in> set (get_uids_for_hotkeys A c hs) \<longleftrightarrow> h \<in> set hs \<and> get_uid_for_hotkey A c h = Some uid"
  by (induction hs) (auto split: option.splits)

end
