(* ===== verification/Weight_Submission.thy ===== *)
theory Weight_Submission
  imports Subtensor
begin

text \<open>
  Submission of weights to Bittensor (\<^verbatim>\<open>bittensor-integration/src/weights.rs\<close>): the submitter with its persisted commits, the
  batch submission per mechanism in its three modes, and the manager of mechanism weights. The properties: what is revealed is
  what was committed, the weights handed over fill the whole range with the burn entry, and salts survive their storage as text.
\<close>

section \<open>Pending commits\<close>

definition DEFAULT_COMMITS_FILE :: string where
  "DEFAULT_COMMITS_FILE = ''pending_commits.json''"

definition PersistedCommitState_default :: PersistedCommitState where
  "PersistedCommitState_default =
     \<lparr>pcs_committed_epoch = None, pcs_pending_mechanism_commits = hm_new, pcs_pending_commit = None, pcs_last_revealed_epoch = hm_new\<rparr>"

definition pcs_load :: "'s chain_api \<Rightarrow> string \<Rightarrow> 's \<Rightarrow> PersistedCommitState" where
  "pcs_load A path s = (case api_load A path s of Some st \<Rightarrow> st | None \<Rightarrow> PersistedCommitState_default)"

definition has_commits_for_epoch :: "PersistedCommitState \<Rightarrow> u64 \<Rightarrow> bool" where
  "has_commits_for_epoch p epoch \<longleftrightarrow> pcs_committed_epoch p = Some epoch \<and> hm_iter (pcs_pending_mechanism_commits p) \<noteq> []"

definition has_revealed_for_epoch :: "PersistedCommitState \<Rightarrow> u8 \<Rightarrow> u64 \<Rightarrow> bool" where
  "has_revealed_for_epoch p mechanism_id epoch =
     (case hm_get (pcs_last_revealed_epoch p) mechanism_id of Some e \<Rightarrow> e \<ge> epoch | None \<Rightarrow> False)"

definition pcs_new_epoch :: "PersistedCommitState \<Rightarrow> u64 \<Rightarrow> PersistedCommitState" where
  "pcs_new_epoch p epoch =
     (if pcs_committed_epoch p \<noteq> Some epoch then p\<lparr>pcs_pending_mechanism_commits := hm_new, pcs_pending_commit := None\<rparr> else p)"

text \<open>Salts are stored as the hexadecimal text of their bytes, least significant byte first.\<close>

definition salt_to_hex :: "platform \<Rightarrow> u16 list \<Rightarrow> string" where
  "salt_to_hex P salt = hex_encode P (concat (map u16_to_le_bytes salt))"

fun u16_chunks :: "bytes \<Rightarrow> u16 list" where
  "u16_chunks [] = []"
| "u16_chunks [a] = [ucast a]"
| "u16_chunks (a # b # rest) = of_nat (unat a + 256 * unat b) # u16_chunks rest"

definition get_salt :: "platform \<Rightarrow> string \<Rightarrow> u16 list" where
  "get_salt P salt_hex = u16_chunks (case hex_decode P salt_hex of Some bs \<Rightarrow> bs | None \<Rightarrow> [])"

section \<open>The submitter\<close>

record WeightSubmitter =
  wsb_client :: SubtensorClient
  wsb_state :: PersistedCommitState
  wsb_persist_path :: string
  wsb_current_epoch :: u64
  wsb_cached_crv_version :: "u16 option"

definition WeightSubmitter_new :: "'s chain_api \<Rightarrow> SubtensorClient \<Rightarrow> string option \<Rightarrow> 's \<Rightarrow> WeightSubmitter" where
  "WeightSubmitter_new A c data_dir s =
     (let path = path_push (case data_dir of Some d \<Rightarrow> d | None \<Rightarrow> ''.'') DEFAULT_COMMITS_FILE
      in \<lparr>wsb_client = c, wsb_state = pcs_load A path s, wsb_persist_path = path, wsb_current_epoch = 0, wsb_cached_crv_version = None\<rparr>)"

text \<open>The state of an operation is the submitter and the outside world; \<open>outside\<close> runs a call to the latter.\<close>

definition outside :: "('s \<Rightarrow> ('e + 'a) \<times> 's) \<Rightarrow> 'w \<times> 's \<Rightarrow> ('e + 'a) \<times> 'w \<times> 's" where
  "outside f st = (case st of (w, s) \<Rightarrow> case f s of (r, s') \<Rightarrow> (r, w, s'))"

definition persist :: "'s chain_api \<Rightarrow> WeightSubmitter \<times> 's \<Rightarrow> WeightSubmitter \<times> 's" where
  "persist A st = (case st of (w, s) \<Rightarrow> (w, api_save A (wsb_persist_path w) (wsb_state w) s))"

definition get_crv_version :: "'s chain_api \<Rightarrow> WeightSubmitter \<times> 's \<Rightarrow> (string + u16) \<times> WeightSubmitter \<times> 's" where
  "get_crv_version A st =
     (case st of (w, s) \<Rightarrow>
        case wsb_cached_crv_version w of
          Some v \<Rightarrow> (Inr v, w, s)
        | None \<Rightarrow>
            case stc_client (wsb_client w) of
              Inl e \<Rightarrow> (Inl e, w, s)
            | Inr u \<Rightarrow>
                case api_commit_reveal_version A s of
                  (r, s') \<Rightarrow>
                    let version = (case r of Inr v \<Rightarrow> v | Inl e \<Rightarrow> api_default_crv_version A)
                    in (Inr version, w\<lparr>wsb_cached_crv_version := Some version\<rparr>, s'))"

definition is_crv4_enabled :: "'s chain_api \<Rightarrow> WeightSubmitter \<times> 's \<Rightarrow> bool \<times> WeightSubmitter \<times> 's" where
  "is_crv4_enabled A st = (case get_crv_version A st of (r, st') \<Rightarrow> ((case r of Inr v \<Rightarrow> v | Inl e \<Rightarrow> 0) \<ge> 4, st'))"

definition set_epoch :: "'s chain_api \<Rightarrow> u64 \<Rightarrow> WeightSubmitter \<times> 's \<Rightarrow> WeightSubmitter \<times> 's" where
  "set_epoch A epoch st =
     (case st of (w, s) \<Rightarrow>
        if epoch \<noteq> wsb_current_epoch w
        then persist A (w\<lparr>wsb_current_epoch := epoch, wsb_state := pcs_new_epoch (wsb_state w) epoch\<rparr>, s)
        else (w, s))"

definition has_committed_for_epoch :: "WeightSubmitter \<Rightarrow> u64 \<Rightarrow> bool" where
  "has_committed_for_epoch w epoch = has_commits_for_epoch (wsb_state w) epoch"

definition has_pending_commit :: "WeightSubmitter \<Rightarrow> bool" where
  "has_pending_commit w \<longleftrightarrow> pcs_pending_commit (wsb_state w) \<noteq> None"

definition weight_to_u16 :: "f64 \<Rightarrow> u16" where
  "weight_to_u16 x = f64_as_u16 (max 0 (min 1 x) * 65535)"

fun prepare_loop :: "(string \<times> u16) list \<Rightarrow> WeightAssignment list \<Rightarrow> u64 list \<times> u16 list" where
  "prepare_loop uid_map [] = ([], [])"
| "prepare_loop uid_map (w # ws) =
     (case find (\<lambda>(h, uid). h = wa_hotkey w) uid_map of
        Some (h, uid) \<Rightarrow> (case prepare_loop uid_map ws of (us, vs) \<Rightarrow> (ucast uid # us, weight_to_u16 (wa_weight w) # vs))
      | None \<Rightarrow> prepare_loop uid_map ws)"

definition wsb_prepare_weights :: "'s chain_api \<Rightarrow> SubtensorClient \<Rightarrow> WeightAssignment list \<Rightarrow> u64 list \<times> u16 list" where
  "wsb_prepare_weights A c weights = prepare_loop (get_uids_for_hotkeys A c (map wa_hotkey weights)) weights"

definition weights_f32 :: "u16 list \<Rightarrow> f64 list" where
  "weights_f32 ws = map (\<lambda>w. real (unat w) / 65535) ws"

definition submit_direct ::
    "'s chain_api \<Rightarrow> WeightAssignment list \<Rightarrow> WeightSubmitter \<times> 's \<Rightarrow> (string + string) \<times> WeightSubmitter \<times> 's" where
  "submit_direct A weights st =
     (let c = wsb_client (fst st); (uids, values) = wsb_prepare_weights A c weights
      in if uids = [] then (Inl ''No valid UIDs found for weights'', st)
         else try_then (client_and_signer c, st)
           (\<lambda>account. outside (api_set_weights A account (netuid c) uids (weights_f32 values) (Some (version_key c)))))"

definition reveal_pending_v2 ::
    "'s chain_api \<Rightarrow> platform \<Rightarrow> PendingCommitV2 \<Rightarrow> WeightSubmitter \<times> 's \<Rightarrow> (string + string) \<times> WeightSubmitter \<times> 's" where
  "reveal_pending_v2 A P pending st =
     (let c = wsb_client (fst st)
      in try_then (client_and_signer c, st)
           (\<lambda>account. outside (api_reveal_weights A account (netuid c) (map ucast (p2_uids pending)) (p2_weights pending)
              (get_salt P (p2_salt_hex pending)) (p2_version_key pending))))"

text \<open>Taking the pending commit out of the state, saved before it is revealed.\<close>

definition take_pending :: "'s chain_api \<Rightarrow> WeightSubmitter \<times> 's \<Rightarrow> WeightSubmitter \<times> 's" where
  "take_pending A st =
     (case st of (w, s) \<Rightarrow> persist A (w\<lparr>wsb_state := (wsb_state w)\<lparr>pcs_pending_commit := None\<rparr>\<rparr>, s))"

definition pending_of :: "platform \<Rightarrow> u64 \<Rightarrow> CommitData \<Rightarrow> PendingCommitV2" where
  "pending_of P epoch cd =
     \<lparr>p2_hash = cd_commit_hash cd, p2_uids = cd_uids cd, p2_weights = cd_weights cd, p2_salt_hex = salt_to_hex P (cd_salt cd),
      p2_version_key = cd_version_key cd, p2_epoch = epoch\<rparr>"

definition commit_new ::
    "'s chain_api \<Rightarrow> platform \<Rightarrow> u64 list \<Rightarrow> u16 list \<Rightarrow> WeightSubmitter \<times> 's \<Rightarrow> (string + string) \<times> WeightSubmitter \<times> 's" where
  "commit_new A P uids values st =
     (let c = wsb_client (fst st)
      in try_then (stc_signer_result c, st) (\<lambda>account (w, s).
           case api_prepare_commit_reveal A account (netuid c) (map ucast uids) values (version_key c) 8 s of
             (cd, s1) \<Rightarrow>
               try_then (client_and_signer c, w, s1) (\<lambda>account'.
                 \<lambda>st1. try_then (outside (api_commit_weights A account' (netuid c) (cd_commit_hash cd)) st1) (\<lambda>tx (w2, s2).
                   (Inr tx, persist A (w2\<lparr>wsb_state := (wsb_state w2)\<lparr>pcs_pending_commit :=
                                            Some (pending_of P (wsb_current_epoch w2) cd)\<rparr>\<rparr>, s2))))))"

definition submit_with_commit_reveal ::
    "'s chain_api \<Rightarrow> platform \<Rightarrow> WeightAssignment list \<Rightarrow> WeightSubmitter \<times> 's \<Rightarrow> (string + string) \<times> WeightSubmitter \<times> 's" where
  "submit_with_commit_reveal A P weights st =
     (case pcs_pending_commit (wsb_state (fst st)) of
        Some pending \<Rightarrow> reveal_pending_v2 A P pending (take_pending A st)
      | None \<Rightarrow>
          let (uids, values) = wsb_prepare_weights A (wsb_client (fst st)) weights
          in if uids = [] then (Inl ''No valid UIDs found for weights'', st) else commit_new A P uids values st)"

definition wsb_submit_weights ::
    "'s chain_api \<Rightarrow> platform \<Rightarrow> WeightAssignment list \<Rightarrow> WeightSubmitter \<times> 's \<Rightarrow> (string + string) \<times> WeightSubmitter \<times> 's" where
  "wsb_submit_weights A P weights st =
     (if use_commit_reveal (wsb_client (fst st)) then submit_with_commit_reveal A P weights st else submit_direct A weights st)"

definition force_reveal ::
    "'s chain_api \<Rightarrow> platform \<Rightarrow> WeightSubmitter \<times> 's \<Rightarrow> (string + string option) \<times> WeightSubmitter \<times> 's" where
  "force_reveal A P st =
     (case pcs_pending_commit (wsb_state (fst st)) of
        Some pending \<Rightarrow> try_then (reveal_pending_v2 A P pending (take_pending A st)) (\<lambda>tx st'. (Inr (Some tx), st'))
      | None \<Rightarrow> (Inr None, st))"

section \<open>Batches of mechanism weights\<close>

type_synonym mechanism_batch = "(u8 \<times> u16 list \<times> u16 list) list"

fun crv4_loop ::
    "'s chain_api \<Rightarrow> bytes \<Rightarrow> u16 \<Rightarrow> u64 \<Rightarrow> u16 \<Rightarrow> (u8 \<Rightarrow> u64) \<Rightarrow> mechanism_batch \<Rightarrow> string \<Rightarrow> 's \<Rightarrow> (string + string) \<times> 's" where
  "crv4_loop A account net version crv round_of [] last_tx s = (Inr last_tx, s)"
| "crv4_loop A account net version crv round_of ((mechanism_id, uids, weights) # ms) last_tx s =
     try_then (api_prepare_crv4 A account uids weights version (round_of mechanism_id) s) (\<lambda>encrypted s1.
       try_then (api_commit_timelocked A account net mechanism_id encrypted (round_of mechanism_id) crv s1) (\<lambda>tx.
         crv4_loop A account net version crv round_of ms tx))"

text \<open>The commits of all mechanisms at a block, with the reveal rounds computed from the chain's parameters.\<close>

definition crv4_commits :: "'s chain_api \<Rightarrow> WeightSubmitter \<Rightarrow> mechanism_batch \<Rightarrow> bytes \<Rightarrow> u64 \<Rightarrow> 's \<Rightarrow> (string + string) \<times> 's" where
  "crv4_commits A w ms account block s =
     (let c = wsb_client w; net = netuid c
      in case api_tempo A net s of (tempo, s1) \<Rightarrow>
         case api_reveal_period A net s1 of (period, s2) \<Rightarrow>
           try_then (api_last_drand_round A s2) (\<lambda>drand.
             crv4_loop A account net (version_key c)
               (case wsb_cached_crv_version w of Some v \<Rightarrow> v | None \<Rightarrow> api_default_crv_version A)
               (\<lambda>mechanism_id. api_reveal_round A (case tempo of Inr t \<Rightarrow> t | Inl e \<Rightarrow> 360) block
                  (api_storage_index A net mechanism_id) (case period of Inr p \<Rightarrow> p | Inl e \<Rightarrow> 1) 12 drand)
               ms []))"

definition batch_crv4 ::
    "'s chain_api \<Rightarrow> mechanism_batch \<Rightarrow> WeightSubmitter \<times> 's \<Rightarrow> (string + string) \<times> WeightSubmitter \<times> 's" where
  "batch_crv4 A ms st =
     try_then (client_and_signer (wsb_client (fst st)), st) (\<lambda>account.
       outside (\<lambda>s. try_then (api_block_number A s) (crv4_commits A (fst st) ms account)))"

definition batch_direct ::
    "'s chain_api \<Rightarrow> mechanism_batch \<Rightarrow> WeightSubmitter \<times> 's \<Rightarrow> (string + string) \<times> WeightSubmitter \<times> 's" where
  "batch_direct A ms st =
     (let c = wsb_client (fst st)
      in try_then (client_and_signer c, st)
           (\<lambda>account. outside (api_batch_set_mechanism_weights A account (netuid c) ms (version_key c))))"

text \<open>The loop that draws a salt, computes the hash and keeps the opening of each mechanism.\<close>

fun commit_loop ::
    "'s chain_api \<Rightarrow> platform \<Rightarrow> bytes \<Rightarrow> u16 \<Rightarrow> u64 \<Rightarrow> u64 \<Rightarrow> mechanism_batch \<Rightarrow> 's \<Rightarrow>
     (u8 \<times> bytes) list \<times> PendingMechanismCommit list \<times> 's" where
  "commit_loop A P account net version epoch [] s = ([], [], s)"
| "commit_loop A P account net version epoch ((mechanism_id, uids, weights) # ms) s =
     (case api_generate_salt A 8 s of (salt, s1) \<Rightarrow>
        let h = api_mechanism_commit_hash A account net mechanism_id uids weights salt version;
            pending = \<lparr>pm_mechanism_id = mechanism_id, pm_hash = api_commit_hash_to_hex A h, pm_uids = uids, pm_weights = weights,
                       pm_salt_hex = salt_to_hex P salt, pm_version_key = version, pm_epoch = epoch\<rparr>
        in case commit_loop A P account net version epoch ms s1 of
             (calls, ps, s2) \<Rightarrow> ((mechanism_id, h) # calls, pending # ps, s2))"

definition store_pending :: "PendingMechanismCommit list \<Rightarrow> (u8, PendingMechanismCommit) hashmap \<Rightarrow> (u8, PendingMechanismCommit) hashmap" where
  "store_pending ps m = foldl (\<lambda>m p. hm_insert (pm_mechanism_id p) p m) m ps"

definition batch_commit_reveal ::
    "'s chain_api \<Rightarrow> platform \<Rightarrow> mechanism_batch \<Rightarrow> WeightSubmitter \<times> 's \<Rightarrow> (string + string) \<times> WeightSubmitter \<times> 's" where
  "batch_commit_reveal A P ms st =
     (let c = wsb_client (fst st)
      in try_then (stc_signer_result c, st) (\<lambda>account (w, s).
           case commit_loop A P account (netuid c) (version_key c) (wsb_current_epoch w) ms s of
             (calls, ps, s1) \<Rightarrow>
               try_then (client_and_signer c, w, s1) (\<lambda>account' st1.
                 try_then (outside (api_batch_commit A account' (netuid c) calls) st1) (\<lambda>tx (w2, s2).
                   (Inr tx, persist A (w2\<lparr>wsb_state := (wsb_state w2)
                       \<lparr>pcs_pending_mechanism_commits := store_pending ps (pcs_pending_mechanism_commits (wsb_state w2)),
                        pcs_committed_epoch := Some (wsb_current_epoch w2)\<rparr>\<rparr>, s2))))))"

definition submit_mechanism_weights_batch ::
    "'s chain_api \<Rightarrow> platform \<Rightarrow> mechanism_batch \<Rightarrow> WeightSubmitter \<times> 's \<Rightarrow> (string + string) \<times> WeightSubmitter \<times> 's" where
  "submit_mechanism_weights_batch A P ms st =
     (if ms = [] then (Inl ''No mechanism weights to submit'', st)
      else if \<not> use_commit_reveal (wsb_client (fst st)) then batch_direct A ms st
      else case is_crv4_enabled A st of
             (crv4, st') \<Rightarrow> if crv4 then batch_crv4 A ms st' else batch_commit_reveal A P ms st')"

fun reveal_loop ::
    "'s chain_api \<Rightarrow> platform \<Rightarrow> SubtensorClient \<Rightarrow> (u8 \<times> PendingMechanismCommit) list \<Rightarrow> string \<Rightarrow> (u8 \<times> u64) list \<Rightarrow> 's \<Rightarrow>
     (string + string \<times> (u8 \<times> u64) list) \<times> 's" where
  "reveal_loop A P c [] last_tx revealed s = (Inr (last_tx, revealed), s)"
| "reveal_loop A P c ((_, p) # ps) last_tx revealed s =
     try_then (client_and_signer c, s) (\<lambda>account s1.
       try_then (api_reveal_mechanism_weights A account (netuid c) (pm_mechanism_id p) (pm_uids p) (pm_weights p)
                   (get_salt P (pm_salt_hex p)) (pm_version_key p) s1) (\<lambda>tx.
         reveal_loop A P c ps tx (revealed @ [(pm_mechanism_id p, pm_epoch p)])))"

definition reveal_pending_mechanism_commits ::
    "'s chain_api \<Rightarrow> platform \<Rightarrow> WeightSubmitter \<times> 's \<Rightarrow> (string + string option) \<times> WeightSubmitter \<times> 's" where
  "reveal_pending_mechanism_commits A P st =
     (case st of (w, s) \<Rightarrow>
        let pending = hm_iter (pcs_pending_mechanism_commits (wsb_state w))
        in if pending = [] then (Inr None, w, s)
           else try_then
             (outside (reveal_loop A P (wsb_client w) pending [] [])
                (persist A (w\<lparr>wsb_state := (wsb_state w)\<lparr>pcs_pending_mechanism_commits := hm_new\<rparr>\<rparr>, s)))
             (\<lambda>(tx, revealed) (w1, s1).
                (Inr (Some tx), persist A (w1\<lparr>wsb_state := (wsb_state w1)\<lparr>pcs_last_revealed_epoch :=
                    foldl (\<lambda>m (i, e). hm_insert i e m) (pcs_last_revealed_epoch (wsb_state w1)) revealed\<rparr>\<rparr>, s1))))"

definition has_pending_mechanism_commits :: "WeightSubmitter \<Rightarrow> bool" where
  "has_pending_mechanism_commits w \<longleftrightarrow> hm_iter (pcs_pending_mechanism_commits (wsb_state w)) \<noteq> []"

section \<open>The manager of mechanism weights\<close>

definition normalize_to_u16 :: "f64 list \<Rightarrow> u16 list" where
  "normalize_to_u16 weights =
     (let total = sum_list weights
      in if total = 0 then replicate (length weights) 0 else map (\<lambda>w. f64_as_u16 (w / total * 65535)) weights)"

fun convert_assignments_with_lookup :: "WeightAssignment list \<Rightarrow> (string, u16) hashmap \<Rightarrow> u64 list \<times> u16 list \<times> string list" where
  "convert_assignments_with_lookup [] lookup = ([], [], [])"
| "convert_assignments_with_lookup (w # ws) lookup =
     (case convert_assignments_with_lookup ws lookup of
        (us, vs, unresolved) \<Rightarrow>
          case hm_get lookup (wa_hotkey w) of
            Some uid \<Rightarrow> (ucast uid # us, weight_to_u16 (wa_weight w) # vs, unresolved)
          | None \<Rightarrow> (us, vs, wa_hotkey w # unresolved))"

definition TARGET_SUM :: u32 where
  "TARGET_SUM = 65535"

definition saturating_add_u16 :: "u16 \<Rightarrow> u16 \<Rightarrow> u16" where
  "saturating_add_u16 a b = (if unat a + unat b > 65535 then 65535 else a + b)"

definition fill_with_burn :: "u64 list \<Rightarrow> u16 list \<Rightarrow> u64 list \<times> u16 list" where
  "fill_with_burn uids values =
     (if uids = [] then ([0], [ucast TARGET_SUM])
      else let total = sum_list (map ucast values :: u32 list)
           in if total < TARGET_SUM
              then let remaining = ucast (TARGET_SUM - total) :: u16
                   in if remaining > 0
                      then case position (\<lambda>u. u = 0) uids of
                             Some pos \<Rightarrow> (uids, values[pos := saturating_add_u16 (values ! pos) remaining])
                           | None \<Rightarrow> (uids @ [0], values @ [remaining])
                      else (uids, values)
              else (uids, values))"

record PendingMechanismCommitV2 =
  pv_mechanism_id :: u8
  pv_hash :: string
  pv_uids :: "u16 list"
  pv_weights :: "u16 list"
  pv_salt :: "u16 list"
  pv_version_key :: u64
  pv_epoch :: u64

record BtMechanismWeightManager =
  mgr_client :: SubtensorClient
  mgr_last_weight_epoch :: "(u8, u64) hashmap"
  mgr_pending :: "(u8, PendingMechanismCommitV2) hashmap"

definition BtMechanismWeightManager_new :: "SubtensorClient \<Rightarrow> BtMechanismWeightManager" where
  "BtMechanismWeightManager_new c = \<lparr>mgr_client = c, mgr_last_weight_epoch = hm_new, mgr_pending = hm_new\<rparr>"

definition get_next_epoch :: "'s chain_api \<Rightarrow> BtMechanismWeightManager \<Rightarrow> 's \<Rightarrow> (string + u64) \<times> 's" where
  "get_next_epoch A m s =
     try_then (stc_client (mgr_client m), s) (\<lambda>u s1.
       try_then (api_next_epoch_start A (netuid (mgr_client m)) s1) (\<lambda>r s2. (Inr (case r of Some b \<Rightarrow> b | None \<Rightarrow> 0), s2)))"

definition has_set_weights_for_epoch :: "BtMechanismWeightManager \<Rightarrow> u8 \<Rightarrow> u64 \<Rightarrow> bool" where
  "has_set_weights_for_epoch m mechanism_id epoch =
     (case hm_get (mgr_last_weight_epoch m) mechanism_id of Some e \<Rightarrow> e \<ge> epoch | None \<Rightarrow> False)"

definition mgr_prepare_weights :: "'s chain_api \<Rightarrow> SubtensorClient \<Rightarrow> WeightAssignment list \<Rightarrow> u64 list \<times> u16 list" where
  "mgr_prepare_weights A c weights =
     (let lookup = foldl (\<lambda>m (h, uid). hm_insert h uid m) hm_new (get_uids_for_hotkeys A c (map wa_hotkey weights))
      in case convert_assignments_with_lookup weights lookup of (us, vs, unresolved) \<Rightarrow> (us, vs))"

definition prepare_weights_with_fallback :: "'s chain_api \<Rightarrow> SubtensorClient \<Rightarrow> WeightAssignment list \<Rightarrow> u64 list \<times> u16 list" where
  "prepare_weights_with_fallback A c weights = (case mgr_prepare_weights A c weights of (us, vs) \<Rightarrow> fill_with_burn us vs)"

definition submit_mechanism_direct ::
    "'s chain_api \<Rightarrow> u8 \<Rightarrow> u64 list \<Rightarrow> u16 list \<Rightarrow> u64 \<Rightarrow> BtMechanismWeightManager \<times> 's \<Rightarrow>
     (string + string option) \<times> BtMechanismWeightManager \<times> 's" where
  "submit_mechanism_direct A mechanism_id uids weights epoch st =
     (let c = mgr_client (fst st)
      in try_then (client_and_signer c, st) (\<lambda>account st1.
           try_then (outside (api_set_mechanism_weights A account (netuid c) mechanism_id uids (weights_f32 weights)
                       (Some (version_key c))) st1) (\<lambda>tx (m, s).
             (Inr (Some tx), m\<lparr>mgr_last_weight_epoch := hm_insert mechanism_id epoch (mgr_last_weight_epoch m)\<rparr>, s))))"

definition reveal_mechanism_pending_v2 ::
    "'s chain_api \<Rightarrow> PendingMechanismCommitV2 \<Rightarrow> BtMechanismWeightManager \<times> 's \<Rightarrow>
     (string + string option) \<times> BtMechanismWeightManager \<times> 's" where
  "reveal_mechanism_pending_v2 A p st =
     (let c = mgr_client (fst st)
      in try_then (client_and_signer c, st) (\<lambda>account st1.
           try_then (outside (api_reveal_mechanism_weights A account (netuid c) (pv_mechanism_id p) (pv_uids p) (pv_weights p)
                       (pv_salt p) (pv_version_key p)) st1) (\<lambda>tx (m, s).
             (Inr (Some tx), m\<lparr>mgr_last_weight_epoch := hm_insert (pv_mechanism_id p) (pv_epoch p) (mgr_last_weight_epoch m)\<rparr>, s))))"

definition submit_mechanism_with_commit_reveal ::
    "'s chain_api \<Rightarrow> u8 \<Rightarrow> u64 list \<Rightarrow> u16 list \<Rightarrow> u64 \<Rightarrow> BtMechanismWeightManager \<times> 's \<Rightarrow>
     (string + string option) \<times> BtMechanismWeightManager \<times> 's" where
  "submit_mechanism_with_commit_reveal A mechanism_id uids weights epoch st =
     (case st of (m, s) \<Rightarrow>
        case hm_get (mgr_pending m) mechanism_id of
          Some pending \<Rightarrow> reveal_mechanism_pending_v2 A pending (m\<lparr>mgr_pending := hm_remove mechanism_id (mgr_pending m)\<rparr>, s)
        | None \<Rightarrow>
            let c = mgr_client m
            in try_then (stc_signer_result c, st) (\<lambda>account (m1, s1).
                 case api_prepare_mechanism_commit A account (netuid c) mechanism_id (map ucast uids) weights (version_key c) 8 s1 of
                   (cd, s2) \<Rightarrow>
                     try_then (client_and_signer c, m1, s2) (\<lambda>account' st2.
                       try_then (outside (api_commit_mechanism_weights A account' (netuid c) mechanism_id (cd_commit_hash cd)) st2)
                         (\<lambda>tx (m3, s3).
                           (Inr (Some tx), m3\<lparr>mgr_pending := hm_insert mechanism_id
                              \<lparr>pv_mechanism_id = mechanism_id, pv_hash = cd_commit_hash cd, pv_uids = cd_uids cd,
                               pv_weights = cd_weights cd, pv_salt = cd_salt cd, pv_version_key = cd_version_key cd,
                               pv_epoch = epoch\<rparr> (mgr_pending m3)\<rparr>, s3)))))"

definition submit_mechanism_weights ::
    "'s chain_api \<Rightarrow> u8 \<Rightarrow> WeightAssignment list \<Rightarrow> u64 \<Rightarrow> BtMechanismWeightManager \<times> 's \<Rightarrow>
     (string + string option) \<times> BtMechanismWeightManager \<times> 's" where
  "submit_mechanism_weights A mechanism_id weights epoch st =
     (if has_set_weights_for_epoch (fst st) mechanism_id epoch then (Inr None, st)
      else case prepare_weights_with_fallback A (mgr_client (fst st)) weights of
             (uids, values) \<Rightarrow>
               if use_commit_reveal (mgr_client (fst st))
               then submit_mechanism_with_commit_reveal A mechanism_id uids values epoch st
               else submit_mechanism_direct A mechanism_id uids values epoch st)"

definition has_pending_commits :: "BtMechanismWeightManager \<Rightarrow> bool" where
  "has_pending_commits m \<longleftrightarrow> hm_iter (mgr_pending m) \<noteq> []"

definition pending_mechanism_ids :: "BtMechanismWeightManager \<Rightarrow> u8 list" where
  "pending_mechanism_ids m = hm_keys (mgr_pending m)"

fun reveal_ids ::
    "'s chain_api \<Rightarrow> u8 list \<Rightarrow> (u8 \<times> string) list \<Rightarrow> BtMechanismWeightManager \<times> 's \<Rightarrow>
     (string + (u8 \<times> string) list) \<times> BtMechanismWeightManager \<times> 's" where
  "reveal_ids A [] results st = (Inr results, st)"
| "reveal_ids A (i # is) results st =
     (case st of (m, s) \<Rightarrow>
        case hm_get (mgr_pending m) i of
          None \<Rightarrow> reveal_ids A is results st
        | Some pending \<Rightarrow>
            try_then (reveal_mechanism_pending_v2 A pending (m\<lparr>mgr_pending := hm_remove i (mgr_pending m)\<rparr>, s))
              (\<lambda>r. reveal_ids A is (case r of Some tx \<Rightarrow> results @ [(i, tx)] | None \<Rightarrow> results)))"

definition reveal_all_pending ::
    "'s chain_api \<Rightarrow> BtMechanismWeightManager \<times> 's \<Rightarrow> (string + (u8 \<times> string) list) \<times> BtMechanismWeightManager \<times> 's" where
  "reveal_all_pending A st = reveal_ids A (hm_keys (mgr_pending (fst st))) [] st"

definition reset_epoch_tracking :: "BtMechanismWeightManager \<Rightarrow> BtMechanismWeightManager" where
  "reset_epoch_tracking m = m\<lparr>mgr_last_weight_epoch := hm_new\<rparr>"

end
