(* ===== verification/Submission_Safety.thy ===== *)
theory Submission_Safety
  imports Weight_Submission
begin

text \<open>
  Properties of the submission of weights. The chain is observed through an \<open>observer\<close>: which hashes an account has committed, and
  any property \<open>ob_good\<close> of its state. \<open>chain_laws\<close> states what \<^verbatim>\<open>bittensor_rs\<close> documents: prepared hashes are the
  hashes of their openings, a successful commit is recorded, and, as the reading of \<open>ob_good\<close>, every call keeps it except a
  reveal that opens no commitment of the account.
\<close>

section \<open>Salts\<close>

definition hex_round_trip :: "platform \<Rightarrow> bool" where
  "hex_round_trip P \<longleftrightarrow> (\<forall>bs. hex_decode P (hex_encode P bs) = Some bs)"

lemma u16_le_bytes_round_trip: "of_nat (unat (ucast w :: u8) + 256 * unat (ucast (drop_bit 8 w) :: u8)) = (w :: u16)"
proof -
  have "unat w < 65536" using unsigned_less [of w] by simp
  have "unat (ucast w :: u8) = unat w mod 256"
    by (simp add: unsigned_ucast_eq take_bit_eq_mod)
  moreover have "unat (ucast (drop_bit 8 w) :: u8) = unat w div 256"
    using \<open>unat w < 65536\<close> by (simp add: unsigned_ucast_eq take_bit_eq_mod drop_bit_eq_div unat_div)
  ultimately have "unat (ucast w :: u8) + 256 * unat (ucast (drop_bit 8 w) :: u8) = unat w"
    by simp
  then show ?thesis by simp
qed

lemma u16_chunks_word: "u16_chunks (u16_to_le_bytes w @ bs) = w # u16_chunks bs"
  unfolding u16_to_le_bytes_def append.simps u16_chunks.simps u16_le_bytes_round_trip ..

lemma u16_chunks_le_bytes [simp]: "u16_chunks (concat (map u16_to_le_bytes salt)) = salt"
  by (induction salt) (simp_all add: u16_chunks_word)

lemma get_salt_to_hex [simp]: "hex_round_trip P \<Longrightarrow> get_salt P (salt_to_hex P salt) = salt"
  by (simp add: hex_round_trip_def get_salt_def salt_to_hex_def)

section \<open>Observing the chain\<close>

record 's observer =
  ob_committed :: "'s \<Rightarrow> bytes \<Rightarrow> u16 \<Rightarrow> string \<Rightarrow> bool"
  ob_mechanism :: "'s \<Rightarrow> bytes \<Rightarrow> u16 \<Rightarrow> u8 \<Rightarrow> string \<Rightarrow> bool"
  ob_good :: "'s \<Rightarrow> bool"

definition steady :: "'s observer \<Rightarrow> 's \<Rightarrow> 's \<Rightarrow> bool" where
  "steady ob s s' \<longleftrightarrow>
     (\<forall>a n h. ob_committed ob s a n h \<longrightarrow> ob_committed ob s' a n h) \<and>
     (\<forall>a n m h. ob_mechanism ob s a n m h \<longrightarrow> ob_mechanism ob s' a n m h) \<and> (ob_good ob s \<longrightarrow> ob_good ob s')"

lemma steady_refl [simp]: "steady ob s s" by (simp add: steady_def)

lemma steady_trans [trans]: "steady ob s s' \<Longrightarrow> steady ob s' s'' \<Longrightarrow> steady ob s s''"
  by (auto simp: steady_def)

definition mechanism_opening :: "'s chain_api \<Rightarrow> bytes \<Rightarrow> u16 \<Rightarrow> u8 \<Rightarrow> u16 list \<Rightarrow> u16 list \<Rightarrow> u16 list \<Rightarrow> u64 \<Rightarrow> string" where
  "mechanism_opening A a n m uids ws salt v = api_commit_hash_to_hex A (api_mechanism_commit_hash A a n m uids ws salt v)"

type_synonym commitment_hash = "bytes \<Rightarrow> u16 \<Rightarrow> u16 list \<Rightarrow> u16 list \<Rightarrow> u16 list \<Rightarrow> u64 \<Rightarrow> string"

text \<open>The calls that neither commit nor reveal.\<close>

definition neutral_calls :: "'s chain_api \<Rightarrow> 's observer \<Rightarrow> bool" where
  "neutral_calls A ob \<longleftrightarrow>
     (\<forall>a n us ws v s. steady ob s (snd (api_set_weights A a n us ws v s))) \<and>
     (\<forall>a n m us ws v s. steady ob s (snd (api_set_mechanism_weights A a n m us ws v s))) \<and>
     (\<forall>a n ms v s. steady ob s (snd (api_batch_set_mechanism_weights A a n ms v s))) \<and>
     (\<forall>k s. steady ob s (snd (api_generate_salt A k s))) \<and>
     (\<forall>s. steady ob s (snd (api_commit_reveal_version A s))) \<and>
     (\<forall>s. steady ob s (snd (api_block_number A s))) \<and>
     (\<forall>n s. steady ob s (snd (api_tempo A n s))) \<and>
     (\<forall>n s. steady ob s (snd (api_reveal_period A n s))) \<and>
     (\<forall>s. steady ob s (snd (api_last_drand_round A s))) \<and>
     (\<forall>a us ws v r s. steady ob s (snd (api_prepare_crv4 A a us ws v r s))) \<and>
     (\<forall>a n m e r c s. steady ob s (snd (api_commit_timelocked A a n m e r c s))) \<and>
     (\<forall>p st s. steady ob s (api_save A p st s))"

definition commit_calls :: "'s chain_api \<Rightarrow> 's observer \<Rightarrow> commitment_hash \<Rightarrow> bool" where
  "commit_calls A ob H \<longleftrightarrow>
     (\<forall>a n us ws v k s cd s'. api_prepare_commit_reveal A a n us ws v k s = (cd, s') \<longrightarrow>
        steady ob s s' \<and> cd_commit_hash cd = H a n (cd_uids cd) (cd_weights cd) (cd_salt cd) (cd_version_key cd)) \<and>
     (\<forall>a n m us ws v k s cd s'. api_prepare_mechanism_commit A a n m us ws v k s = (cd, s') \<longrightarrow>
        steady ob s s' \<and> cd_commit_hash cd = mechanism_opening A a n m (cd_uids cd) (cd_weights cd) (cd_salt cd) (cd_version_key cd)) \<and>
     (\<forall>a n h s r s'. api_commit_weights A a n h s = (r, s') \<longrightarrow>
        steady ob s s' \<and> (\<forall>tx. r = Inr tx \<longrightarrow> ob_committed ob s' a n h)) \<and>
     (\<forall>a n m h s r s'. api_commit_mechanism_weights A a n m h s = (r, s') \<longrightarrow>
        steady ob s s' \<and> (\<forall>tx. r = Inr tx \<longrightarrow> ob_mechanism ob s' a n m h)) \<and>
     (\<forall>a n cs s r s'. api_batch_commit A a n cs s = (r, s') \<longrightarrow>
        steady ob s s' \<and> (\<forall>tx. r = Inr tx \<longrightarrow> (\<forall>(m, h) \<in> set cs. ob_mechanism ob s' a n m (api_commit_hash_to_hex A h))))"

definition reveal_calls :: "'s chain_api \<Rightarrow> 's observer \<Rightarrow> commitment_hash \<Rightarrow> bool" where
  "reveal_calls A ob H \<longleftrightarrow>
     (\<forall>a n us ws salt v s. ob_committed ob s a n (H a n us ws salt v) \<longrightarrow>
        steady ob s (snd (api_reveal_weights A a n (map ucast us) ws salt v s))) \<and>
     (\<forall>a n m us ws salt v s. ob_mechanism ob s a n m (mechanism_opening A a n m us ws salt v) \<longrightarrow>
        steady ob s (snd (api_reveal_mechanism_weights A a n m us ws salt v s)))"

definition chain_laws :: "'s chain_api \<Rightarrow> 's observer \<Rightarrow> commitment_hash \<Rightarrow> bool" where
  "chain_laws A ob H \<longleftrightarrow> neutral_calls A ob \<and> commit_calls A ob H \<and> reveal_calls A ob H"

lemma prepare_commit_law:
  "commit_calls A ob H \<Longrightarrow> api_prepare_commit_reveal A a n us ws v k s = (cd, s') \<Longrightarrow>
   steady ob s s' \<and> cd_commit_hash cd = H a n (cd_uids cd) (cd_weights cd) (cd_salt cd) (cd_version_key cd)"
  unfolding commit_calls_def by (elim conjE) simp

lemma prepare_mechanism_law:
  "commit_calls A ob H \<Longrightarrow> api_prepare_mechanism_commit A a n m us ws v k s = (cd, s') \<Longrightarrow>
   steady ob s s' \<and> cd_commit_hash cd = mechanism_opening A a n m (cd_uids cd) (cd_weights cd) (cd_salt cd) (cd_version_key cd)"
  unfolding commit_calls_def by (elim conjE) simp

lemma commit_law:
  "commit_calls A ob H \<Longrightarrow> api_commit_weights A a n h s = (r, s') \<Longrightarrow>
   steady ob s s' \<and> (\<forall>tx. r = Inr tx \<longrightarrow> ob_committed ob s' a n h)"
  unfolding commit_calls_def by (elim conjE) simp

lemma commit_mechanism_law:
  "commit_calls A ob H \<Longrightarrow> api_commit_mechanism_weights A a n m h s = (r, s') \<Longrightarrow>
   steady ob s s' \<and> (\<forall>tx. r = Inr tx \<longrightarrow> ob_mechanism ob s' a n m h)"
  unfolding commit_calls_def by (elim conjE) simp

lemma batch_commit_law:
  "commit_calls A ob H \<Longrightarrow> api_batch_commit A a n cs s = (r, s') \<Longrightarrow>
   steady ob s s' \<and> (\<forall>tx. r = Inr tx \<longrightarrow> (\<forall>(m, h) \<in> set cs. ob_mechanism ob s' a n m (api_commit_hash_to_hex A h)))"
  unfolding commit_calls_def by (elim conjE) simp

section \<open>The submitter reveals what it committed\<close>

definition pending_ok :: "'s chain_api \<Rightarrow> platform \<Rightarrow> 's observer \<Rightarrow> commitment_hash \<Rightarrow> WeightSubmitter \<Rightarrow> 's \<Rightarrow> bool" where
  "pending_ok A P ob H w s \<longleftrightarrow>
     (\<forall>a. stc_signer (wsb_client w) = Some a \<longrightarrow>
        (\<forall>p. pcs_pending_commit (wsb_state w) = Some p \<longrightarrow>
           ob_committed ob s a (netuid (wsb_client w))
             (H a (netuid (wsb_client w)) (p2_uids p) (p2_weights p) (get_salt P (p2_salt_hex p)) (p2_version_key p))) \<and>
        (\<forall>p \<in> set (hm_values (pcs_pending_mechanism_commits (wsb_state w))).
           ob_mechanism ob s a (netuid (wsb_client w)) (pm_mechanism_id p)
             (mechanism_opening A a (netuid (wsb_client w)) (pm_mechanism_id p) (pm_uids p) (pm_weights p)
                (get_salt P (pm_salt_hex p)) (pm_version_key p))))"

definition wsb_inv :: "'s chain_api \<Rightarrow> platform \<Rightarrow> 's observer \<Rightarrow> commitment_hash \<Rightarrow> WeightSubmitter \<times> 's \<Rightarrow> bool" where
  "wsb_inv A P ob H st \<longleftrightarrow>
     chain_laws A ob H \<and> hex_round_trip P \<and> pending_ok A P ob H (fst st) (snd st) \<and> ob_good ob (snd st)"

datatype submission_event =
    SetEpoch u64
  | SubmitWeights "WeightAssignment list"
  | ForceReveal
  | SubmitBatch mechanism_batch
  | RevealMechanisms

fun wsb_step :: "'s chain_api \<Rightarrow> platform \<Rightarrow> WeightSubmitter \<times> 's \<Rightarrow> submission_event \<Rightarrow> WeightSubmitter \<times> 's" where
  "wsb_step A P st (SetEpoch e) = set_epoch A e st"
| "wsb_step A P st (SubmitWeights ws) = snd (wsb_submit_weights A P ws st)"
| "wsb_step A P st ForceReveal = snd (force_reveal A P st)"
| "wsb_step A P st (SubmitBatch ms) = snd (submit_mechanism_weights_batch A P ms st)"
| "wsb_step A P st RevealMechanisms = snd (reveal_pending_mechanism_commits A P st)"

lemma pending_ok_steady:
  "pending_ok A P ob H w s \<Longrightarrow> steady ob s s' \<Longrightarrow> pending_ok A P ob H w s'"
  unfolding pending_ok_def steady_def by blast

lemma wsb_inv_steady:
  "wsb_inv A P ob H (w, s) \<Longrightarrow> steady ob s s' \<Longrightarrow> wsb_inv A P ob H (w, s')"
  using pending_ok_steady [of A P ob H w s s'] by (simp add: wsb_inv_def steady_def)

lemma wsb_inv_persist: "wsb_inv A P ob H st \<Longrightarrow> wsb_inv A P ob H (persist A st)"
  using wsb_inv_steady [of A P ob H "fst st" "snd st"]
  by (cases st) (simp add: persist_def wsb_inv_def chain_laws_def neutral_calls_def)

lemma client_and_signer_Inr:
  "client_and_signer c = Inr a \<Longrightarrow> stc_signer c = Some a"
  by (auto simp: client_and_signer_def stc_signer_result_def split: sum.splits option.splits)

lemma signer_result_Inr: "stc_signer_result c = Inr a \<longleftrightarrow> stc_signer c = Some a"
  by (auto simp: stc_signer_result_def split: option.splits)

lemma outside_pair [simp]: "outside f (w, s) = (fst (f s), w, snd (f s))"
  by (simp add: outside_def split: prod.splits)

lemma neutral_call_inv:
  assumes "wsb_inv A P ob H (w, s)" and "\<And>a. steady ob s (snd (f a s))"
  shows "wsb_inv A P ob H (snd (try_then (client_and_signer c, w, s) (\<lambda>a. outside (f a))))"
  using assms by (auto simp: try_then_def split: sum.splits intro: wsb_inv_steady)

lemma wsb_inv_laws:
  assumes "wsb_inv A P ob H st"
  shows "neutral_calls A ob" "commit_calls A ob H" "reveal_calls A ob H" "hex_round_trip P"
  using assms by (auto simp: wsb_inv_def chain_laws_def)

lemma submit_direct_inv:
  assumes "wsb_inv A P ob H (w, s)"
  shows "wsb_inv A P ob H (snd (submit_direct A ws (w, s)))"
  using assms wsb_inv_laws(1) [OF assms]
  by (auto simp: submit_direct_def Let_def neutral_calls_def split: prod.splits intro: neutral_call_inv)

lemma batch_direct_inv:
  assumes "wsb_inv A P ob H (w, s)"
  shows "wsb_inv A P ob H (snd (batch_direct A ms (w, s)))"
  using assms wsb_inv_laws(1) [OF assms]
  by (auto simp: batch_direct_def Let_def neutral_calls_def intro: neutral_call_inv)

lemma take_pending_inv:
  assumes "wsb_inv A P ob H (w, s)"
  shows "wsb_inv A P ob H (take_pending A (w, s))"
proof -
  have "wsb_inv A P ob H (w\<lparr>wsb_state := (wsb_state w)\<lparr>pcs_pending_commit := None\<rparr>\<rparr>, s)"
    using assms by (simp add: wsb_inv_def pending_ok_def)
  then show ?thesis by (simp add: take_pending_def wsb_inv_persist)
qed

definition v2_committed :: "platform \<Rightarrow> 's observer \<Rightarrow> commitment_hash \<Rightarrow> SubtensorClient \<Rightarrow> 's \<Rightarrow> PendingCommitV2 \<Rightarrow> bool" where
  "v2_committed P ob H c s p \<longleftrightarrow>
     (\<forall>a. stc_signer c = Some a \<longrightarrow>
        ob_committed ob s a (netuid c) (H a (netuid c) (p2_uids p) (p2_weights p) (get_salt P (p2_salt_hex p)) (p2_version_key p)))"

lemma reveal_pending_v2_inv:
  assumes "wsb_inv A P ob H (w, s)" and "v2_committed P ob H (wsb_client w) s p"
  shows "wsb_inv A P ob H (snd (reveal_pending_v2 A P p (w, s)))"
proof (cases "client_and_signer (wsb_client w)")
  case (Inr a)
  have "steady ob s (snd (api_reveal_weights A a (netuid (wsb_client w)) (map ucast (p2_uids p)) (p2_weights p)
      (get_salt P (p2_salt_hex p)) (p2_version_key p) s))"
    using wsb_inv_laws(3) [OF assms(1)] assms(2) client_and_signer_Inr [OF Inr]
    by (simp add: reveal_calls_def v2_committed_def)
  then show ?thesis
    using assms(1) by (simp add: reveal_pending_v2_def Let_def Inr wsb_inv_steady)
qed (use assms in \<open>simp add: reveal_pending_v2_def Let_def\<close>)

lemma pending_reveal_inv:
  assumes "wsb_inv A P ob H (w, s)" and "pcs_pending_commit (wsb_state w) = Some p"
  shows "wsb_inv A P ob H (snd (reveal_pending_v2 A P p (take_pending A (w, s))))"
proof -
  obtain w' s' where st: "take_pending A (w, s) = (w', s')" "wsb_client w' = wsb_client w"
    and s': "steady ob s s'"
    using wsb_inv_laws(1) [OF assms(1)] by (auto simp: take_pending_def persist_def neutral_calls_def)
  have "v2_committed P ob H (wsb_client w) s p"
    using assms by (auto simp: wsb_inv_def pending_ok_def v2_committed_def)
  then have "v2_committed P ob H (wsb_client w') s' p"
    using s' st(2) by (auto simp: v2_committed_def steady_def)
  with take_pending_inv [OF assms(1)] show ?thesis by (simp add: st(1) reveal_pending_v2_inv)
qed

lemma commit_new_inv:
  assumes "wsb_inv A P ob H (w, s)"
  shows "wsb_inv A P ob H (snd (commit_new A P uids values (w, s)))"
proof (cases "stc_signer_result (wsb_client w)")
  case (Inr a)
  let ?c = "wsb_client w"
  obtain cd s1 where prep: "api_prepare_commit_reveal A a (netuid ?c) (map ucast uids) values (version_key ?c) 8 s = (cd, s1)"
    by force
  note laws = wsb_inv_laws(2) [OF assms]
  have s1: "steady ob s s1" and cd: "cd_commit_hash cd = H a (netuid ?c) (cd_uids cd) (cd_weights cd) (cd_salt cd) (cd_version_key cd)"
    using prepare_commit_law [OF laws prep] by auto
  show ?thesis
  proof (cases "client_and_signer ?c")
    case (Inl e)
    then show ?thesis using assms s1 by (simp add: commit_new_def Let_def Inr prep wsb_inv_steady)
  next
    case (Inr a')
    then have "a' = a" using client_and_signer_Inr \<open>stc_signer_result ?c = Inr a\<close> by (fastforce simp: signer_result_Inr)
    obtain r s2 where commit: "api_commit_weights A a (netuid ?c) (cd_commit_hash cd) s1 = (r, s2)" by force
    then have s2: "steady ob s1 s2" and rec: "\<And>tx. r = Inr tx \<Longrightarrow> ob_committed ob s2 a (netuid ?c) (cd_commit_hash cd)"
      using commit_law [OF laws] by auto
    have inv2: "wsb_inv A P ob H (w, s2)" using assms s1 s2 by (blast intro: wsb_inv_steady)
    show ?thesis
    proof (cases r)
      case (Inl e)
      then show ?thesis using inv2 Inr \<open>stc_signer_result ?c = Inr a\<close> \<open>a' = a\<close> prep commit by (simp add: commit_new_def Let_def)
    next
      case (Inr tx)
      have "get_salt P (salt_to_hex P (cd_salt cd)) = cd_salt cd" using wsb_inv_laws(4) [OF assms] by simp
      then have "wsb_inv A P ob H (w\<lparr>wsb_state := (wsb_state w)\<lparr>pcs_pending_commit := Some (pending_of P (wsb_current_epoch w) cd)\<rparr>\<rparr>, s2)"
        using inv2 rec [OF Inr] \<open>stc_signer_result ?c = Inr a\<close>
        by (auto simp: wsb_inv_def pending_ok_def pending_of_def signer_result_Inr cd)
      then show ?thesis
        using Inr \<open>client_and_signer ?c = Inr a'\<close> \<open>stc_signer_result ?c = Inr a\<close> \<open>a' = a\<close> prep commit
        by (simp add: commit_new_def Let_def wsb_inv_persist)
    qed
  qed
qed (use assms in \<open>simp add: commit_new_def Let_def\<close>)

lemma hm_values_new [simp]: "hm_values hm_new = []"
  by (simp add: hm_values_def)

lemma steady_try:
  assumes "steady ob s (snd r)" and "\<And>a s1. r = (Inr a, s1) \<Longrightarrow> steady ob s1 (snd (k a s1))"
  shows "steady ob s (snd (try_then r k))"
  using assms by (cases r) (auto simp: try_then_def split: sum.splits intro: steady_trans)

lemma crv4_loop_steady:
  assumes "neutral_calls A ob"
  shows "steady ob s (snd (crv4_loop A a n v c f ms tx s))"
proof (induction ms arbitrary: tx s)
  case (Cons x ms)
  obtain m us ws where x: "x = (m, us, ws)" by (cases x)
  show ?case
    unfolding x crv4_loop.simps
    using assms Cons by (intro steady_try) (simp_all add: neutral_calls_def)
qed simp

lemma crv4_commits_steady:
  assumes "neutral_calls A ob"
  shows "steady ob s (snd (crv4_commits A w ms a block s))"
proof -
  obtain tempo s1 where t: "api_tempo A (netuid (wsb_client w)) s = (tempo, s1)" by force
  obtain period s2 where p: "api_reveal_period A (netuid (wsb_client w)) s1 = (period, s2)" by force
  have "steady ob s s2"
    using assms t p unfolding neutral_calls_def by (metis snd_conv steady_trans)
  moreover have "steady ob s2 (snd (crv4_commits A w ms a block s))"
    unfolding crv4_commits_def Let_def t p prod.case
    using assms by (intro steady_try) (simp_all add: crv4_loop_steady, simp add: neutral_calls_def)
  ultimately show ?thesis by (rule steady_trans)
qed

lemma batch_crv4_inv:
  assumes "wsb_inv A P ob H (w, s)"
  shows "wsb_inv A P ob H (snd (batch_crv4 A ms (w, s)))"
  unfolding batch_crv4_def fst_conv
  using wsb_inv_laws(1) [OF assms]
  by (intro neutral_call_inv [OF assms] steady_try) (simp_all add: crv4_commits_steady, simp add: neutral_calls_def)

lemma commit_loop_openings:
  assumes "neutral_calls A ob" "hex_round_trip P" and "commit_loop A P a n v e ms s = (calls, ps, s')"
  shows "steady ob s s' \<and> (\<forall>p \<in> set ps. (pm_mechanism_id p,
      api_mechanism_commit_hash A a n (pm_mechanism_id p) (pm_uids p) (pm_weights p) (get_salt P (pm_salt_hex p)) (pm_version_key p)) \<in> set calls)"
  using assms(3)
proof (induction ms arbitrary: s calls ps)
  case (Cons x ms)
  obtain m us ws where x: "x = (m, us, ws)" by (cases x)
  obtain salt s1 where salt: "api_generate_salt A 8 s = (salt, s1)" by force
  then have s1: "steady ob s s1" using assms(1) unfolding neutral_calls_def by (metis snd_conv)
  obtain calls' ps' where rest: "commit_loop A P a n v e ms s1 = (calls', ps', s')"
    and calls: "calls = (m, api_mechanism_commit_hash A a n m us ws salt v) # calls'"
    and ps: "ps = \<lparr>pm_mechanism_id = m, pm_hash = api_commit_hash_to_hex A (api_mechanism_commit_hash A a n m us ws salt v), pm_uids = us,
      pm_weights = ws, pm_salt_hex = salt_to_hex P salt, pm_version_key = v, pm_epoch = e\<rparr> # ps'"
    using Cons.prems by (auto simp: x salt Let_def split: prod.splits)
  from Cons.IH [OF rest] s1 show ?case
    unfolding calls ps using assms(2) by (auto intro: steady_trans)
qed simp

lemma store_pending_values:
  "set (hm_values (store_pending ps m)) \<subseteq> set (hm_values m) \<union> set ps"
proof (induction ps arbitrary: m)
  case (Cons p ps)
  have "set (hm_values (hm_insert (pm_mechanism_id p) p m)) \<subseteq> insert p (set (hm_values m))"
    by (auto simp: set_hm_values ran_def lookup_update split: if_splits)
  with Cons [of "hm_insert (pm_mechanism_id p) p m"] show ?case by (auto simp: store_pending_def)
qed (simp add: store_pending_def)

lemma batch_commit_reveal_inv:
  assumes "wsb_inv A P ob H (w, s)"
  shows "wsb_inv A P ob H (snd (batch_commit_reveal A P ms (w, s)))"
proof (cases "stc_signer_result (wsb_client w)")
  case (Inr a)
  let ?c = "wsb_client w"
  note N = wsb_inv_laws(1) [OF assms] and C = wsb_inv_laws(2) [OF assms] and hex = wsb_inv_laws(4) [OF assms]
  obtain calls ps s1 where loop: "commit_loop A P a (netuid ?c) (version_key ?c) (wsb_current_epoch w) ms s = (calls, ps, s1)"
    by (metis prod_cases3)
  note opened = commit_loop_openings [OF N hex loop]
  have a: "stc_signer ?c = Some a" using Inr by (simp add: signer_result_Inr)
  show ?thesis
  proof (cases "client_and_signer ?c")
    case (Inl e)
    then show ?thesis using assms opened by (simp add: batch_commit_reveal_def Let_def \<open>stc_signer_result ?c = Inr a\<close> loop wsb_inv_steady)
  next
    case (Inr a')
    then have "a' = a" using client_and_signer_Inr a by fastforce
    obtain r s2 where commit: "api_batch_commit A a (netuid ?c) calls s1 = (r, s2)" by force
    note step = batch_commit_law [OF C commit]
    have inv2: "wsb_inv A P ob H (w, s2)" using assms opened step by (blast intro: wsb_inv_steady)
    let ?w = "w\<lparr>wsb_state := (wsb_state w)\<lparr>pcs_pending_mechanism_commits := store_pending ps (pcs_pending_mechanism_commits (wsb_state w)),
      pcs_committed_epoch := Some (wsb_current_epoch w)\<rparr>\<rparr>"
    have "wsb_inv A P ob H (?w, s2)" if "r = Inr tx" for tx
    proof -
      have "ob_mechanism ob s2 a (netuid ?c) (pm_mechanism_id p) (mechanism_opening A a (netuid ?c) (pm_mechanism_id p)
          (pm_uids p) (pm_weights p) (get_salt P (pm_salt_hex p)) (pm_version_key p))" if "p \<in> set ps" for p
        using step opened that \<open>r = Inr tx\<close> by (fastforce simp: mechanism_opening_def)
      then show ?thesis
        using inv2 a store_pending_values [of ps "pcs_pending_mechanism_commits (wsb_state w)"]
        by (auto simp: wsb_inv_def pending_ok_def)
    qed
    then show ?thesis
      using inv2 Inr \<open>stc_signer_result ?c = Inr a\<close> \<open>a' = a\<close> loop commit
      by (cases r) (simp_all add: batch_commit_reveal_def Let_def wsb_inv_persist)
  qed
qed (use assms in \<open>simp add: batch_commit_reveal_def Let_def\<close>)

lemma is_crv4_enabled_inv:
  assumes "wsb_inv A P ob H (w, s)" and "is_crv4_enabled A (w, s) = (b, w', s')"
  shows "wsb_inv A P ob H (w', s')"
proof -
  have "steady ob s (snd (api_commit_reveal_version A s))"
    using wsb_inv_laws(1) [OF assms(1)] by (simp add: neutral_calls_def)
  then have "steady ob s s'" and "wsb_client w' = wsb_client w" "wsb_state w' = wsb_state w"
    using assms(2)
    by (auto simp: is_crv4_enabled_def get_crv_version_def Let_def split: option.splits sum.splits prod.splits)
  with wsb_inv_steady [OF assms(1)] show ?thesis by (simp add: wsb_inv_def pending_ok_def)
qed

lemma submit_batch_inv:
  assumes "wsb_inv A P ob H (w, s)"
  shows "wsb_inv A P ob H (snd (submit_mechanism_weights_batch A P ms (w, s)))"
proof -
  obtain b w' s' where v: "is_crv4_enabled A (w, s) = (b, w', s')" by (metis prod_cases3)
  note inv' = is_crv4_enabled_inv [OF assms v]
  show ?thesis
    using assms batch_direct_inv [OF assms] batch_crv4_inv [OF inv'] batch_commit_reveal_inv [OF inv']
    by (simp add: submit_mechanism_weights_batch_def v)
qed

definition mechanism_committed :: "'s chain_api \<Rightarrow> platform \<Rightarrow> 's observer \<Rightarrow> SubtensorClient \<Rightarrow> 's \<Rightarrow> PendingMechanismCommit \<Rightarrow> bool" where
  "mechanism_committed A P ob c s p \<longleftrightarrow>
     (\<forall>a. stc_signer c = Some a \<longrightarrow>
        ob_mechanism ob s a (netuid c) (pm_mechanism_id p) (mechanism_opening A a (netuid c) (pm_mechanism_id p) (pm_uids p)
          (pm_weights p) (get_salt P (pm_salt_hex p)) (pm_version_key p)))"

lemma reveal_loop_steady:
  assumes "reveal_calls A ob H" and "\<forall>(i, p) \<in> set ps. mechanism_committed A P ob c s p"
  shows "steady ob s (snd (reveal_loop A P c ps tx revealed s))"
  using assms(2)
proof (induction ps arbitrary: tx revealed s)
  case (Cons x ps)
  obtain i p where x: "x = (i, p)" by (cases x)
  show ?case
  proof (cases "client_and_signer c")
    case (Inl e)
    then show ?thesis by (simp add: x)
  next
    case (Inr a)
    have step: "steady ob s (snd (api_reveal_mechanism_weights A a (netuid c) (pm_mechanism_id p) (pm_uids p) (pm_weights p)
        (get_salt P (pm_salt_hex p)) (pm_version_key p) s))"
      using assms(1) Cons.prems client_and_signer_Inr [OF Inr] by (simp add: x reveal_calls_def mechanism_committed_def)
    then have "\<forall>(i, p) \<in> set ps. mechanism_committed A P ob c s1 p" if "steady ob s s1" for s1
      using Cons.prems that by (fastforce simp: mechanism_committed_def steady_def)
    then show ?thesis
      unfolding x reveal_loop.simps Inr try_then_simps
      using step Cons.IH by (intro steady_try) (auto dest: steady_trans)
  qed
qed simp

lemma reveal_mechanisms_inv:
  assumes "wsb_inv A P ob H (w, s)"
  shows "wsb_inv A P ob H (snd (reveal_pending_mechanism_commits A P (w, s)))"
proof -
  let ?ps = "hm_iter (pcs_pending_mechanism_commits (wsb_state w))"
  let ?w = "w\<lparr>wsb_state := (wsb_state w)\<lparr>pcs_pending_mechanism_commits := hm_new\<rparr>\<rparr>"
  let ?s = "api_save A (wsb_persist_path ?w) (wsb_state ?w) s"
  have "wsb_inv A P ob H (?w, s)" using assms by (simp add: wsb_inv_def pending_ok_def)
  then have inv: "wsb_inv A P ob H (?w, ?s)" using wsb_inv_persist by (fastforce simp: persist_def)
  have s: "steady ob s ?s" using wsb_inv_laws(1) [OF assms] by (simp add: neutral_calls_def)
  have "\<forall>(i, p) \<in> set ?ps. mechanism_committed A P ob (wsb_client w) s p"
    using assms by (fastforce simp: wsb_inv_def pending_ok_def mechanism_committed_def hm_in_iter set_hm_values ran_def)
  then have "\<forall>(i, p) \<in> set ?ps. mechanism_committed A P ob (wsb_client w) ?s p"
    using s by (fastforce simp: mechanism_committed_def steady_def)
  note loop = reveal_loop_steady [OF wsb_inv_laws(3) [OF assms] this]
  obtain r s1 where run: "reveal_loop A P (wsb_client w) ?ps [] [] ?s = (r, s1)" by force
  have inv1: "wsb_inv A P ob H (?w, s1)" by (rule wsb_inv_steady [OF inv loop [of "[]" "[]", unfolded run snd_conv]])
  show ?thesis
  proof (cases r)
    case (Inl e)
    then show ?thesis using inv1 assms run by (simp add: reveal_pending_mechanism_commits_def Let_def persist_def)
  next
    case (Inr x)
    have "wsb_inv A P ob H (?w\<lparr>wsb_state := (wsb_state ?w)\<lparr>pcs_last_revealed_epoch := m\<rparr>\<rparr>, s1)" for m
      using inv1 by (simp add: wsb_inv_def pending_ok_def)
    from wsb_inv_persist [OF this] assms run Inr show ?thesis
      by (simp add: reveal_pending_mechanism_commits_def Let_def persist_def split: prod.splits)
  qed
qed

lemma set_epoch_inv:
  assumes "wsb_inv A P ob H (w, s)"
  shows "wsb_inv A P ob H (set_epoch A e (w, s))"
proof -
  have "wsb_inv A P ob H (w\<lparr>wsb_current_epoch := e, wsb_state := pcs_new_epoch (wsb_state w) e\<rparr>, s)"
    using assms by (auto simp: wsb_inv_def pending_ok_def pcs_new_epoch_def)
  then show ?thesis using assms by (simp add: set_epoch_def wsb_inv_persist)
qed

lemma submit_weights_inv:
  assumes "wsb_inv A P ob H (w, s)"
  shows "wsb_inv A P ob H (snd (wsb_submit_weights A P ws (w, s)))"
  using assms submit_direct_inv [OF assms] pending_reveal_inv [OF assms] commit_new_inv [OF assms]
  by (auto simp: wsb_submit_weights_def submit_with_commit_reveal_def split: option.splits prod.splits)

lemma force_reveal_inv:
  assumes "wsb_inv A P ob H (w, s)"
  shows "wsb_inv A P ob H (snd (force_reveal A P (w, s)))"
proof (cases "pcs_pending_commit (wsb_state w)")
  case (Some p)
  have "snd (try_then r (\<lambda>tx st'. (Inr (Some tx), st'))) = snd r" for r :: "(string + string) \<times> WeightSubmitter \<times> 'a"
    by (cases r) (auto simp: try_then_def split: sum.splits)
  then show ?thesis using pending_reveal_inv [OF assms Some] by (simp add: force_reveal_def Some)
qed (use assms in \<open>simp add: force_reveal_def\<close>)

interpretation submitter: machine "wsb_step A P" "wsb_inv A P ob H" for A P ob H
proof
  fix st :: "WeightSubmitter \<times> 'a" and e
  assume "wsb_inv A P ob H st"
  then show "wsb_inv A P ob H (wsb_step A P st e)"
    by (cases st; cases e)
      (simp_all add: set_epoch_inv submit_weights_inv force_reveal_inv submit_batch_inv reveal_mechanisms_inv)
qed

section \<open>The manager reveals what it committed\<close>

definition mgr_committed :: "'s chain_api \<Rightarrow> 's observer \<Rightarrow> SubtensorClient \<Rightarrow> 's \<Rightarrow> PendingMechanismCommitV2 \<Rightarrow> bool" where
  "mgr_committed A ob c s p \<longleftrightarrow>
     (\<forall>a. stc_signer c = Some a \<longrightarrow>
        ob_mechanism ob s a (netuid c) (pv_mechanism_id p)
          (mechanism_opening A a (netuid c) (pv_mechanism_id p) (pv_uids p) (pv_weights p) (pv_salt p) (pv_version_key p)))"

definition mgr_inv :: "'s chain_api \<Rightarrow> 's observer \<Rightarrow> commitment_hash \<Rightarrow> BtMechanismWeightManager \<times> 's \<Rightarrow> bool" where
  "mgr_inv A ob H st \<longleftrightarrow>
     chain_laws A ob H \<and> (\<forall>p \<in> ran (hm_get (mgr_pending (fst st))). mgr_committed A ob (mgr_client (fst st)) (snd st) p) \<and>
     ob_good ob (snd st)"

datatype manager_event =
    SubmitMechanism u8 "WeightAssignment list" u64
  | RevealAll
  | ResetTracking

fun mgr_step :: "'s chain_api \<Rightarrow> BtMechanismWeightManager \<times> 's \<Rightarrow> manager_event \<Rightarrow> BtMechanismWeightManager \<times> 's" where
  "mgr_step A st (SubmitMechanism i ws e) = snd (submit_mechanism_weights A i ws e st)"
| "mgr_step A st RevealAll = snd (reveal_all_pending A st)"
| "mgr_step A (m, s) ResetTracking = (reset_epoch_tracking m, s)"

lemma mgr_committed_steady: "mgr_committed A ob c s p \<Longrightarrow> steady ob s s' \<Longrightarrow> mgr_committed A ob c s' p"
  by (simp add: mgr_committed_def steady_def)

lemma mgr_inv_steady:
  assumes "mgr_inv A ob H (m, s)" and "steady ob s s'" and "mgr_client m' = mgr_client m"
    and "ran (hm_get (mgr_pending m')) \<subseteq> ran (hm_get (mgr_pending m))"
  shows "mgr_inv A ob H (m', s')"
  using assms mgr_committed_steady [OF _ assms(2)] by (auto simp: mgr_inv_def steady_def)

lemma mgr_neutral_inv:
  assumes "mgr_inv A ob H (m, s)" and "\<And>a. client_and_signer c = Inr a \<Longrightarrow> steady ob s (snd (f a s))"
    and "\<And>tx. mgr_client (g m) = mgr_client m \<and> mgr_pending (g m) = mgr_pending m"
  shows "mgr_inv A ob H (snd (try_then (client_and_signer c, m, s) (\<lambda>a st1.
    try_then (outside (f a) st1) (\<lambda>tx (m', s'). (Inr (Some tx), g m', s')))))"
proof (cases "client_and_signer c")
  case (Inr a)
  obtain r s1 where r: "f a s = (r, s1)" by force
  then have s1: "steady ob s s1" using assms(2) [OF Inr] by simp
  have "mgr_inv A ob H (m, s1)" "mgr_inv A ob H (g m, s1)"
    using mgr_inv_steady [OF assms(1) s1] assms(3) by simp_all
  then show ?thesis by (cases r) (simp_all add: Inr r)
qed (use assms(1) in simp)

lemma mgr_inv_laws:
  assumes "mgr_inv A ob H st"
  shows "neutral_calls A ob" "commit_calls A ob H" "reveal_calls A ob H"
  using assms by (auto simp: mgr_inv_def chain_laws_def)

lemma submit_mechanism_direct_inv:
  assumes "mgr_inv A ob H (m, s)"
  shows "mgr_inv A ob H (snd (submit_mechanism_direct A i us ws e (m, s)))"
  unfolding submit_mechanism_direct_def Let_def fst_conv
  using mgr_inv_laws(1) [OF assms] by (intro mgr_neutral_inv [OF assms]) (simp_all add: neutral_calls_def)

lemma reveal_mechanism_inv:
  assumes "mgr_inv A ob H (m, s)" and "mgr_committed A ob (mgr_client m) s p"
  shows "mgr_inv A ob H (snd (reveal_mechanism_pending_v2 A p (m, s)))"
  unfolding reveal_mechanism_pending_v2_def Let_def fst_conv
  using mgr_inv_laws(3) [OF assms(1)] assms(2) client_and_signer_Inr
  by (intro mgr_neutral_inv [OF assms(1)]) (simp_all add: reveal_calls_def mgr_committed_def)

lemma remove_pending_inv:
  assumes "mgr_inv A ob H (m, s)"
  shows "mgr_inv A ob H (m\<lparr>mgr_pending := hm_remove i (mgr_pending m)\<rparr>, s)"
proof (rule mgr_inv_steady [OF assms steady_refl])
  show "ran (hm_get (mgr_pending (m\<lparr>mgr_pending := hm_remove i (mgr_pending m)\<rparr>))) \<subseteq> ran (hm_get (mgr_pending m))"
    by (auto simp: ran_def lookup_delete split: if_splits)
qed simp

lemma pending_committed:
  "mgr_inv A ob H (m, s) \<Longrightarrow> hm_get (mgr_pending m) i = Some p \<Longrightarrow> mgr_committed A ob (mgr_client m) s p"
  by (auto simp: mgr_inv_def ran_def)

lemma remove_and_reveal_inv:
  assumes "mgr_inv A ob H (m, s)" and "hm_get (mgr_pending m) i = Some p"
  shows "mgr_inv A ob H (snd (reveal_mechanism_pending_v2 A p (m\<lparr>mgr_pending := hm_remove i (mgr_pending m)\<rparr>, s)))"
  using reveal_mechanism_inv [OF remove_pending_inv [OF assms(1)], of i p] pending_committed [OF assms] by simp

lemma mgr_commit_inv:
  assumes "mgr_inv A ob H (m, s)" and "hm_get (mgr_pending m) i = None"
  shows "mgr_inv A ob H (snd (submit_mechanism_with_commit_reveal A i us ws e (m, s)))"
proof (cases "stc_signer_result (mgr_client m)")
  case (Inr a)
  let ?c = "mgr_client m"
  obtain cd s1 where prep: "api_prepare_mechanism_commit A a (netuid ?c) i (map ucast us) ws (version_key ?c) 8 s = (cd, s1)"
    by force
  note p = prepare_mechanism_law [OF mgr_inv_laws(2) [OF assms(1)] prep]
  have inv1: "mgr_inv A ob H (m, s1)" using mgr_inv_steady [OF assms(1)] p by simp
  have a: "stc_signer ?c = Some a" using Inr by (simp add: signer_result_Inr)
  show ?thesis
  proof (cases "client_and_signer ?c")
    case (Inl err)
    then show ?thesis
      using inv1 assms(2) \<open>stc_signer_result ?c = Inr a\<close> by (simp add: submit_mechanism_with_commit_reveal_def Let_def prep)
  next
    case (Inr a')
    then have "a' = a" using client_and_signer_Inr a by fastforce
    obtain r s2 where commit: "api_commit_mechanism_weights A a (netuid ?c) i (cd_commit_hash cd) s1 = (r, s2)" by force
    note c = commit_mechanism_law [OF mgr_inv_laws(2) [OF assms(1)] commit]
    have inv2: "mgr_inv A ob H (m, s2)" using mgr_inv_steady [OF inv1] c by simp
    let ?p = "\<lparr>pv_mechanism_id = i, pv_hash = cd_commit_hash cd, pv_uids = cd_uids cd, pv_weights = cd_weights cd, pv_salt = cd_salt cd,
      pv_version_key = cd_version_key cd, pv_epoch = e\<rparr>"
    have "mgr_inv A ob H (m\<lparr>mgr_pending := hm_insert i ?p (mgr_pending m)\<rparr>, s2)" if "r = Inr tx" for tx
    proof -
      have "mgr_committed A ob ?c s2 ?p" using c p a that by (simp add: mgr_committed_def)
      moreover have "ran (hm_get (hm_insert i ?p (mgr_pending m))) \<subseteq> insert ?p (ran (hm_get (mgr_pending m)))"
        by (auto simp: ran_def lookup_update split: if_splits)
      ultimately show ?thesis using inv2 by (auto simp: mgr_inv_def)
    qed
    then show ?thesis
      using inv2 assms(2) Inr \<open>stc_signer_result ?c = Inr a\<close> \<open>a' = a\<close> prep commit
      by (cases r) (simp_all add: submit_mechanism_with_commit_reveal_def Let_def)
  qed
qed (use assms in \<open>simp add: submit_mechanism_with_commit_reveal_def Let_def\<close>)

lemma submit_mechanism_inv:
  assumes "mgr_inv A ob H (m, s)"
  shows "mgr_inv A ob H (snd (submit_mechanism_weights A i ws e (m, s)))"
proof -
  have "mgr_inv A ob H (snd (submit_mechanism_with_commit_reveal A i us vs e (m, s)))" for us vs
    using remove_and_reveal_inv [OF assms] mgr_commit_inv [OF assms]
    by (cases "hm_get (mgr_pending m) i") (simp_all add: submit_mechanism_with_commit_reveal_def)
  then show ?thesis
    using assms submit_mechanism_direct_inv [OF assms] by (simp add: submit_mechanism_weights_def split: prod.splits)
qed

lemma reveal_ids_inv:
  assumes "mgr_inv A ob H st"
  shows "mgr_inv A ob H (snd (reveal_ids A is results st))"
  using assms
proof (induction "is" arbitrary: results st)
  case (Cons i "is")
  obtain m s where st: "st = (m, s)" by (cases st)
  show ?case
  proof (cases "hm_get (mgr_pending m) i")
    case (Some p)
    note inv = remove_and_reveal_inv [OF Cons.prems [unfolded st] Some]
    obtain r st1 where run: "reveal_mechanism_pending_v2 A p (m\<lparr>mgr_pending := hm_remove i (mgr_pending m)\<rparr>, s) = (r, st1)"
      by (metis prod.exhaust)
    then show ?thesis using inv Cons.IH by (cases r) (simp_all add: st Some)
  qed (use Cons in \<open>simp add: st\<close>)
qed simp

interpretation manager: machine "mgr_step A" "mgr_inv A ob H" for A ob H
proof
  fix st :: "BtMechanismWeightManager \<times> 'a" and e
  assume inv: "mgr_inv A ob H st"
  obtain m s where st: "st = (m, s)" by (cases st)
  show "mgr_inv A ob H (mgr_step A st e)"
    using inv unfolding st
    by (cases e) (simp_all add: submit_mechanism_inv reveal_all_pending_def reveal_ids_inv, simp add: mgr_inv_def reset_epoch_tracking_def)
qed

section \<open>Filling up with the burn entry\<close>

lemma sum_list_u32:
  assumes "length ws \<le> 65536"
  shows "unat (sum_list (map ucast ws :: u32 list)) = weight_total ws"
proof -
  have bound: "weight_total ws \<le> length ws * 65535" for ws
  proof (induction ws)
    case (Cons w ws)
    moreover have "unat w < 65536" using unsigned_less [of w, where 'a = nat] by simp
    ultimately show ?case by (simp add: weight_total_def)
  qed (simp add: weight_total_def)
  have "(sum_list (map ucast ws) :: u32) = of_nat (weight_total ws)"
    by (induction ws) (simp_all add: weight_total_def)
  moreover have "weight_total ws < 2 ^ 32" using bound [of ws] assms by simp
  ultimately show ?thesis by (simp add: unat_of_nat)
qed

lemma weight_total_append [simp]: "weight_total (xs @ ys) = weight_total xs + weight_total ys"
  by (simp add: weight_total_def)

lemma weight_total_update:
  assumes "i < length ws"
  shows "weight_total (ws[i := w]) + unat (ws ! i) = weight_total ws + unat w"
  using assms
proof (induction ws arbitrary: i)
  case (Cons x ws)
  then show ?case by (cases i) (fastforce simp: weight_total_def)+
qed simp

lemma position_Some: "position P xs = Some i \<Longrightarrow> i < length xs \<and> P (xs ! i)"
  by (induction xs arbitrary: i) (auto split: if_splits option.splits)

text \<open>
  C37. Submitted weights are complete. Whatever the challenge assigned, the identifiers and 16-bit weights prepared for a mechanism pair up,
  the weights add up to 65535 or, if the assignments already exceed it, to their own total; every other entry than that of the
  burn identifier 0 is as converted.
\<close>

theorem fill_with_burn_complete:
  assumes "length uids = length ws" and "length ws \<le> 65536" and "fill_with_burn uids ws = (uids', ws')"
  shows "length uids' = length ws' \<and> weight_total ws' = max 65535 (weight_total ws) \<and>
     (\<forall>i < length uids. uids' ! i = uids ! i \<and> (uids ! i \<noteq> 0 \<longrightarrow> ws' ! i = ws ! i))"
proof (cases "uids = []")
  case True
  then show ?thesis using assms by (auto simp: fill_with_burn_def TARGET_SUM_def weight_total_def)
next
  case False
  define total where "total = (sum_list (map ucast ws) :: u32)"
  have t: "unat total = weight_total ws" unfolding total_def by (rule sum_list_u32 [OF assms(2)])
  show ?thesis
  proof (cases "total < TARGET_SUM")
    case less: True
    have lt: "weight_total ws < 65535"
      using less t by (simp add: word_less_nat_alt TARGET_SUM_def)
    define r where "r = (ucast (TARGET_SUM - total) :: u16)"
    have r: "unat r = 65535 - weight_total ws"
      using less t by (simp add: r_def TARGET_SUM_def unat_sub word_le_nat_alt word_less_nat_alt unsigned_ucast_eq take_bit_eq_mod)
    then have "r > 0" using lt by (simp add: word_less_nat_alt)
    show ?thesis
    proof (cases "position (\<lambda>u. u = 0) uids")
      case None
      then show ?thesis
        using assms(1, 3) False less \<open>r > 0\<close> r lt
        by (auto simp: fill_with_burn_def total_def r_def Let_def nth_append weight_total_def)
    next
      case (Some i)
      note i = position_Some [OF Some]
      have le: "unat (ws ! i) \<le> weight_total ws"
        using i assms(1) by (simp add: weight_total_def member_le_sum_list)
      then have no_overflow: "unat (ws ! i) + unat r \<le> 65535" using r lt by simp
      have "unat (ws ! i + r) = unat (ws ! i) + unat r" using no_overflow by (simp add: unat_add_lem [THEN iffD1])
      then have "saturating_add_u16 (ws ! i) r = ws ! i + r" "weight_total (ws[i := ws ! i + r]) = 65535"
        using no_overflow weight_total_update [of i ws "ws ! i + r"] i assms(1) r lt by (simp_all add: saturating_add_u16_def)
      then show ?thesis
        using assms(1, 3) False less \<open>r > 0\<close> Some lt i
        by (auto simp: fill_with_burn_def total_def r_def Let_def nth_list_update)
    qed
  next
    case False
    then show ?thesis
      using assms(1, 3) \<open>uids \<noteq> []\<close> t by (auto simp: fill_with_burn_def total_def TARGET_SUM_def Let_def word_less_nat_alt)
  qed
qed

theorem fill_with_burn_complete_witness:
  "fill_with_burn [3, 0, 9] [100, 5, 7] = ([3, 0, 9], [100, 65428, 7]) \<and> weight_total [100, 65428, 7] = 65535"
proof -
  have "fill_with_burn [3, 0, 9] [100, 5, 7] = ([3, 0, 9], [100, 65428, 7])"
    by (simp add: fill_with_burn_def TARGET_SUM_def saturating_add_u16_def Let_def)
  with fill_with_burn_complete [OF _ _ this] show ?thesis by (simp add: weight_total_def)
qed

section \<open>A chain that records commits and checks reveals\<close>

record sample_chain =
  sch_committed :: "(bytes \<times> u16 \<times> string) list"
  sch_mechanism :: "(bytes \<times> u16 \<times> u8 \<times> string) list"
  sch_reveals :: nat
  sch_sound :: bool

definition sample_hash :: commitment_hash where
  "sample_hash a n us ws salt v = map (\<lambda>x. char_of (unat x)) (us @ ws @ salt)"

definition sample_commit_data :: "u16 list \<Rightarrow> u16 list \<Rightarrow> u64 \<Rightarrow> CommitData" where
  "sample_commit_data us ws v =
     \<lparr>cd_commit_hash = map (\<lambda>x. char_of (unat x)) (us @ ws @ [1]), cd_uids = us, cd_weights = ws, cd_salt = [1], cd_version_key = v\<rparr>"

definition sample_api :: "sample_chain chain_api" where
  "sample_api =
     \<lparr>api_ss58 = (\<lambda>_. None), api_connect = (\<lambda>_. Pair (Inr ())), api_signer_from_seed = (\<lambda>_. Inr [1]),
      api_sync_metagraph = (\<lambda>_. Pair (Inr [])), api_set_weights = (\<lambda>_ _ _ _ _. Pair (Inr ''tx'')),
      api_prepare_commit_reveal = (\<lambda>a n us ws v k. Pair (sample_commit_data us ws v)),
      api_commit_weights = (\<lambda>a n h s. (Inr ''tx'', s\<lparr>sch_committed := (a, n, h) # sch_committed s\<rparr>)),
      api_reveal_weights = (\<lambda>a n us ws salt v s.
        (Inr ''tx'', s\<lparr>sch_reveals := Suc (sch_reveals s),
          sch_sound := sch_sound s \<and> (a, n, sample_hash a n (map ucast us) ws salt v) \<in> set (sch_committed s)\<rparr>)),
      api_set_mechanism_weights = (\<lambda>_ _ _ _ _ _. Pair (Inr ''tx'')),
      api_prepare_mechanism_commit = (\<lambda>a n m us ws v k. Pair (sample_commit_data us ws v)),
      api_commit_mechanism_weights = (\<lambda>a n m h s. (Inr ''tx'', s\<lparr>sch_mechanism := (a, n, m, h) # sch_mechanism s\<rparr>)),
      api_reveal_mechanism_weights = (\<lambda>a n m us ws salt v s.
        (Inr ''tx'', s\<lparr>sch_reveals := Suc (sch_reveals s),
          sch_sound := sch_sound s \<and> (a, n, m, map (\<lambda>x. char_of (unat x)) (us @ ws @ salt)) \<in> set (sch_mechanism s)\<rparr>)),
      api_generate_salt = (\<lambda>k. Pair (replicate k 2)),
      api_mechanism_commit_hash = (\<lambda>a n m us ws salt v. map (\<lambda>x. of_nat (unat x mod 256)) (us @ ws @ salt)),
      api_commit_hash_to_hex = map (\<lambda>x. char_of (unat x)),
      api_batch_commit = (\<lambda>a n cs s. (Inr ''tx'',
        s\<lparr>sch_mechanism := map (\<lambda>(m, h). (a, n, m, map (\<lambda>x. char_of (unat x)) h)) cs @ sch_mechanism s\<rparr>)),
      api_batch_set_mechanism_weights = (\<lambda>_ _ _ _. Pair (Inr ''tx'')), api_commit_reveal_version = Pair (Inr 3),
      api_block_number = Pair (Inr 1), api_tempo = (\<lambda>_. Pair (Inr 360)), api_reveal_period = (\<lambda>_. Pair (Inr 1)),
      api_last_drand_round = Pair (Inr 1), api_storage_index = (\<lambda>n m. n), api_reveal_round = (\<lambda>_ _ _ _ _ r. r),
      api_prepare_crv4 = (\<lambda>_ _ _ _ _. Pair (Inr [])), api_commit_timelocked = (\<lambda>_ _ _ _ _ _. Pair (Inr ''tx'')),
      api_next_epoch_start = (\<lambda>_. Pair (Inr None)), api_default_crv_version = 4, api_load = (\<lambda>_ _. None),
      api_save = (\<lambda>_ _ s. s)\<rparr>"

definition sample_observer :: "sample_chain observer" where
  "sample_observer =
     \<lparr>ob_committed = (\<lambda>s a n h. (a, n, h) \<in> set (sch_committed s)),
      ob_mechanism = (\<lambda>s a n m h. (a, n, m, h) \<in> set (sch_mechanism s)), ob_good = sch_sound\<rparr>"

definition sample_client :: SubtensorClient where
  "sample_client =
     \<lparr>stc_config = BittensorConfig_testnet 7, stc_connected = True, stc_signer = Some [1], stc_metagraph = None,
      stc_uid_overrides = hm_new\<rparr>"

definition sample_submitter :: WeightSubmitter where
  "sample_submitter =
     \<lparr>wsb_client = sample_client, wsb_state = PersistedCommitState_default, wsb_persist_path = ''p'', wsb_current_epoch = 0,
      wsb_cached_crv_version = None\<rparr>"

definition sample_world :: sample_chain where
  "sample_world = \<lparr>sch_committed = [], sch_mechanism = [], sch_reveals = 0, sch_sound = True\<rparr>"

lemma char_of_byte: "(char_of (unat (of_nat (unat x mod 256) :: u8)) :: char) = char_of (unat (x :: u16))"
proof -
  have "unat (of_nat (unat x mod 256) :: u8) = unat x mod 256" by (simp add: unat_of_nat)
  then show ?thesis using char_of_mod_256 [of "unat x"] by simp
qed

lemma sample_chain_laws: "chain_laws sample_api sample_observer sample_hash"
proof -
  have "neutral_calls sample_api sample_observer"
    by (simp add: neutral_calls_def sample_api_def)
  moreover have "commit_calls sample_api sample_observer sample_hash"
    by (auto simp: commit_calls_def sample_api_def sample_observer_def steady_def sample_commit_data_def sample_hash_def mechanism_opening_def
        char_of_byte comp_def rev_image_eqI)
  moreover have "reveal_calls sample_api sample_observer sample_hash"
    by (auto simp: reveal_calls_def sample_api_def sample_observer_def steady_def mechanism_opening_def sample_hash_def char_of_byte
        comp_def ucast_up_ucast_id is_up.rep_eq)
  ultimately show ?thesis by (simp add: chain_laws_def)
qed

lemma sample_hex_round_trip: "hex_round_trip sample_platform"
  using as_bytes_of_bytes by (simp add: hex_round_trip_def sample_platform_def as_bytes_def of_bytes_def)

text \<open>
  C36. Only commitments are revealed. From a start without pending commits, whatever weights the submitter and the manager of mechanism
  weights are given, over any sequence of submissions, batches, reveals and epoch changes, and whichever calls fail, every
  reveal they send opens, with its identifiers, weights, salt and version, a hash the account has committed: any property of the
  chain that such reveals keep, and that no other call breaks, stays true.
\<close>

theorem reveals_open_commitments:
  assumes "chain_laws A ob H" and "hex_round_trip P" and "ob_good ob s"
    and "pcs_pending_commit (wsb_state w) = None" "hm_iter (pcs_pending_mechanism_commits (wsb_state w)) = []"
    and "hm_iter (mgr_pending m) = []"
  shows "ob_good ob (snd (foldl (wsb_step A P) (w, s) es)) \<and> ob_good ob (snd (foldl (mgr_step A) (m, s) fs))"
proof -
  have "wsb_inv A P ob H (w, s)" using assms(1-5) by (simp add: wsb_inv_def pending_ok_def hm_values_def)
  moreover have "mgr_inv A ob H (m, s)" using assms(1, 3, 6) by (simp add: mgr_inv_def ran_def hm_get_iter)
  ultimately show ?thesis
    using submitter.run_inv [of A P ob H "(w, s)" es] manager.run_inv [of A ob H "(m, s)" fs] by (simp add: wsb_inv_def mgr_inv_def)
qed

theorem reveals_open_commitments_witness:
  "sch_reveals (snd (foldl (wsb_step sample_api sample_platform) (sample_submitter, sample_world)
     [SetEpoch 1, SubmitBatch [(0, [4], [9]), (1, [4, 5], [1, 2])], RevealMechanisms])) = 2 \<and>
   sch_sound (snd (foldl (wsb_step sample_api sample_platform) (sample_submitter, sample_world)
     [SetEpoch 1, SubmitBatch [(0, [4], [9]), (1, [4, 5], [1, 2])], RevealMechanisms]))"
proof -
  have "sch_reveals (snd (foldl (wsb_step sample_api sample_platform) (sample_submitter, sample_world)
     [SetEpoch 1, SubmitBatch [(0, [4], [9]), (1, [4, 5], [1, 2])], RevealMechanisms])) = 2"
    by code_simp
  moreover have "ob_good sample_observer sample_world" by (simp add: sample_observer_def sample_world_def)
  ultimately show ?thesis
    using reveals_open_commitments [OF sample_chain_laws sample_hex_round_trip, of sample_world sample_submitter
        "BtMechanismWeightManager_new sample_client" "[SetEpoch 1, SubmitBatch [(0, [4], [9]), (1, [4, 5], [1, 2])], RevealMechanisms]" "[]"]
    by (simp add: sample_submitter_def PersistedCommitState_default_def BtMechanismWeightManager_new_def sample_observer_def)
qed

section \<open>Lost commits\<close>

text \<open>
  A pending commit is taken out of the state, and the state saved, before it is revealed: when the reveal fails, the commit is lost
  and can never be revealed. A plain commit is also lost when the epoch changes, since only batches record the epoch of their
  commits.
\<close>

lemma failed_reveal_loses_commit:
  assumes "use_commit_reveal (wsb_client w)" and "pcs_pending_commit (wsb_state w) = Some p"
    and "\<And>a n us ws salt v s. \<exists>e s'. api_reveal_weights A a n us ws salt v s = (Inl e, s')"
  shows "\<exists>e w' s'. wsb_submit_weights A P ws (w, s) = (Inl e, w', s') \<and> pcs_pending_commit (wsb_state w') = None"
proof -
  obtain w1 s1 where st: "take_pending A (w, s) = (w1, s1)" "pcs_pending_commit (wsb_state w1) = None"
    by (auto simp: take_pending_def persist_def)
  obtain e s2 where "reveal_pending_v2 A P p (w1, s1) = (Inl e, w1, s2)"
  proof (cases "client_and_signer (wsb_client w1)")
    case (Inr a)
    obtain e s2 where "api_reveal_weights A a (netuid (wsb_client w1)) (map ucast (p2_uids p)) (p2_weights p)
        (get_salt P (p2_salt_hex p)) (p2_version_key p) s1 = (Inl e, s2)" using assms(3) by blast
    then show ?thesis using that Inr by (simp add: reveal_pending_v2_def Let_def)
  qed (use that in \<open>simp add: reveal_pending_v2_def Let_def\<close>)
  then show ?thesis
    using assms(1, 2) st by (simp add: wsb_submit_weights_def submit_with_commit_reveal_def)
qed

lemma epoch_change_drops_plain_commit:
  assumes "e \<noteq> wsb_current_epoch w" and "pcs_committed_epoch (wsb_state w) = None"
  shows "pcs_pending_commit (wsb_state (fst (set_epoch A e (w, s)))) = None"
  using assms by (simp add: set_epoch_def persist_def pcs_new_epoch_def)

end
