(* ===== verification/Weight_Collector.thy ===== *)
theory Weight_Collector
  imports Submission_Safety
begin

text \<open>
  The collector that fetches the weights of all challenges at an epoch change, converts hotkeys to identifiers and submits one batch
  (\<^verbatim>\<open>bittensor-integration/src/challenge_weight_collector.rs\<close>). The HTTP request of an endpoint is a parameter: its reply, or
  nothing when the time limit of the endpoint passed.
\<close>

section \<open>Endpoints and replies\<close>

definition DEFAULT_CHALLENGE_TIMEOUT_SECS :: u64 where
  "DEFAULT_CHALLENGE_TIMEOUT_SECS = 60"

record ChallengeEndpoint =
  ep_name :: string
  ep_mechanism_id :: u8
  ep_endpoint :: string
  ep_timeout_secs :: u64
  ep_active :: bool

record HotkeyWeightEntry =
  hw_hotkey :: string
  hw_weight :: f64

record ChallengeWeightsResponse =
  cwr_epoch :: u64
  cwr_weights :: "HotkeyWeightEntry list"
  cwr_uids :: "u16 list"
  cwr_weight_values :: "u16 list"
  cwr_challenge_name :: "string option"
  cwr_mechanism_id :: "u8 option"

record ChallengeWeightResult =
  cw_mechanism_id :: u8
  cw_challenge_name :: string
  cw_uids :: "u16 list"
  cw_weights :: "u16 list"
  cw_success :: bool
  cw_error :: "string option"
  cw_duration_ms :: u64

record CollectorStatus =
  cst_last_epoch :: u64
  cst_last_collection_time :: "i64 option"
  cst_successful :: usize
  cst_failed :: usize
  cst_last_tx_hash :: "string option"

record ChallengeWeightCollector =
  col_client :: SubtensorClient
  col_endpoints :: "ChallengeEndpoint list"
  col_status :: CollectorStatus

text \<open>A reply: whether its status is a success, the status, the text of the body and the body read as JSON.\<close>

record http_reply =
  hr_is_success :: bool
  hr_status :: string
  hr_text :: string
  hr_json :: "string + ChallengeWeightsResponse"

text \<open>The request of an address within a number of seconds, with the duration; \<open>None\<close> when the time passed.\<close>

type_synonym http_get = "string \<Rightarrow> u64 \<Rightarrow> (string + http_reply) option \<times> u64"

section \<open>Operations\<close>

definition Collector_new :: "SubtensorClient \<Rightarrow> ChallengeWeightCollector" where
  "Collector_new c =
     \<lparr>col_client = c, col_endpoints = [],
      col_status = \<lparr>cst_last_epoch = 0, cst_last_collection_time = None, cst_successful = 0, cst_failed = 0, cst_last_tx_hash = None\<rparr>\<rparr>"

definition register_endpoint :: "ChallengeWeightCollector \<Rightarrow> ChallengeEndpoint \<Rightarrow> ChallengeWeightCollector" where
  "register_endpoint c e =
     (let es = col_endpoints c;
          es' = (if \<exists>x \<in> set es. ep_mechanism_id x = ep_mechanism_id e
                 then filter (\<lambda>x. ep_mechanism_id x \<noteq> ep_mechanism_id e) es else es)
      in c\<lparr>col_endpoints := es' @ [e]\<rparr>)"

definition register_endpoints :: "ChallengeWeightCollector \<Rightarrow> ChallengeEndpoint list \<Rightarrow> ChallengeWeightCollector" where
  "register_endpoints c es = foldl register_endpoint c es"

text \<open>The ordered map from identifiers to weights: adding to an entry.\<close>

fun btree_add :: "u16 \<Rightarrow> u64 \<Rightarrow> (u16 \<times> u64) list \<Rightarrow> (u16 \<times> u64) list" where
  "btree_add k v [] = [(k, v)]"
| "btree_add k v ((k', v') # xs) =
     (if k = k' then (k', v' + v) # xs else if k < k' then (k, v) # (k', v') # xs else (k', v') # btree_add k v xs)"

definition clamp_unit :: "f64 \<Rightarrow> f64" where
  "clamp_unit x = max 0 (min 1 x)"

definition weight_units :: "f64 \<Rightarrow> u64" where
  "weight_units x = f64_as_u64 (clamp_unit x * real (unat MAX_WEIGHT))"

text \<open>The loop over the entries: the map, the burn weight and the number of unresolved hotkeys.\<close>

definition convert_entry ::
    "(string \<Rightarrow> u16 option) \<Rightarrow> (u16 \<times> u64) list \<times> f64 \<times> usize \<Rightarrow> HotkeyWeightEntry \<Rightarrow> (u16 \<times> u64) list \<times> f64 \<times> usize" where
  "convert_entry resolver acc e =
     (case acc of (m, burn, unresolved) \<Rightarrow>
        case resolver (hw_hotkey e) of
          Some uid \<Rightarrow>
            if uid = BURN_UID then (m, burn + hw_weight e, unresolved)
            else (btree_add uid (weight_units (hw_weight e)) m, burn, unresolved)
        | None \<Rightarrow> (m, burn + hw_weight e, unresolved + 1))"

definition final_burn :: "(u16 \<times> u64) list \<Rightarrow> f64 \<Rightarrow> usize \<Rightarrow> u16" where
  "final_burn m burn unresolved =
     (let assigned = sum_list (map snd m); burn_units = weight_units burn
      in if burn_units > 0 \<or> unresolved > 0
         then ucast (min (ucast MAX_WEIGHT - min assigned (ucast MAX_WEIGHT)) burn_units) else 0)"

definition convert_hotkeys_with_resolver :: "HotkeyWeightEntry list \<Rightarrow> (string \<Rightarrow> u16 option) \<Rightarrow> u16 list \<times> u16 list" where
  "convert_hotkeys_with_resolver entries resolver =
     (if entries = [] then ([BURN_UID], [MAX_WEIGHT])
      else case foldl (convert_entry resolver) ([], 0, 0) entries of
             (m, burn, unresolved) \<Rightarrow>
               let fb = final_burn m burn unresolved;
                   head = (if fb > 0 \<or> m = [] then [(BURN_UID, if m = [] then MAX_WEIGHT else fb)] else []);
                   pairs = head @ map (\<lambda>(uid, w). (uid, ucast (min w (ucast MAX_WEIGHT)))) m
               in (map fst pairs, map snd pairs))"

definition convert_hotkeys_to_uids :: "'s chain_api \<Rightarrow> ChallengeWeightCollector \<Rightarrow> HotkeyWeightEntry list \<Rightarrow> u16 list \<times> u16 list" where
  "convert_hotkeys_to_uids A c entries = convert_hotkeys_with_resolver entries (get_uid_for_hotkey A (col_client c))"

definition endpoint_url :: "ChallengeEndpoint \<Rightarrow> u64 \<Rightarrow> string" where
  "endpoint_url e epoch =
     (if CHR ''?'' \<in> set (ep_endpoint e) then ep_endpoint e @ ''&epoch='' @ decimal (unat epoch)
      else ep_endpoint e @ ''?epoch='' @ decimal (unat epoch))"

definition failed_result :: "ChallengeEndpoint \<Rightarrow> string \<Rightarrow> u64 \<Rightarrow> ChallengeWeightResult" where
  "failed_result e err ms =
     \<lparr>cw_mechanism_id = ep_mechanism_id e, cw_challenge_name = ep_name e, cw_uids = [], cw_weights = [], cw_success = False,
      cw_error = Some err, cw_duration_ms = ms\<rparr>"

definition fetched_result :: "ChallengeEndpoint \<Rightarrow> u16 list \<times> u16 list \<Rightarrow> u64 \<Rightarrow> ChallengeWeightResult" where
  "fetched_result e r ms =
     \<lparr>cw_mechanism_id = ep_mechanism_id e, cw_challenge_name = ep_name e, cw_uids = fst r, cw_weights = snd r, cw_success = True,
      cw_error = None, cw_duration_ms = ms\<rparr>"

definition read_response ::
    "'s chain_api \<Rightarrow> ChallengeWeightCollector \<Rightarrow> ChallengeEndpoint \<Rightarrow> u64 \<Rightarrow> ChallengeWeightsResponse \<Rightarrow> ChallengeWeightResult" where
  "read_response A c e ms r =
     (if cwr_weights r \<noteq> [] then fetched_result e (convert_hotkeys_to_uids A c (cwr_weights r)) ms
      else if cwr_uids r \<noteq> [] \<and> cwr_weight_values r \<noteq> []
      then (if length (cwr_uids r) \<noteq> length (cwr_weight_values r) then failed_result e ''UIDs and weights length mismatch'' ms
            else fetched_result e (cwr_uids r, cwr_weight_values r) ms)
      else fetched_result e ([BURN_UID], [MAX_WEIGHT]) ms)"

definition fetch_challenge_weights ::
    "'s chain_api \<Rightarrow> http_get \<Rightarrow> ChallengeWeightCollector \<Rightarrow> ChallengeEndpoint \<Rightarrow> u64 \<Rightarrow> ChallengeWeightResult" where
  "fetch_challenge_weights A http c e epoch =
     (case http (endpoint_url e epoch) (ep_timeout_secs e) of
        (Some (Inr reply), ms) \<Rightarrow>
          (if \<not> hr_is_success reply then failed_result e (''HTTP error: '' @ hr_status reply @ '' - '' @ hr_text reply) ms
           else case hr_json reply of Inl err \<Rightarrow> failed_result e err ms | Inr r \<Rightarrow> read_response A c e ms r)
      | (Some (Inl err), ms) \<Rightarrow> failed_result e err ms
      | (None, ms) \<Rightarrow> failed_result e (''Timeout after '' @ decimal (unat (ep_timeout_secs e)) @ ''s'') ms)"

definition collect_all_weights ::
    "'s chain_api \<Rightarrow> http_get \<Rightarrow> i64 \<Rightarrow> ChallengeWeightCollector \<Rightarrow> u64 \<Rightarrow> ChallengeWeightResult list \<times> ChallengeWeightCollector" where
  "collect_all_weights A http now c epoch =
     (let active = filter ep_active (col_endpoints c)
      in if active = [] then ([], c)
         else let results = map (\<lambda>e. fetch_challenge_weights A http c e epoch) active;
                  successful = length (filter cw_success results)
              in (results, c\<lparr>col_status := (col_status c)\<lparr>cst_last_epoch := epoch, cst_last_collection_time := Some now,
                               cst_successful := successful, cst_failed := length results - successful\<rparr>\<rparr>))"

definition batch_entry :: "ChallengeWeightResult \<Rightarrow> u8 \<times> u16 list \<times> u16 list" where
  "batch_entry r =
     (if cw_success r \<and> cw_uids r \<noteq> [] then (cw_mechanism_id r, cw_uids r, cw_weights r) else (cw_mechanism_id r, [0], [65535]))"

definition collect_and_submit ::
    "'s chain_api \<Rightarrow> http_get \<Rightarrow> i64 \<Rightarrow> u64 \<Rightarrow> ChallengeWeightCollector \<Rightarrow> 's \<Rightarrow> (string + string) \<times> ChallengeWeightCollector \<times> 's" where
  "collect_and_submit A http now epoch c s =
     (case collect_all_weights A http now c epoch of
        (results, c1) \<Rightarrow>
          if results = [] then (Inl ''No challenge endpoints registered'', c1, s)
          else case client_and_signer (col_client c1) of
                 Inl e \<Rightarrow> (Inl e, c1, s)
               | Inr account \<Rightarrow>
                   case api_batch_set_mechanism_weights A account (netuid (col_client c1)) (map batch_entry results)
                          (version_key (col_client c1)) s of
                     (Inl e, s1) \<Rightarrow> (Inl e, c1, s1)
                   | (Inr tx, s1) \<Rightarrow> (Inr tx, c1\<lparr>col_status := (col_status c1)\<lparr>cst_last_tx_hash := Some tx\<rparr>\<rparr>, s1))"

definition col_sync_metagraph :: "'s chain_api \<Rightarrow> ChallengeWeightCollector \<Rightarrow> 's \<Rightarrow> (string + unit) \<times> ChallengeWeightCollector \<times> 's" where
  "col_sync_metagraph A c s =
     (case stc_sync_metagraph A (col_client c) s of
        (Inl e, k, s1) \<Rightarrow> (Inl e, c\<lparr>col_client := k\<rparr>, s1)
      | (Inr m, k, s1) \<Rightarrow> (Inr (), c\<lparr>col_client := k\<rparr>, s1))"

definition on_new_epoch ::
    "'s chain_api \<Rightarrow> http_get \<Rightarrow> i64 \<Rightarrow> u64 \<Rightarrow> ChallengeWeightCollector \<Rightarrow> 's \<Rightarrow> (string + string) \<times> ChallengeWeightCollector \<times> 's" where
  "on_new_epoch A http now epoch c s =
     (case col_sync_metagraph A c s of
        (Inl e, c1, s1) \<Rightarrow> (Inl e, c1, s1)
      | (Inr u, c1, s1) \<Rightarrow> collect_and_submit A http now epoch c1 s1)"

record CollectorBuilder =
  cb_client :: SubtensorClient
  cb_endpoints :: "ChallengeEndpoint list"

definition CollectorBuilder_new :: "SubtensorClient \<Rightarrow> CollectorBuilder" where
  "CollectorBuilder_new c = \<lparr>cb_client = c, cb_endpoints = []\<rparr>"

definition add_endpoint :: "CollectorBuilder \<Rightarrow> ChallengeEndpoint \<Rightarrow> CollectorBuilder" where
  "add_endpoint b e = b\<lparr>cb_endpoints := cb_endpoints b @ [e]\<rparr>"

definition add_endpoints :: "CollectorBuilder \<Rightarrow> ChallengeEndpoint list \<Rightarrow> CollectorBuilder" where
  "add_endpoints b es = b\<lparr>cb_endpoints := cb_endpoints b @ es\<rparr>"

definition build_collector :: "CollectorBuilder \<Rightarrow> ChallengeWeightCollector" where
  "build_collector b = register_endpoints (Collector_new (cb_client b)) (cb_endpoints b)"

section \<open>The ordered map\<close>

lemma btree_add_keys: "set (map fst (btree_add k v m)) = insert k (set (map fst m))"
proof (induction m)
  case (Cons x m)
  then show ?case by (cases x) (simp add: insert_commute)
qed simp

lemma btree_add_sorted: "sorted_wrt (<) (map fst m) \<Longrightarrow> sorted_wrt (<) (map fst (btree_add k v m))"
proof (induction m)
  case (Cons x m)
  obtain k' v' where x: "x = (k', v')" by (cases x)
  show ?case
    using Cons btree_add_keys [of k v m] by (auto simp: x dest: less_trans)
qed simp

definition units_total :: "(u16 \<times> u64) list \<Rightarrow> nat" where
  "units_total m = sum_list (map (unat \<circ> snd) m)"

lemma btree_add_total:
  assumes "units_total m + unat v < 2 ^ 64"
  shows "units_total (btree_add k v m) = units_total m + unat v"
  using assms
proof (induction m)
  case (Cons x m)
  obtain k' v' where x: "x = (k', v')" by (cases x)
  have "unat (v' + v) = unat v' + unat v" if "unat v' + unat v < 2 ^ 64"
    using that by (simp add: unat_add_lem [THEN iffD1])
  then show ?case using Cons by (auto simp: x units_total_def)
qed (simp add: units_total_def)

section \<open>The conversion of hotkeys\<close>

lemma unat_f64_as_u64:
  assumes "0 \<le> x" and "x \<le> 65535"
  shows "unat (f64_as_u64 x) = nat \<lfloor>x\<rfloor>"
proof -
  have "nat \<lfloor>x\<rfloor> \<le> 65535" using assms by linarith
  then have "nat \<lfloor>x\<rfloor> < 2 ^ 64" by simp
  moreover have "f64_as_u64 x = of_nat (nat \<lfloor>x\<rfloor>)" using assms by (simp add: f64_as_u64_def)
  ultimately show ?thesis by (simp only: unat_of_nat) simp
qed

lemma weight_units_unit:
  assumes "0 \<le> x" and "x \<le> 1"
  shows "unat (weight_units x) = nat \<lfloor>x * 65535\<rfloor>"
  using assms by (simp add: weight_units_def clamp_unit_def MAX_WEIGHT_def unat_f64_as_u64)

lemma weight_units_le:
  assumes "0 \<le> x" and "x \<le> 1"
  shows "real (unat (weight_units x)) \<le> 65535 * x"
  using assms by (simp add: weight_units_unit) linarith

definition unit_entries :: "HotkeyWeightEntry list \<Rightarrow> bool" where
  "unit_entries es \<longleftrightarrow> (\<forall>e \<in> set es. 0 \<le> hw_weight e) \<and> sum_list (map hw_weight es) \<le> 1"

definition share_of :: "(string \<Rightarrow> u16 option) \<Rightarrow> HotkeyWeightEntry list \<Rightarrow> u16 \<Rightarrow> nat" where
  "share_of resolver es uid =
     sum_list (map (\<lambda>e. nat \<lfloor>hw_weight e * 65535\<rfloor>) (filter (\<lambda>e. resolver (hw_hotkey e) = Some uid) es))"

definition units_at :: "(u16 \<times> u64) list \<Rightarrow> u16 \<Rightarrow> nat" where
  "units_at m uid = (case map_of m uid of Some v \<Rightarrow> unat v | None \<Rightarrow> 0)"

lemma units_at_le: "units_at m uid \<le> units_total m"
proof (cases "map_of m uid")
  case (Some v)
  then have "(uid, v) \<in> set m" by (rule map_of_SomeD)
  then show ?thesis by (force simp: units_at_def Some units_total_def intro: member_le_sum_list)
qed (simp add: units_at_def)

lemma btree_add_at:
  assumes "units_total m + unat v < 2 ^ 64" and "sorted_wrt (<) (map fst m)"
  shows "units_at (btree_add k v m) uid = units_at m uid + (if uid = k then unat v else 0)"
  using assms
proof (induction m)
  case (Cons x m)
  obtain k' v' where x: "x = (k', v')" by (cases x)
  have sum: "unat (v' + v) = unat v' + unat v"
    using Cons.prems(1) by (simp add: x units_total_def unat_add_lem [THEN iffD1])
  have "map_of m k = None" if "k < k'" using Cons.prems(2) that by (force simp: x map_of_eq_None_iff)
  then show ?case using Cons sum by (auto simp: x units_at_def units_total_def)
qed (simp add: units_at_def)

definition conversion_inv :: "(string \<Rightarrow> u16 option) \<Rightarrow> HotkeyWeightEntry list \<Rightarrow> (u16 \<times> u64) list \<times> f64 \<times> usize \<Rightarrow> bool" where
  "conversion_inv resolver es acc \<longleftrightarrow>
     (case acc of (m, burn, unresolved) \<Rightarrow>
        sorted_wrt (<) (map fst m) \<and> 0 \<notin> fst ` set m \<and> 0 \<le> burn \<and>
        real (units_total m) + 65535 * burn \<le> 65535 * sum_list (map hw_weight es) \<and>
        (\<forall>uid. uid \<noteq> 0 \<longrightarrow> units_at m uid = share_of resolver es uid))"

lemma unit_entries_snoc:
  assumes "unit_entries (es @ [e])"
  shows "unit_entries es" "0 \<le> hw_weight e" "hw_weight e \<le> 1" "sum_list (map hw_weight es) + hw_weight e \<le> 1"
proof -
  have "0 \<le> sum_list (map hw_weight es)" using assms by (intro sum_list_nonneg) (auto simp: unit_entries_def)
  then show "unit_entries es" "0 \<le> hw_weight e" "hw_weight e \<le> 1" "sum_list (map hw_weight es) + hw_weight e \<le> 1"
    using assms by (auto simp: unit_entries_def)
qed

lemma convert_entry_inv:
  assumes "conversion_inv resolver es acc" and "unit_entries (es @ [e])"
  shows "conversion_inv resolver (es @ [e]) (convert_entry resolver acc e)"
proof -
  obtain m burn unresolved where acc: "acc = (m, burn, unresolved)" by (cases acc)
  note e = unit_entries_snoc [OF assms(2)]
  note inv = assms(1) [unfolded conversion_inv_def acc prod.case]
  show ?thesis
  proof (cases "\<exists>uid. resolver (hw_hotkey e) = Some uid \<and> uid \<noteq> BURN_UID")
    case True
    then obtain uid where uid: "resolver (hw_hotkey e) = Some uid" "uid \<noteq> BURN_UID" by blast
    let ?v = "weight_units (hw_weight e)"
    have v: "real (unat ?v) \<le> 65535 * hw_weight e" using e by (intro weight_units_le)
    have "real (units_total m) + real (unat ?v) \<le> 65535" using inv e(4) v by argo
    then have "units_total m + unat ?v \<le> 65535" by linarith
    then have no_overflow: "units_total m + unat ?v < 2 ^ 64" by simp
    have sorted: "sorted_wrt (<) (map fst m)" using inv by blast
    have "real (units_total (btree_add uid ?v m)) + 65535 * burn \<le> 65535 * sum_list (map hw_weight (es @ [e]))"
      using inv v btree_add_total [OF no_overflow, of uid] by (simp add: algebra_simps)
    moreover have "units_at (btree_add uid ?v m) u = share_of resolver (es @ [e]) u" if "u \<noteq> 0" for u
      using inv that uid(1) btree_add_at [OF no_overflow sorted, of uid u] e(2, 3) by (auto simp: share_of_def weight_units_unit)
    ultimately show ?thesis
      using inv btree_add_sorted [OF sorted] btree_add_keys [of uid ?v m] uid
      by (auto simp: acc conversion_inv_def convert_entry_def BURN_UID_def)
  next
    case False
    have "share_of resolver (es @ [e]) u = share_of resolver es u" if "u \<noteq> 0" for u
      using False that by (auto simp: share_of_def BURN_UID_def)
    then show ?thesis
      using inv e(2) False
      by (auto simp: acc conversion_inv_def convert_entry_def algebra_simps split: option.splits)
  qed
qed

lemma convert_loop_inv:
  "unit_entries es \<Longrightarrow> conversion_inv resolver es (foldl (convert_entry resolver) ([], 0, 0) es)"
proof (induction es rule: rev_induct)
  case Nil
  then show ?case by (simp add: conversion_inv_def units_total_def units_at_def share_of_def)
next
  case (snoc e es)
  then show ?case using convert_entry_inv unit_entries_snoc(1) by simp
qed

lemma units_sum_word:
  assumes "units_total m < 2 ^ 64"
  shows "unat (sum_list (map snd m)) = units_total m"
proof -
  have "sum_list (map snd m) = of_nat (units_total m)" by (induction m) (simp_all add: units_total_def)
  then show ?thesis using assms by (simp add: unat_of_nat)
qed

lemma final_burn_le:
  assumes "units_total m \<le> 65535"
  shows "unat (final_burn m burn unresolved) \<le> 65535 - units_total m"
proof -
  have assigned: "unat (sum_list (map snd m)) = units_total m" using assms by (intro units_sum_word) simp
  define rest where "rest = (ucast MAX_WEIGHT - min (sum_list (map snd m)) (ucast MAX_WEIGHT) :: u64)"
  have max: "unat (ucast MAX_WEIGHT :: u64) = 65535" by (simp add: MAX_WEIGHT_def)
  have "min (sum_list (map snd m)) (ucast MAX_WEIGHT) = sum_list (map snd m)"
    using assigned assms max by (simp add: min_def word_le_nat_alt)
  then have rest: "unat rest = 65535 - units_total m"
    using assigned assms max by (simp add: rest_def unat_sub word_le_nat_alt)
  have "unat (ucast (min rest x) :: u16) \<le> unat rest" for x
  proof -
    have "unat (ucast (min rest x) :: u16) \<le> unat (min rest x)"
      by (simp add: unsigned_ucast_eq take_bit_nat_less_eq_self)
    also have "\<dots> \<le> unat rest" by (simp add: word_le_nat_alt [symmetric])
    finally show ?thesis .
  qed
  then show ?thesis using rest by (simp add: final_burn_def Let_def rest_def)
qed

lemma capped_units:
  assumes "units_total m \<le> 65535" and "(uid, w) \<in> set m"
  shows "unat (ucast (min w (ucast MAX_WEIGHT)) :: u16) = unat w"
proof -
  have "unat w \<le> units_total m" using assms(2) by (force simp: units_total_def intro: member_le_sum_list)
  then have "unat w \<le> 65535" using assms(1) by simp
  then show ?thesis
    by (simp add: min_def word_le_nat_alt MAX_WEIGHT_def unsigned_ucast_eq take_bit_eq_mod)
qed

definition cap :: "u16 \<times> u64 \<Rightarrow> u16 \<times> u16" where
  "cap p = (fst p, ucast (min (snd p) (ucast MAX_WEIGHT)))"

lemma capped_map:
  assumes "units_total m \<le> 65535"
  shows "sum_list (map (unat \<circ> snd) (map cap m)) = units_total m"
    and "(case map_of (map cap m) uid of Some w \<Rightarrow> unat w | None \<Rightarrow> 0) = units_at m uid"
proof -
  have cap: "unat (snd (cap p)) = unat (snd p)" if "p \<in> set m" for p
    using capped_units [OF assms, of "fst p" "snd p"] that by (simp add: cap_def)
  then show "sum_list (map (unat \<circ> snd) (map cap m)) = units_total m"
    unfolding units_total_def by (auto intro!: arg_cong [of _ _ sum_list] map_cong)
  have "map_of (map cap m) = map_option (\<lambda>w. ucast (min w (ucast MAX_WEIGHT))) \<circ> map_of m"
    using map_of_map [of "\<lambda>w. ucast (min w (ucast MAX_WEIGHT))" m] by (simp add: cap_def [abs_def] case_prod_beta')
  then show "(case map_of (map cap m) uid of Some w \<Rightarrow> unat w | None \<Rightarrow> 0) = units_at m uid"
    using cap map_of_SomeD [of m uid] by (fastforce simp: units_at_def cap_def split: option.splits)
qed

text \<open>
  C38. Hotkeys become identifiers without loss. For weights that are not negative and add up to at most one, the identifiers handed to the
  chain are in increasing order, as many as the weights and at least one; every identifier other than the burn identifier 0 gets
  exactly the sum of the scaled weights of the hotkeys that resolve to it; and all weights together do not exceed 65535.
\<close>

theorem hotkey_conversion:
  assumes "unit_entries es" and "convert_hotkeys_with_resolver es resolver = (uids, ws)"
  shows "uids \<noteq> [] \<and> length uids = length ws \<and> sorted_wrt (<) uids \<and> sum_list (map unat ws) \<le> 65535 \<and>
     (\<forall>uid. uid \<noteq> 0 \<longrightarrow> (case map_of (zip uids ws) uid of Some w \<Rightarrow> unat w | None \<Rightarrow> 0) = share_of resolver es uid)"
proof (cases "es = []")
  case True
  then show ?thesis using assms(2) by (auto simp: convert_hotkeys_with_resolver_def BURN_UID_def MAX_WEIGHT_def share_of_def)
next
  case False
  obtain m burn unresolved where run: "foldl (convert_entry resolver) ([], 0, 0) es = (m, burn, unresolved)" by (metis prod_cases3)
  have inv: "conversion_inv resolver es (m, burn, unresolved)" using convert_loop_inv [OF assms(1)] by (simp add: run [symmetric])
  have "real (units_total m) \<le> 65535" using inv assms(1) by (simp add: conversion_inv_def unit_entries_def)
  then have total: "units_total m \<le> 65535" by simp
  define fb where "fb = final_burn m burn unresolved"
  define head where "head = (if fb > 0 \<or> m = [] then [(BURN_UID, if m = [] then MAX_WEIGHT else fb)] else [])"
  have pairs: "uids = map fst (head @ map cap m)" "ws = map snd (head @ map cap m)"
    using assms(2) False
    by (auto simp: convert_hotkeys_with_resolver_def run Let_def fb_def head_def cap_def case_prod_beta)
  have fst_cap: "map fst (map cap m) = map fst m" by (simp add: cap_def comp_def)
  have keys: "sorted_wrt (<) (map fst m)" "0 \<notin> fst ` set m" using inv by (auto simp: conversion_inv_def)
  have "sorted_wrt (<) uids"
    using keys by (auto simp: pairs(1) head_def fst_cap BURN_UID_def cap_def comp_def word_gt_0)
  moreover have "sum_list (map unat ws) \<le> 65535"
    using capped_map(1) [OF total] total final_burn_le [OF total, of burn unresolved]
    by (auto simp: pairs(2) head_def fb_def [symmetric] MAX_WEIGHT_def units_total_def comp_def)
  moreover have "(case map_of (zip uids ws) uid of Some w \<Rightarrow> unat w | None \<Rightarrow> 0) = share_of resolver es uid" if "uid \<noteq> 0" for uid
  proof -
    have "map_of (zip uids ws) uid = map_of (map cap m) uid"
      unfolding pairs zip_map_fst_snd using that by (auto simp: head_def BURN_UID_def)
    then show ?thesis using capped_map(2) [OF total, of uid] inv that by (simp add: conversion_inv_def)
  qed
  ultimately show ?thesis by (auto simp: pairs head_def)
qed

theorem hotkey_conversion_witness:
  "\<exists>uids ws. convert_hotkeys_with_resolver
       [\<lparr>hw_hotkey = ''a'', hw_weight = 1 / 2\<rparr>, \<lparr>hw_hotkey = ''b'', hw_weight = 1 / 4\<rparr>, \<lparr>hw_hotkey = ''x'', hw_weight = 1 / 4\<rparr>]
       (map_of [(''a'', 5), (''b'', 5)]) = (uids, ws) \<and>
     (case map_of (zip uids ws) 5 of Some w \<Rightarrow> unat w | None \<Rightarrow> 0) = 49150 \<and> sum_list (map unat ws) \<le> 65535"
proof -
  let ?es = "[\<lparr>hw_hotkey = ''a'', hw_weight = 1 / 2\<rparr>, \<lparr>hw_hotkey = ''b'', hw_weight = 1 / 4\<rparr>, \<lparr>hw_hotkey = ''x'', hw_weight = 1 / 4\<rparr>]"
  let ?r = "map_of [(''a'', 5 :: u16), (''b'', 5)]"
  obtain uids ws where run: "convert_hotkeys_with_resolver ?es ?r = (uids, ws)" by force
  have "unit_entries ?es" by (simp add: unit_entries_def)
  moreover have "share_of ?r ?es 5 = 49150" by (simp add: share_of_def)
  ultimately show ?thesis using hotkey_conversion [OF _ run] run by auto
qed

section \<open>The submitted batch\<close>

definition distinct_mechanisms :: "ChallengeWeightCollector \<Rightarrow> bool" where
  "distinct_mechanisms c \<longleftrightarrow> distinct (map ep_mechanism_id (col_endpoints c))"

interpretation endpoints: machine register_endpoint distinct_mechanisms
proof
  fix c e
  assume "distinct_mechanisms c"
  then show "distinct_mechanisms (register_endpoint c e)"
    by (auto simp: distinct_mechanisms_def register_endpoint_def Let_def distinct_map_filter)
qed

lemma fetch_mechanism [simp]: "cw_mechanism_id (fetch_challenge_weights A http c e epoch) = ep_mechanism_id e"
  by (simp add: fetch_challenge_weights_def read_response_def failed_result_def fetched_result_def
      split: prod.splits option.splits sum.splits)

lemma batch_entry_fst [simp]: "fst (batch_entry r) = cw_mechanism_id r"
  by (simp add: batch_entry_def)

text \<open>The client that remembers the batch it was given, to observe what the collector submits.\<close>

definition submitted_batch :: "'s chain_api \<Rightarrow> http_get \<Rightarrow> i64 \<Rightarrow> u64 \<Rightarrow> ChallengeWeightCollector \<Rightarrow> (u8 \<times> u16 list \<times> u16 list) list" where
  "submitted_batch A http now epoch c = map batch_entry (fst (collect_all_weights A http now c epoch))"

lemma collect_and_submit_batch:
  assumes "submitted_batch A http now epoch c \<noteq> []" and "client_and_signer (col_client c) = Inr account"
  shows "fst (collect_and_submit A http now epoch c s) =
    fst (api_batch_set_mechanism_weights A account (netuid (col_client c)) (submitted_batch A http now epoch c) (version_key (col_client c)) s)"
proof -
  have client: "col_client (snd (collect_all_weights A http now c epoch)) = col_client c"
    by (simp add: collect_all_weights_def Let_def)
  obtain rs c1 where run: "collect_all_weights A http now c epoch = (rs, c1)" by force
  with assms(1) have "rs \<noteq> []" by (simp add: submitted_batch_def)
  then show ?thesis
    using client assms(2) by (simp add: collect_and_submit_def submitted_batch_def run split: prod.splits sum.splits)
qed

text \<open>
  C39. Every active challenge is in the batch once. However endpoints were registered, the batch of an epoch has exactly one entry per active
  endpoint, of its mechanism, no mechanism twice; a challenge that could not be fetched, answered with an error or with lists of
  different lengths hands everything to the burn identifier; and the batch is what the chain is given.
\<close>

theorem batch_covers_challenges:
  assumes "c = foldl register_endpoint (Collector_new k) es"
  shows "map fst (submitted_batch A http now epoch c) = map ep_mechanism_id (filter ep_active (col_endpoints c)) \<and>
     distinct (map fst (submitted_batch A http now epoch c)) \<and>
     (\<forall>e \<in> set (col_endpoints c). ep_active e \<longrightarrow> \<not> cw_success (fetch_challenge_weights A http c e epoch) \<longrightarrow>
        (ep_mechanism_id e, [0], [65535]) \<in> set (submitted_batch A http now epoch c)) \<and>
     (\<forall>account s. submitted_batch A http now epoch c \<noteq> [] \<longrightarrow> client_and_signer (col_client c) = Inr account \<longrightarrow>
        fst (collect_and_submit A http now epoch c s) =
          fst (api_batch_set_mechanism_weights A account (netuid (col_client c)) (submitted_batch A http now epoch c)
                 (version_key (col_client c)) s))"
proof -
  have batch: "submitted_batch A http now epoch c =
      map (\<lambda>e. batch_entry (fetch_challenge_weights A http c e epoch)) (filter ep_active (col_endpoints c))"
    by (auto simp: submitted_batch_def collect_all_weights_def Let_def comp_def)
  then have ids: "map fst (submitted_batch A http now epoch c) = map ep_mechanism_id (filter ep_active (col_endpoints c))"
    by (simp add: comp_def)
  have "distinct_mechanisms c"
    unfolding assms by (rule endpoints.run_inv) (simp add: distinct_mechanisms_def Collector_new_def)
  then have "distinct (map ep_mechanism_id (filter ep_active (col_endpoints c)))"
    by (simp add: distinct_mechanisms_def distinct_map_filter)
  moreover have "(ep_mechanism_id e, [0], [65535]) \<in> set (submitted_batch A http now epoch c)"
    if "e \<in> set (col_endpoints c)" "ep_active e" "\<not> cw_success (fetch_challenge_weights A http c e epoch)" for e
  proof -
    have "batch_entry (fetch_challenge_weights A http c e epoch) = (ep_mechanism_id e, [0], [65535])"
      using that(3) by (simp add: batch_entry_def)
    then show ?thesis using that(1, 2) unfolding batch by force
  qed
  ultimately show ?thesis using ids collect_and_submit_batch [of A http now epoch c] by (intro conjI) auto
qed

theorem batch_covers_challenges_witness:
  "(3, [0], [65535]) \<in> set (submitted_batch sample_api (\<lambda>_ _. (None, 0)) 0 1 (foldl register_endpoint (Collector_new sample_client)
     [\<lparr>ep_name = ''a'', ep_mechanism_id = 3, ep_endpoint = ''u'', ep_timeout_secs = 1, ep_active = True\<rparr>]))"
proof -
  let ?e = "\<lparr>ep_name = ''a'', ep_mechanism_id = 3, ep_endpoint = ''u'', ep_timeout_secs = 1, ep_active = True\<rparr>"
  have "\<not> cw_success (fetch_challenge_weights sample_api (\<lambda>_ _. (None, 0)) c ?e 1)" for c
    by (simp add: fetch_challenge_weights_def failed_result_def)
  moreover have "?e \<in> set (col_endpoints (foldl register_endpoint (Collector_new sample_client) [?e]))"
    by (simp add: register_endpoint_def Collector_new_def)
  ultimately show ?thesis
    using batch_covers_challenges [OF refl, where es = "[?e]" and http = "\<lambda>_ _. (None, 0)" and now = 0 and epoch = 1 and A = sample_api and k = sample_client] by fastforce
qed

end
