(* ===== verification/Metagraph_Sync.thy ===== *)
theory Metagraph_Sync
  imports Core_State Subtensor
begin

text \<open>
  Synchronisation with the Bittensor chain: the validators of the core state follow the metagraph
  (\<^verbatim>\<open>bittensor-integration/src/validator_sync.rs\<close>), and block events become the events of the platform
  (\<^verbatim>\<open>block_sync.rs\<close>). The listener that produces the block events belongs to \<^verbatim>\<open>bittensor_rs\<close>; its events are the inputs of
  \<open>handle_block_event\<close>.
\<close>

section \<open>Validators from the metagraph\<close>

record MetagraphValidator =
  mv_hotkey :: Hotkey
  mv_uid :: u16
  mv_stake :: u64
  mv_active :: bool
  mv_incentive :: f64
  mv_trust :: f64
  mv_consensus :: f64

record ValidatorSync =
  vsy_client :: SubtensorClient
  vsy_netuid :: u16
  vsy_min_stake :: u64
  vsy_last_sync_block :: u64
  vsy_sync_interval :: u64

record SyncResult =
  sy_added :: usize
  sy_removed :: usize
  sy_updated :: usize
  sy_skipped_banned :: usize
  sy_total :: usize

record SyncStatus =
  sst_last_sync_block :: u64
  sst_sync_interval :: u64
  sst_netuid :: u16
  sst_min_stake :: u64

datatype SyncError = ClientError string | ParseError string | StateError string

definition ValidatorSync_new :: "SubtensorClient \<Rightarrow> u16 \<Rightarrow> u64 \<Rightarrow> ValidatorSync" where
  "ValidatorSync_new c net min_stake =
     \<lparr>vsy_client = c, vsy_netuid = net, vsy_min_stake = min_stake, vsy_last_sync_block = 0, vsy_sync_interval = 100\<rparr>"

definition with_sync_interval :: "ValidatorSync \<Rightarrow> u64 \<Rightarrow> ValidatorSync" where
  "with_sync_interval v blocks = v\<lparr>vsy_sync_interval := blocks\<rparr>"

definition needs_sync :: "ValidatorSync \<Rightarrow> u64 \<Rightarrow> bool" where
  "needs_sync v current_block \<longleftrightarrow> current_block \<ge> vsy_last_sync_block v + vsy_sync_interval v"

text \<open>The stake of a neuron: alpha and root stake added at 128 bits with saturation, cut to 64 bits.\<close>

definition effective_stake :: "Neuron \<Rightarrow> u64" where
  "effective_stake n = of_nat (min (min (nu_stake n + nu_root_stake n) (2 ^ 128 - 1)) (2 ^ 64 - 1))"

definition metagraph_validator :: "u64 \<times> Neuron \<Rightarrow> MetagraphValidator" where
  "metagraph_validator p =
     (case p of (uid, n) \<Rightarrow>
        \<lparr>mv_hotkey = Hotkey (nu_hotkey n), mv_uid = ucast uid, mv_stake = effective_stake n, mv_active = effective_stake n > 0,
         mv_incentive = nu_incentive n / 65535, mv_trust = nu_trust n / 65535, mv_consensus = nu_consensus n / 65535\<rparr>)"

definition parse_metagraph :: "ValidatorSync \<Rightarrow> Metagraph \<Rightarrow> MetagraphValidator list \<times> Hotkey set" where
  "parse_metagraph v m =
     (map metagraph_validator (filter (\<lambda>(uid, n). effective_stake n \<ge> vsy_min_stake v) m),
      set (map (\<lambda>(uid, n). Hotkey (nu_hotkey n)) m))"

definition validator_map :: "MetagraphValidator list \<Rightarrow> (Hotkey, MetagraphValidator) hashmap" where
  "validator_map vs = foldl (\<lambda>m v. hm_insert (mv_hotkey v) v m) hm_new vs"

definition remove_unregistered ::
    "(Hotkey, MetagraphValidator) hashmap \<Rightarrow> CoreState \<times> SyncResult \<Rightarrow> Hotkey \<Rightarrow> CoreState \<times> SyncResult" where
  "remove_unregistered bt st h =
     (case st of (s, r) \<Rightarrow>
        if \<not> hm_contains bt h \<and> \<not> core_is_sudo s h
        then (s\<lparr>co_validators := hm_remove h (co_validators s)\<rparr>, r\<lparr>sy_removed := sy_removed r + 1\<rparr>) else (s, r))"

definition merge_validator ::
    "platform \<Rightarrow> i64 \<Rightarrow> string set option \<Rightarrow> CoreState \<times> SyncResult \<Rightarrow> Hotkey \<times> MetagraphValidator \<Rightarrow> CoreState \<times> SyncResult" where
  "merge_validator P now banned st p =
     (case (st, p) of ((s, r), (h, v)) \<Rightarrow>
        if (case banned of Some b \<Rightarrow> to_hex P h \<in> b | None \<Rightarrow> False)
        then (s, r\<lparr>sy_skipped_banned := sy_skipped_banned r + 1\<rparr>)
        else case hm_get (co_validators s) h of
               Some existing \<Rightarrow>
                 if cvi_stake existing \<noteq> mv_stake v
                 then (s\<lparr>co_validators := hm_insert h (existing\<lparr>cvi_stake := mv_stake v, cvi_is_active := mv_active v\<rparr>) (co_validators s)\<rparr>,
                       r\<lparr>sy_updated := sy_updated r + 1\<rparr>)
                 else (s, r)
             | None \<Rightarrow>
                 case core_add_validator P now s (CoreValidatorInfo_new now h (mv_stake v)) of
                   (Inr u, s') \<Rightarrow> (s', r\<lparr>sy_added := sy_added r + 1\<rparr>)
                 | (Inl e, s') \<Rightarrow> (s', r))"

definition SyncResult_default :: SyncResult where
  "SyncResult_default = \<lparr>sy_added = 0, sy_removed = 0, sy_updated = 0, sy_skipped_banned = 0, sy_total = 0\<rparr>"

definition update_state ::
    "platform \<Rightarrow> i64 \<Rightarrow> CoreState \<Rightarrow> MetagraphValidator list \<Rightarrow> string set option \<Rightarrow> SyncResult \<times> CoreState" where
  "update_state P now s vs banned =
     (let bt = validator_map vs;
          st1 = foldl (remove_unregistered bt) (s, SyncResult_default) (hm_keys (co_validators s));
          (s2, r) = foldl (merge_validator P now banned) st1 (hm_iter bt)
      in (r\<lparr>sy_total := hm_len (co_validators s2)\<rparr>, s2))"

definition vsy_sync ::
    "'s chain_api \<Rightarrow> platform \<Rightarrow> i64 \<Rightarrow> string set option \<Rightarrow> ValidatorSync \<Rightarrow> CoreState \<Rightarrow> 's \<Rightarrow>
     (SyncError + SyncResult) \<times> ValidatorSync \<times> CoreState \<times> 's" where
  "vsy_sync A P now banned v s w =
     (case stc_sync_metagraph A (vsy_client v) w of
        (Inl e, c, w1) \<Rightarrow> (Inl (ClientError e), v\<lparr>vsy_client := c\<rparr>, s, w1)
      | (Inr m, c, w1) \<Rightarrow>
          case parse_metagraph v m of
            (vs, hotkeys) \<Rightarrow>
              case update_state P now (s\<lparr>co_registered_hotkeys := hotkeys\<rparr>) vs banned of
                (r, s1) \<Rightarrow> (Inr r, v\<lparr>vsy_client := c, vsy_last_sync_block := co_block_height s1\<rparr>, s1, w1))"

definition vsy_status :: "ValidatorSync \<Rightarrow> SyncStatus" where
  "vsy_status v =
     \<lparr>sst_last_sync_block = vsy_last_sync_block v, sst_sync_interval = vsy_sync_interval v, sst_netuid = vsy_netuid v,
      sst_min_stake = vsy_min_stake v\<rparr>"

section \<open>Block events\<close>

text \<open>The phases of \<^verbatim>\<open>bittensor_rs\<close> that the code tells apart, and any other.\<close>

datatype BtPhase = BtEvaluation | BtCommitWindow | BtRevealWindow | BtOther nat

record EpochInfo =
  ei_current_block :: u64
  ei_epoch_number :: u64
  ei_phase :: BtPhase
  ei_tempo :: u64
  ei_blocks_remaining :: u64

datatype BlockEvent =
    BeNewBlock u64 EpochInfo
  | BeEpochTransition u64 u64 u64 \<comment> \<open>old epoch, new epoch, block\<close>
  | BePhaseChange u64 BtPhase BtPhase u64 \<comment> \<open>block, old phase, new phase, epoch\<close>
  | BeConnectionError string
  | BeStopped

datatype BlockSyncEvent =
    NewBlockEvent u64 EpochInfo
  | EpochTransitionEvent u64 u64 u64
  | PhaseChangeEvent u64 BtPhase BtPhase u64
  | CommitWindowOpen u64 u64 \<comment> \<open>epoch, block\<close>
  | RevealWindowOpen u64 u64
  | Disconnected string
  | Reconnected

record BlockSyncConfig =
  bsc_netuid :: u16
  bsc_channel_capacity :: usize

definition BlockSyncConfig_default :: BlockSyncConfig where
  "BlockSyncConfig_default = \<lparr>bsc_netuid = 1, bsc_channel_capacity = 100\<rparr>"

text \<open>
  The synchroniser; \<open>bs_sent\<close> are the events handed to the channel so far and \<open>bs_receiver\<close> whether its receiver still exists, without
  which sending fails and the event is dropped with a warning.
\<close>

record BlockSync =
  bs_config :: BlockSyncConfig
  bs_connected :: bool
  bs_running :: bool
  bs_receiver :: bool
  bs_receiver_taken :: bool
  bs_sent :: "BlockSyncEvent list"
  bs_current_block :: u64
  bs_current_epoch :: u64
  bs_current_phase :: BtPhase
  bs_tempo :: u64
  bs_was_disconnected :: bool

definition BlockSync_new :: "BlockSyncConfig \<Rightarrow> BlockSync" where
  "BlockSync_new config =
     \<lparr>bs_config = config, bs_connected = False, bs_running = False, bs_receiver = True, bs_receiver_taken = False, bs_sent = [],
      bs_current_block = 0, bs_current_epoch = 0, bs_current_phase = BtEvaluation, bs_tempo = 360, bs_was_disconnected = False\<rparr>"

definition take_event_receiver :: "BlockSync \<Rightarrow> bool \<times> BlockSync" where
  "take_event_receiver b = (\<not> bs_receiver_taken b, b\<lparr>bs_receiver_taken := True\<rparr>)"

definition bs_connect :: "BlockSync \<Rightarrow> string + EpochInfo \<Rightarrow> (string + unit) \<times> BlockSync" where
  "bs_connect b initial =
     (case initial of
        Inl e \<Rightarrow> (Inl e, b)
      | Inr i \<Rightarrow> (Inr (), b\<lparr>bs_current_block := ei_current_block i, bs_current_epoch := ei_epoch_number i, bs_current_phase := ei_phase i,
                         bs_tempo := ei_tempo i, bs_connected := True\<rparr>))"

definition bs_start :: "BlockSync \<Rightarrow> (string + unit) \<times> BlockSync" where
  "bs_start b =
     (if \<not> bs_connected b then (Inl ''Not connected - call connect() first'', b)
      else if bs_running b then (Inr (), b) else (Inr (), b\<lparr>bs_running := True, bs_was_disconnected := False\<rparr>))"

definition bs_stop :: "BlockSync \<Rightarrow> BlockSync" where
  "bs_stop b = b\<lparr>bs_running := False\<rparr>"

definition send_event :: "BlockSyncEvent \<Rightarrow> BlockSync \<Rightarrow> BlockSync" where
  "send_event e b = (if bs_receiver b then b\<lparr>bs_sent := bs_sent b @ [e]\<rparr> else b)"

definition handle_block_event :: "BlockEvent \<Rightarrow> BlockSync \<Rightarrow> bool \<times> BlockSync" where
  "handle_block_event event b =
     (case event of
        BeNewBlock block info \<Rightarrow>
          let b1 = send_event (NewBlockEvent block info)
                (b\<lparr>bs_current_block := block, bs_current_epoch := ei_epoch_number info, bs_current_phase := ei_phase info\<rparr>)
          in (False, if bs_was_disconnected b1 then send_event Reconnected (b1\<lparr>bs_was_disconnected := False\<rparr>) else b1)
      | BeEpochTransition old new block \<Rightarrow> (False, send_event (EpochTransitionEvent old new block) b)
      | BePhaseChange block old new epoch \<Rightarrow>
          let b1 = send_event (PhaseChangeEvent block old new epoch) b
          in (False, case new of
                BtCommitWindow \<Rightarrow> send_event (CommitWindowOpen epoch block) b1
              | BtRevealWindow \<Rightarrow> send_event (RevealWindowOpen epoch block) b1
              | _ \<Rightarrow> b1)
      | BeConnectionError e \<Rightarrow> (False, send_event (Disconnected e) (b\<lparr>bs_was_disconnected := True\<rparr>))
      | BeStopped \<Rightarrow> (True, b))"

text \<open>The loop of the background task over the events it receives.\<close>

fun process_events :: "BlockEvent list \<Rightarrow> BlockSync \<Rightarrow> BlockSync" where
  "process_events [] b = b"
| "process_events (e # es) b =
     (if \<not> bs_running b then b
      else case handle_block_event e b of (stop, b1) \<Rightarrow> if stop then b1 else process_events es b1)"

section \<open>What a synchronisation does to the validators\<close>

lemma validator_map_get:
  "hm_get (validator_map vs) h = find (\<lambda>v. mv_hotkey v = h) (rev vs)"
  unfolding validator_map_def
  by (induction vs rule: rev_induct) (auto simp: lookup_update)

lemma validator_map_key: "hm_get (validator_map vs) h = Some v \<Longrightarrow> mv_hotkey v = h"
  by (auto simp: validator_map_get find_Some_iff)

lemma remove_unregistered_fold:
  assumes "foldl (remove_unregistered bt) (s, r) hs = (s', r')"
  shows "co_sudo_key s' = co_sudo_key s \<and> co_config s' = co_config s \<and>
    (\<forall>h. hm_get (co_validators s') h =
       (if h \<in> set hs \<and> \<not> hm_contains bt h \<and> h \<noteq> co_sudo_key s then None else hm_get (co_validators s) h))"
  using assms
proof (induction hs arbitrary: s r)
  case (Cons h hs)
  obtain s1 r1 where step: "remove_unregistered bt (s, r) h = (s1, r1)" by force
  then have s1: "co_sudo_key s1 = co_sudo_key s" "co_config s1 = co_config s"
    "hm_get (co_validators s1) k = (if k = h \<and> \<not> hm_contains bt h \<and> h \<noteq> co_sudo_key s then None else hm_get (co_validators s) k)" for k
    by (auto simp: remove_unregistered_def core_is_sudo_def lookup_delete split: if_splits)
  from Cons.IH [of s1 r1] Cons.prems s1 show ?case by (auto simp: step)
qed simp

definition is_banned :: "platform \<Rightarrow> string set option \<Rightarrow> Hotkey \<Rightarrow> bool" where
  "is_banned P banned h = (case banned of Some b \<Rightarrow> to_hex P h \<in> b | None \<Rightarrow> False)"

text \<open>A hotkey after the merge: untouched if banned, updated if it was there, and else added or turned away.\<close>

definition merged :: "platform \<Rightarrow> i64 \<Rightarrow> string set option \<Rightarrow> CoreState \<Rightarrow> CoreState \<Rightarrow> Hotkey \<Rightarrow> MetagraphValidator \<Rightarrow> bool" where
  "merged P now banned s s' h v \<longleftrightarrow>
     (if is_banned P banned h then hm_get (co_validators s') h = hm_get (co_validators s) h
      else case hm_get (co_validators s) h of
             Some x \<Rightarrow> \<exists>y. hm_get (co_validators s') h = Some y \<and> cvi_stake y = mv_stake v
           | None \<Rightarrow> hm_get (co_validators s') h \<in> {None, Some (CoreValidatorInfo_new now h (mv_stake v))})"

definition frame_of :: "CoreState \<Rightarrow> CoreState \<Rightarrow> Hotkey set \<Rightarrow> bool" where
  "frame_of s s' hs \<longleftrightarrow>
     co_sudo_key s' = co_sudo_key s \<and> co_config s' = co_config s \<and>
     (\<forall>h. h \<notin> hs \<longrightarrow> hm_get (co_validators s') h = hm_get (co_validators s) h)"

lemma merge_validator_get:
  assumes "merge_validator P now banned (s, r) (h, v) = (s', r')"
  shows "frame_of s s' {h} \<and> merged P now banned s s' h v"
  using assms
  by (auto simp: merge_validator_def is_banned_def core_add_validator_def lookup_update CoreValidatorInfo_new_def frame_of_def merged_def
      split: if_splits option.splits)

lemma merge_validator_len:
  assumes "merge_validator P now banned (s, r) (h, v) = (s', r')"
  shows "hm_len (co_validators s') \<le> Suc (hm_len (co_validators s))"
    and "hm_len (co_validators s) \<le> cnc_max_validators (co_config s) \<Longrightarrow> hm_len (co_validators s') \<le> cnc_max_validators (co_config s)"
    and "\<lbrakk>hm_len (co_validators s) < cnc_max_validators (co_config s); mv_stake v \<ge> cnc_min_stake (co_config s);
          \<not> is_banned P banned h\<rbrakk> \<Longrightarrow> hm_contains (co_validators s') h"
  using assms
  by (auto simp: merge_validator_def core_add_validator_def hm_len_insert hm_contains_def is_banned_def lookup_update
      CoreValidatorInfo_new_def split: if_splits option.splits)

lemma merge_fold:
  assumes "foldl (merge_validator P now banned) (s, r) xs = (s', r')" and "distinct (map fst xs)"
  shows "frame_of s s' (fst ` set xs) \<and> (\<forall>(h, v) \<in> set xs. merged P now banned s s' h v)"
  using assms
proof (induction xs arbitrary: s r)
  case (Cons x xs)
  obtain h v where x: "x = (h, v)" by (cases x)
  obtain s1 r1 where step: "merge_validator P now banned (s, r) (h, v) = (s1, r1)" by force
  note first = merge_validator_get [OF step]
  have rest: "frame_of s1 s' (fst ` set xs)" "\<forall>(h, v) \<in> set xs. merged P now banned s1 s' h v"
    using Cons.IH [of s1 r1] Cons.prems by (simp_all add: x step)
  have fresh: "h \<notin> fst ` set xs" using Cons.prems(2) by (simp add: x)
  have "hm_get (co_validators s') h = hm_get (co_validators s1) h" using rest(1) fresh by (simp add: frame_of_def)
  then have "merged P now banned s s' h v" using first unfolding merged_def by (auto split: option.splits if_splits)
  moreover have "merged P now banned s s' k w" if "(k, w) \<in> set xs" for k w
  proof -
    have "k \<noteq> h" using that fresh by force
    then show ?thesis using that rest(2) first by (fastforce simp: frame_of_def merged_def)
  qed
  ultimately show ?case using first rest(1) by (auto simp: x frame_of_def)
qed (simp add: frame_of_def)

lemma merge_fold_len:
  assumes "foldl (merge_validator P now banned) (s, r) xs = (s', r')"
    and "hm_len (co_validators s) \<le> cnc_max_validators (co_config s)"
  shows "hm_len (co_validators s') \<le> cnc_max_validators (co_config s)"
  using assms
proof (induction xs arbitrary: s r)
  case (Cons x xs)
  obtain s1 r1 where step: "merge_validator P now banned (s, r) (fst x, snd x) = (s1, r1)" by force
  have "co_config s1 = co_config s" using merge_validator_get [OF step] by (simp add: frame_of_def)
  then show ?case
    using Cons.IH [of s1 r1] Cons.prems merge_validator_len(2) [OF step] step by simp
qed simp

lemma merge_fold_adds:
  assumes "foldl (merge_validator P now banned) (s, r) xs = (s', r')" and "distinct (map fst xs)"
    and "hm_len (co_validators s) + length xs \<le> cnc_max_validators (co_config s)"
    and "(h, v) \<in> set xs" "mv_stake v \<ge> cnc_min_stake (co_config s)" "\<not> is_banned P banned h"
  shows "hm_contains (co_validators s') h"
  using assms
proof (induction xs arbitrary: s r)
  case (Cons x xs)
  obtain k w where x: "x = (k, w)" by (cases x)
  obtain s1 r1 where step: "merge_validator P now banned (s, r) (k, w) = (s1, r1)" by force
  have run: "foldl (merge_validator P now banned) (s1, r1) xs = (s', r')" and distinct: "distinct (map fst xs)"
    using Cons.prems(1, 2) by (simp_all add: x step)
  have conf: "co_config s1 = co_config s" using merge_validator_get [OF step] by (simp add: frame_of_def)
  show ?case
  proof (cases "(h, v) = (k, w)")
    case True
    then have "hm_contains (co_validators s1) h"
      using Cons.prems merge_validator_len(3) [OF step] by (simp add: x)
    moreover have "h \<notin> fst ` set xs" using Cons.prems(2) True by (simp add: x)
    ultimately show ?thesis using merge_fold [OF run distinct] by (simp add: hm_contains_def frame_of_def)
  next
    case False
    have "hm_len (co_validators s1) + length xs \<le> cnc_max_validators (co_config s1)"
      using Cons.prems(3) merge_validator_len(1) [OF step] by (simp add: x conf)
    then show ?thesis using Cons.IH [OF run distinct] Cons.prems False by (auto simp: x conf)
  qed
qed simp

lemma removed_len:
  assumes "foldl (remove_unregistered bt) (s, r) hs = (s', r')"
  shows "hm_len (co_validators s') \<le> hm_len (co_validators s)"
proof -
  have "hm_get (co_validators s') h = None \<or> hm_get (co_validators s') h = hm_get (co_validators s) h" for h
    using remove_unregistered_fold [OF assms] by simp
  then have "dom (hm_get (co_validators s')) \<subseteq> dom (hm_get (co_validators s))" by (metis domIff subsetI)
  then show ?thesis unfolding hm_len_card by (rule card_mono [OF finite_dom_hm_get])
qed

text \<open>
  C40. The validators follow the metagraph. After a synchronisation every validator is the sudo key or listed in the metagraph with enough
  stake; a validator that was there, is listed and is not banned stays, with its stake of the metagraph; a new one comes in
  with that stake; a banned one is neither added nor changed; the maximum is kept; and when there is room for all listed
  validators and their stake suffices, all that are not banned are there.
\<close>

theorem sync_follows_metagraph:
  assumes "update_state P now s vs banned = (r, s')" and "bt = validator_map vs"
  shows "(\<forall>h. hm_contains (co_validators s') h \<longrightarrow> h = co_sudo_key s \<or> hm_contains bt h) \<and>
     (\<forall>h v x. hm_get bt h = Some v \<longrightarrow> \<not> is_banned P banned h \<longrightarrow> hm_get (co_validators s) h = Some x \<longrightarrow>
        (\<exists>y. hm_get (co_validators s') h = Some y \<and> cvi_stake y = mv_stake v)) \<and>
     (\<forall>h v y. hm_get bt h = Some v \<longrightarrow> \<not> is_banned P banned h \<longrightarrow> hm_get (co_validators s') h = Some y \<longrightarrow> cvi_stake y = mv_stake v) \<and>
     (\<forall>h v. hm_get bt h = Some v \<longrightarrow> is_banned P banned h \<longrightarrow> hm_get (co_validators s') h = hm_get (co_validators s) h) \<and>
     (hm_len (co_validators s) \<le> cnc_max_validators (co_config s) \<longrightarrow> hm_len (co_validators s') \<le> cnc_max_validators (co_config s)) \<and>
     (\<forall>h v. hm_len (co_validators s) + hm_len bt \<le> cnc_max_validators (co_config s) \<longrightarrow> hm_get bt h = Some v \<longrightarrow>
        mv_stake v \<ge> cnc_min_stake (co_config s) \<longrightarrow> \<not> is_banned P banned h \<longrightarrow> hm_contains (co_validators s') h) \<and>
     sy_total r = hm_len (co_validators s')"
proof -
  obtain s1 r1 where rem: "foldl (remove_unregistered bt) (s, SyncResult_default) (hm_keys (co_validators s)) = (s1, r1)" by force
  obtain r2 where merge: "foldl (merge_validator P now banned) (s1, r1) (hm_iter bt) = (s', r2)"
    and r: "r = r2\<lparr>sy_total := hm_len (co_validators s')\<rparr>"
    using assms(1) by (auto simp: update_state_def Let_def assms(2) [symmetric] rem split: prod.splits)
  note kept = remove_unregistered_fold [OF rem]
  have distinct: "distinct (map fst (hm_iter bt))" using hm_keys_distinct [of bt] by (simp add: hm_keys_def)
  note fold = merge_fold [OF merge distinct]
  have conf: "co_config s1 = co_config s" "co_sudo_key s1 = co_sudo_key s" using kept by simp_all
  have listed: "hm_get (co_validators s1) h = hm_get (co_validators s) h" if "hm_get bt h = Some v" for h v
    using kept that by (simp add: hm_contains_def)
  have m: "merged P now banned s1 s' h v" if "hm_get bt h = Some v" for h v
    using fold that by (auto simp: hm_in_iter)
  have "h = co_sudo_key s \<or> hm_contains bt h" if "hm_contains (co_validators s') h" for h
  proof (rule ccontr)
    assume neg: "\<not> (h = co_sudo_key s \<or> hm_contains bt h)"
    then have "h \<notin> fst ` set (hm_iter bt)" by (auto simp: hm_contains_def hm_in_iter)
    then have "hm_get (co_validators s1) h \<noteq> None" using that fold by (simp add: frame_of_def hm_contains_def)
    then show False using kept neg by (auto simp: set_hm_keys domIff split: if_splits)
  qed
  moreover have "\<exists>y. hm_get (co_validators s') h = Some y \<and> cvi_stake y = mv_stake v"
    if "hm_get bt h = Some v" "\<not> is_banned P banned h" "hm_get (co_validators s) h = Some x" for h v x
    using m [OF that(1)] that(2, 3) listed [OF that(1)] by (simp add: merged_def)
  moreover have "cvi_stake y = mv_stake v"
    if "hm_get bt h = Some v" "\<not> is_banned P banned h" "hm_get (co_validators s') h = Some y" for h v y
    using m [OF that(1)] that(2, 3) by (auto simp: merged_def CoreValidatorInfo_new_def split: option.splits)
  moreover have "hm_get (co_validators s') h = hm_get (co_validators s) h" if "hm_get bt h = Some v" "is_banned P banned h" for h v
    using m [OF that(1)] that(2) listed [OF that(1)] by (simp add: merged_def)
  moreover have "hm_len (co_validators s') \<le> cnc_max_validators (co_config s)"
    if "hm_len (co_validators s) \<le> cnc_max_validators (co_config s)"
    using merge_fold_len [OF merge] that removed_len [OF rem] by (simp add: conf)
  moreover have "hm_contains (co_validators s') h"
    if "hm_len (co_validators s) + hm_len bt \<le> cnc_max_validators (co_config s)" "hm_get bt h = Some v"
      "mv_stake v \<ge> cnc_min_stake (co_config s)" "\<not> is_banned P banned h" for h v
    using merge_fold_adds [OF merge distinct] that removed_len [OF rem] by (auto simp: conf hm_len_def hm_in_iter)
  ultimately show ?thesis using r by auto
qed

definition sample_listed :: "u8 \<Rightarrow> u64 \<Rightarrow> MetagraphValidator" where
  "sample_listed k stake =
     \<lparr>mv_hotkey = Hotkey [k], mv_uid = 1, mv_stake = stake, mv_active = True, mv_incentive = 0, mv_trust = 0, mv_consensus = 0\<rparr>"

theorem sync_follows_metagraph_witness:
  "hm_contains (co_validators (snd (update_state sample_platform 5 sample_core [sample_listed 1 20, sample_listed 2 30] None))) (Hotkey [1])"
proof -
  obtain r s' where run: "update_state sample_platform 5 sample_core [sample_listed 1 20, sample_listed 2 30] None = (r, s')" by force
  let ?bt = "validator_map [sample_listed 1 20, sample_listed 2 30]"
  have "hm_len (co_validators sample_core) + hm_len ?bt \<le> cnc_max_validators (co_config sample_core)"
    "hm_get ?bt (Hotkey [1]) = Some (sample_listed 1 20)" "mv_stake (sample_listed 1 20) \<ge> cnc_min_stake (co_config sample_core)"
    by (simp_all add: sample_core_def CoreState_new_def CoreState_default_def core_update_hash_def sample_core_config_def validator_map_def
        sample_listed_def hm_len_insert lookup_update hm_contains_def)
  moreover have "\<not> is_banned sample_platform None (Hotkey [1])" by (simp add: is_banned_def)
  ultimately have "hm_contains (co_validators s') (Hotkey [1])" using sync_follows_metagraph [OF run refl] by blast
  then show ?thesis by (simp add: run)
qed

text \<open>
  The removal of validators does not recompute the hash of the state: after a synchronisation with an empty metagraph the validators are
  gone and the recorded hash is still that of the state with them.
\<close>

lemma removal_keeps_stale_hash:
  assumes "update_state P now s [] banned = (r, s')"
  shows "co_state_hash s' = co_state_hash s \<and> (\<forall>h. h \<noteq> co_sudo_key s \<longrightarrow> hm_get (co_validators s') h = None)"
proof -
  have hash: "co_state_hash (fst (foldl (remove_unregistered bt) (s, r) hs)) = co_state_hash s" for bt hs r
  proof (induction hs arbitrary: s r)
    case (Cons h hs)
    obtain s1 r1 where step: "remove_unregistered bt (s, r) h = (s1, r1)" by force
    then have "co_state_hash s1 = co_state_hash s" by (auto simp: remove_unregistered_def split: if_splits)
    with Cons [of s1 r1] show ?case by (simp add: step)
  qed simp
  obtain r1 where rem: "foldl (remove_unregistered hm_new) (s, SyncResult_default) (hm_keys (co_validators s)) = (s', r1)"
    using assms by (auto simp: update_state_def validator_map_def Let_def split: prod.splits)
  from remove_unregistered_fold [OF this] hash [of hm_new SyncResult_default "hm_keys (co_validators s)"] show ?thesis
    by (auto simp: rem set_hm_keys domIff)
qed

section \<open>Reconnections\<close>

text \<open>Every reported reconnection follows a reported loss of the connection of its own, and the position is that of the last block.\<close>

definition losses :: "BlockSyncEvent list \<Rightarrow> nat" where
  "losses es = length (filter (\<lambda>e. case e of Disconnected x \<Rightarrow> True | _ \<Rightarrow> False) es)"

definition recoveries :: "BlockSyncEvent list \<Rightarrow> nat" where
  "recoveries es = length (filter (\<lambda>e. e = Reconnected) es)"

definition balanced :: "BlockSync \<Rightarrow> bool" where
  "balanced b \<longleftrightarrow>
     bs_receiver b \<and> recoveries (bs_sent b) + (if bs_was_disconnected b then 1 else 0) \<le> losses (bs_sent b)"

lemma handle_block_event_balanced: "balanced b \<Longrightarrow> balanced (snd (handle_block_event e b))"
  by (cases e; cases "bs_was_disconnected b")
    (auto simp: handle_block_event_def balanced_def send_event_def losses_def recoveries_def Let_def split: BtPhase.splits)

lemma process_events_balanced: "balanced b \<Longrightarrow> balanced (process_events es b)"
proof (induction es arbitrary: b)
  case (Cons e es)
  then show ?case using handle_block_event_balanced [of b e] by (auto split: prod.splits)
qed simp

end
