(* ===== verification/Spec2Isabelle.thy ===== *)
theory Spec2Isabelle
  imports Consensus_Safety View_Change Merkle State_Facts Network Epoch_Manager Commit_Reveal Replication Storage_Spec Mechanism_Weights Container_Safety
    State_Versions Core_Messages Submission_Safety Weight_Collector Metagraph_Sync
begin

text \<open>
  A verification library for a peer-to-peer validator network.
\<close>

end
